(* ===== verification/Prelude.thy ===== *)
theory Prelude
  imports Main "HOL-Library.Word"
begin

text \<open>
  Shared vocabulary of the development: bytes, C strings, the faults of an execution, results
  that may be a fault, and reads and writes of byte buffers with their bounds.

  A C function is translated to a HOL function that returns a value of type \<open>'a res\<close>. The
  left summand is a fault: a step for which the C standard gives no meaning (a null dereference,
  an access outside an object, a read of an indeterminate variable) or a call of \<open>exit\<close>. The error
  codes the code returns on purpose are ordinary integers in the right summand.
\<close>

unbundle bit_operations_syntax

named_theorems res_simps \<open>unfolding of results and buffer accesses\<close>
named_theorems frame_simps \<open>reads of a buffer after a write\<close>

section \<open>Types\<close>

type_synonym u8 = "8 word"
type_synonym u16 = "16 word"
type_synonym u32 = "32 word"
type_synonym bytes = "u8 list"

text \<open>A C string is the list of the bytes before its terminator, so \<open>strlen\<close> is \<open>length\<close>.\<close>

type_synonym cstr = "u8 list"

text \<open>A pointer into an object: the object's bytes and an offset into them.\<close>

type_synonym ptr = "bytes \<times> nat"

datatype fault =
    NullDeref        \<comment> \<open>a null pointer is dereferenced\<close>
  | OutOfBounds      \<comment> \<open>a read outside an object\<close>
  | Overflow         \<comment> \<open>a write outside an object\<close>
  | Uninit           \<comment> \<open>an indeterminate variable is read\<close>
  | BadCast          \<comment> \<open>a \<open>void *\<close> is read as a struct it does not point to\<close>
  | Exited           \<comment> \<open>the process calls \<open>exit\<close>\<close>

type_synonym 'a res = "fault + 'a"

abbreviation Ok :: "'a \<Rightarrow> 'a res" where "Ok \<equiv> Inr"
abbreviation Fault :: "fault \<Rightarrow> 'a res" where "Fault \<equiv> Inl"

section \<open>Sequencing\<close>

definition bindR :: "'a res \<Rightarrow> ('a \<Rightarrow> 'b res) \<Rightarrow> 'b res" where
  "bindR m f = (case m of Inl e \<Rightarrow> Inl e | Inr x \<Rightarrow> f x)"

definition deref :: "'a option \<Rightarrow> 'a res" where
  "deref p = (case p of None \<Rightarrow> Fault NullDeref | Some x \<Rightarrow> Ok x)"

definition init_val :: "'a option \<Rightarrow> 'a res" where
  "init_val v = (case v of None \<Rightarrow> Fault Uninit | Some x \<Rightarrow> Ok x)"

lemma bindR_Inr [simp]: "bindR (Inr x) f = f x"
  by (simp add: bindR_def)

lemma bindR_Inl [simp]: "bindR (Inl e) f = Inl e"
  by (simp add: bindR_def)

lemma bindR_eq_Inr: "bindR m f = Inr y \<longleftrightarrow> (\<exists>x. m = Inr x \<and> f x = Inr y)"
  by (cases m) simp_all

lemma bindR_eq_Inl: "bindR m f = Inl e \<longleftrightarrow> m = Inl e \<or> (\<exists>x. m = Inr x \<and> f x = Inl e)"
  by (cases m) simp_all

lemma bindR_InrE:
  assumes "bindR m f = Inr y"
  obtains x where "m = Inr x" and "f x = Inr y"
  using assms by (auto simp: bindR_eq_Inr)

lemma bindR_cong [fundef_cong]:
  "m = m' \<Longrightarrow> (\<And>x. m' = Inr x \<Longrightarrow> f x = g x) \<Longrightarrow> bindR m f = bindR m' g"
  by (cases m') simp_all

lemma deref_Some [simp]: "deref (Some x) = Inr x"
  by (simp add: deref_def)

lemma deref_None [simp]: "deref None = Inl NullDeref"
  by (simp add: deref_def)

lemma deref_eq_Inr [simp]: "deref p = Inr x \<longleftrightarrow> p = Some x"
  by (cases p) simp_all

lemma init_val_Some [simp]: "init_val (Some x) = Inr x"
  by (simp add: init_val_def)

lemma init_val_None [simp]: "init_val None = Inl Uninit"
  by (simp add: init_val_def)

lemma init_val_eq_Inr [simp]: "init_val p = Inr x \<longleftrightarrow> p = Some x"
  by (cases p) simp_all

text \<open>Partial correctness of a result: what holds of the value, if the execution has no fault.\<close>

definition res_all :: "('a \<Rightarrow> bool) \<Rightarrow> 'a res \<Rightarrow> bool" where
  "res_all P m = (case m of Inl _ \<Rightarrow> True | Inr x \<Rightarrow> P x)"

lemma res_all_Inr [simp]: "res_all P (Inr x) = P x"
  by (simp add: res_all_def)

lemma res_all_Inl [simp]: "res_all P (Inl e)"
  by (simp add: res_all_def)

lemma res_all_bindR:
  "res_all P m \<Longrightarrow> (\<And>x. P x \<Longrightarrow> res_all Q (f x)) \<Longrightarrow> res_all Q (bindR m f)"
  by (cases m) simp_all

lemma res_all_mono: "res_all P m \<Longrightarrow> (\<And>x. P x \<Longrightarrow> Q x) \<Longrightarrow> res_all Q m"
  by (cases m) simp_all

lemma res_all_InrD: "res_all P m \<Longrightarrow> m = Inr x \<Longrightarrow> P x"
  by simp

lemma res_allI: "(\<And>x. m = Inr x \<Longrightarrow> P x) \<Longrightarrow> res_all P m"
  by (cases m) simp_all

section \<open>Byte buffers\<close>

text \<open>\<open>memcpy\<close> and friends: a read or a write of a run of bytes is a fault when it leaves the object.\<close>

definition rd_bytes :: "bytes \<Rightarrow> nat \<Rightarrow> nat \<Rightarrow> bytes res" where
  "rd_bytes buf off n =
     (if off + n \<le> length buf then Ok (take n (drop off buf)) else Fault OutOfBounds)"

definition rd8 :: "bytes \<Rightarrow> nat \<Rightarrow> u8 res" where
  "rd8 buf i = (if i < length buf then Ok (buf ! i) else Fault OutOfBounds)"

definition wr_bytes :: "bytes \<Rightarrow> nat \<Rightarrow> bytes \<Rightarrow> bytes res" where
  "wr_bytes buf off bs =
     (if off + length bs \<le> length buf
      then Ok (take off buf @ bs @ drop (off + length bs) buf) else Fault Overflow)"

definition rdp_bytes :: "ptr \<Rightarrow> nat \<Rightarrow> nat \<Rightarrow> bytes res" where
  "rdp_bytes p i n = rd_bytes (fst p) (snd p + i) n"

definition rdp8 :: "ptr \<Rightarrow> nat \<Rightarrow> u8 res" where
  "rdp8 p i = rd8 (fst p) (snd p + i)"

lemma rd_bytes_eq_Inr [res_simps]:
  "rd_bytes buf off n = Inr bs \<longleftrightarrow> off + n \<le> length buf \<and> bs = take n (drop off buf)"
  by (auto simp: rd_bytes_def)

lemma rd_bytes_length: "rd_bytes buf off n = Inr bs \<Longrightarrow> length bs = n"
  by (auto simp: rd_bytes_eq_Inr)

lemma rd8_eq_Inr [res_simps]: "rd8 buf i = Inr b \<longleftrightarrow> i < length buf \<and> b = buf ! i"
  by (auto simp: rd8_def)

lemma rd8_Ok: "i < length buf \<Longrightarrow> rd8 buf i = Inr (buf ! i)"
  by (simp add: rd8_def)

lemma rd_bytes_Ok: "off + n \<le> length buf \<Longrightarrow> rd_bytes buf off n = Inr (take n (drop off buf))"
  by (simp add: rd_bytes_def)

lemma wr_bytes_eq_Inr [res_simps]:
  "wr_bytes buf off bs = Inr buf' \<longleftrightarrow>
     off + length bs \<le> length buf \<and> buf' = take off buf @ bs @ drop (off + length bs) buf"
  by (auto simp: wr_bytes_def)

lemma wr_bytes_length: "wr_bytes buf off bs = Inr buf' \<Longrightarrow> length buf' = length buf"
  by (auto simp: wr_bytes_eq_Inr)

lemma wr_bytes_Ok:
  "off + length bs \<le> length buf \<Longrightarrow>
     wr_bytes buf off bs = Inr (take off buf @ bs @ drop (off + length bs) buf)"
  by (simp add: wr_bytes_def)

lemma wr_bytes_total: "off + length bs \<le> length buf \<Longrightarrow> \<exists>buf'. wr_bytes buf off bs = Inr buf'"
  by (simp add: wr_bytes_def)

lemma wr_bytes_take: "wr_bytes buf off bs = Inr buf' \<Longrightarrow> n \<le> off \<Longrightarrow> take n buf' = take n buf"
  by (auto simp: wr_bytes_eq_Inr min_def)

lemma wr_bytes_drop:
  "wr_bytes buf off bs = Inr buf' \<Longrightarrow> off + length bs \<le> n \<Longrightarrow> drop n buf' = drop n buf"
  by (auto simp: wr_bytes_eq_Inr)

lemma wr_bytes_same: "wr_bytes buf off bs = Inr buf' \<Longrightarrow> take (length bs) (drop off buf') = bs"
  by (auto simp: wr_bytes_eq_Inr)

lemma wr_bytes_nth_same:
  "wr_bytes buf off bs = Inr buf' \<Longrightarrow> i < length bs \<Longrightarrow> buf' ! (off + i) = bs ! i"
  by (auto simp: wr_bytes_eq_Inr nth_append)

lemma wr_bytes_nth_other:
  "wr_bytes buf off bs = Inr buf' \<Longrightarrow> i < off \<or> off + length bs \<le> i \<Longrightarrow> i < length buf \<Longrightarrow>
     buf' ! i = buf ! i"
  by (auto simp: wr_bytes_eq_Inr nth_append)

text \<open>A \<open>memcpy\<close> whose \<open>int\<close> length is converted to \<open>size_t\<close>: a negative length leaves every object.\<close>

definition rdp_int :: "ptr \<Rightarrow> nat \<Rightarrow> int \<Rightarrow> bytes res" where
  "rdp_int p i n = (if n < 0 then Fault OutOfBounds else rdp_bytes p i (nat n))"

text \<open>Reading a C string out of a buffer: the bytes before the first zero byte.\<close>

definition c_string :: "bytes \<Rightarrow> cstr" where
  "c_string buf = takeWhile (\<lambda>b. b \<noteq> 0) buf"

definition rd_string :: "bytes \<Rightarrow> cstr res" where
  "rd_string buf = (if 0 \<in> set buf then Ok (c_string buf) else Fault OutOfBounds)"

lemma c_string_terminated: "0 \<notin> set s \<Longrightarrow> c_string (s @ 0 # t) = s"
  by (auto simp: c_string_def takeWhile_append)

lemma length_c_string_le: "length (c_string s) \<le> length s"
  by (simp add: c_string_def length_takeWhile_le)

lemma length_c_string_full: "length (c_string s) = length s \<longleftrightarrow> 0 \<notin> set s"
  using length_c_string_le by (induction s) (auto simp: c_string_def Suc_le_eq [symmetric])

text \<open>The bytes of a string literal.\<close>

definition cstring :: "string \<Rightarrow> cstr" where
  "cstring s = map of_char s"

section \<open>Network byte order\<close>

text \<open>\<open>htons\<close> takes a \<open>uint16_t\<close>: a wider value is reduced modulo \<open>2 ^ 16\<close> first. The two bytes are
  written out as they lie in memory, so the model does not depend on the host's byte order.\<close>

definition htons_bytes :: "int \<Rightarrow> bytes" where
  "htons_bytes n = (let w = word_of_int n :: u16 in [ucast (drop_bit 8 w), ucast w])"

definition ntohs_bytes :: "u8 \<Rightarrow> u8 \<Rightarrow> int" where
  "ntohs_bytes hi lo = uint hi * 256 + uint lo"

lemma length_htons_bytes [simp]: "length (htons_bytes n) = 2"
  by (simp add: htons_bytes_def Let_def)

lemma uint_u8_bounds: "0 \<le> uint (b :: u8)" "uint (b :: u8) < 256"
  using uint_bounded [of b] by simp_all

lemma ntohs_bytes_bounds: "0 \<le> ntohs_bytes hi lo" "ntohs_bytes hi lo < 65536"
  using uint_u8_bounds [of hi] uint_u8_bounds [of lo] by (simp_all add: ntohs_bytes_def)

lemma htons_bytes_nth:
  "htons_bytes n ! 0 = word_of_int (n div 256)" "htons_bytes n ! Suc 0 = word_of_int n"
proof -
  have hi: "(n mod 65536) div 256 = n div 256 mod 256"
    by (simp add: zmod_zmult2_eq [of 256 n 256, simplified])
  show "htons_bytes n ! 0 = word_of_int (n div 256)"
    by (simp add: htons_bytes_def Let_def word_uint_eq_iff uint_word_of_int unsigned_ucast_eq
        drop_bit_eq_div uint_div_distrib take_bit_eq_mod hi)
  show "htons_bytes n ! Suc 0 = word_of_int n"
    by (simp add: htons_bytes_def Let_def word_uint_eq_iff uint_word_of_int unsigned_ucast_eq
        take_bit_eq_mod mod_mod_cancel)
qed

lemma ntohs_htons:
  "ntohs_bytes (htons_bytes n ! 0) (htons_bytes n ! Suc 0) = n mod 65536"
  using zmod_zmult2_eq [of 256 n 256]
  by (simp add: htons_bytes_nth ntohs_bytes_def uint_word_of_int)

lemma htons_bytes_eq: "htons_bytes n = [word_of_int (n div 256), word_of_int n]"
  using htons_bytes_nth [of n] by (simp add: htons_bytes_def Let_def)

end
