(* ===== verification/Frames.thy ===== *)
theory Frames
  imports Prelude
begin

text \<open>
  The frame templates of \<open>frame_structs.h\<close> and the constants of \<open>eapol.h\<close> and \<open>eap.h\<close>. The C code
  lays \<open>struct eapol_header\<close> over byte 12 of a frame and \<open>struct eap_header\<close> over byte 18; a view
  reads the fields from there (16-bit fields already through \<open>ntohs\<close>), and the writers store one
  field each, in network byte order.
\<close>

section \<open>Offsets and codes\<close>

abbreviation OFFSET_PAST_MAC :: nat where "OFFSET_PAST_MAC \<equiv> 12"
abbreviation OFFSET_TO_EAPOL :: nat where "OFFSET_TO_EAPOL \<equiv> 14"
abbreviation OFFSET_TO_EAP :: nat where "OFFSET_TO_EAP \<equiv> 18"
abbreviation OFFSET_TO_DATA :: nat where "OFFSET_TO_DATA \<equiv> 23"
abbreviation EAPOL_FRAME :: int where "EAPOL_FRAME \<equiv> 0x888e"

text \<open>\<open>sizeof(struct eapol_header)\<close>, and \<open>sizeof(struct eap_header)\<close> with its trailing padding byte.\<close>

abbreviation sizeof_eapol_header :: int where "sizeof_eapol_header \<equiv> 6"
abbreviation sizeof_eap_header :: int where "sizeof_eap_header \<equiv> 6"

abbreviation MAX_EAPOL_VER :: u8 where "MAX_EAPOL_VER \<equiv> 1"
abbreviation EAP_PACKET :: u8 where "EAP_PACKET \<equiv> 0"
abbreviation EAPOL_START :: u8 where "EAPOL_START \<equiv> 1"
abbreviation EAPOL_LOGOFF :: u8 where "EAPOL_LOGOFF \<equiv> 2"
abbreviation EAPOL_KEY :: u8 where "EAPOL_KEY \<equiv> 3"
abbreviation EAPOL_ASF_ALERT :: u8 where "EAPOL_ASF_ALERT \<equiv> 4"

abbreviation EAP_REQUEST :: u8 where "EAP_REQUEST \<equiv> 1"
abbreviation EAP_RESPONSE :: u8 where "EAP_RESPONSE \<equiv> 2"
abbreviation EAP_SUCCESS :: u8 where "EAP_SUCCESS \<equiv> 3"
abbreviation EAP_FAILURE :: u8 where "EAP_FAILURE \<equiv> 4"
abbreviation EAP_TYPE_IDENTITY :: u8 where "EAP_TYPE_IDENTITY \<equiv> 1"
abbreviation EAP_TYPE_NOTIFY :: u8 where "EAP_TYPE_NOTIFY \<equiv> 2"
abbreviation EAP_TYPE_NAK :: u8 where "EAP_TYPE_NAK \<equiv> 3"

section \<open>Header views\<close>

record eapol_header =
  frame_type :: int
  eapol_version :: u8
  eapol_type :: u8
  eapol_length :: int

record eap_header =
  eap_code :: u8
  eap_identifier :: u8
  eap_length :: int
  eap_type :: u8

definition view_eapol_header :: "bytes \<Rightarrow> eapol_header res" where
  "view_eapol_header f =
     (if length f < OFFSET_TO_EAP then Fault OutOfBounds
      else Ok \<lparr>frame_type = ntohs_bytes (f ! 12) (f ! 13), eapol_version = f ! 14,
               eapol_type = f ! 15, eapol_length = ntohs_bytes (f ! 16) (f ! 17)\<rparr>)"

definition view_eap_header :: "bytes \<Rightarrow> eap_header res" where
  "view_eap_header f =
     (if length f < OFFSET_TO_DATA then Fault OutOfBounds
      else Ok \<lparr>eap_code = f ! 18, eap_identifier = f ! 19,
               eap_length = ntohs_bytes (f ! 20) (f ! 21), eap_type = f ! 22\<rparr>)"

lemma view_eapol_header_Ok:
  "18 \<le> length f \<Longrightarrow> view_eapol_header f =
     Inr \<lparr>frame_type = ntohs_bytes (f ! 12) (f ! 13), eapol_version = f ! 14,
          eapol_type = f ! 15, eapol_length = ntohs_bytes (f ! 16) (f ! 17)\<rparr>"
  by (simp add: view_eapol_header_def)

lemma view_eap_header_Ok:
  "23 \<le> length f \<Longrightarrow> view_eap_header f =
     Inr \<lparr>eap_code = f ! 18, eap_identifier = f ! 19,
          eap_length = ntohs_bytes (f ! 20) (f ! 21), eap_type = f ! 22\<rparr>"
  by (simp add: view_eap_header_def)

lemma view_eap_header_length_bounds:
  "view_eap_header f = Inr h \<Longrightarrow> 0 \<le> eap_length h \<and> eap_length h < 65536"
  by (auto simp: view_eap_header_def ntohs_bytes_bounds split: if_splits)

section \<open>Field writers\<close>

definition wr8 :: "bytes \<Rightarrow> nat \<Rightarrow> u8 \<Rightarrow> bytes res" where
  "wr8 f off b = wr_bytes f off [b]"

definition wr_u16 :: "bytes \<Rightarrow> nat \<Rightarrow> int \<Rightarrow> bytes res" where
  "wr_u16 f off n = wr_bytes f off (htons_bytes n)"

text \<open>The three fields every transmitted frame starts with, written before its length.\<close>

definition put_eapol_type :: "bytes \<Rightarrow> u8 \<Rightarrow> bytes res" where
  "put_eapol_type f t =
     bindR (wr_u16 f 12 EAPOL_FRAME) (\<lambda>f.
     bindR (wr8 f 14 MAX_EAPOL_VER) (\<lambda>f.
     wr8 f 15 t))"

definition put_eapol_length :: "bytes \<Rightarrow> int \<Rightarrow> bytes res" where
  "put_eapol_length f n = wr_u16 f 16 n"

lemma wr8_Ok: "off < length f \<Longrightarrow> wr8 f off b = Inr (f[off := b])"
  by (simp add: wr8_def wr_bytes_def upd_conv_take_nth_drop)

lemma wr8_eq_Inr: "wr8 f off b = Inr f' \<longleftrightarrow> off < length f \<and> f' = f[off := b]"
  by (auto simp: wr8_def wr_bytes_def upd_conv_take_nth_drop)

lemma wr_u16_eq:
  "wr_u16 f off n = (if Suc off < length f
     then Inr (f[off := word_of_int (n div 256), Suc off := word_of_int n]) else Inl Overflow)"
proof (cases "Suc off < length f")
  case True
  then have "take off f @ [a, b] @ drop (off + 2) f = f[off := a, Suc off := b]" for a b
    by (intro nth_equalityI)
      (auto simp: nth_append nth_list_update nth_Cons' min_def intro!: arg_cong [where f = "nth f"])
  with True show ?thesis
    by (simp add: wr_u16_def wr_bytes_def htons_bytes_eq)
qed (simp add: wr_u16_def wr_bytes_def)

lemma wr_u16_Ok:
  "Suc off < length f \<Longrightarrow>
     wr_u16 f off n = Inr (f[off := word_of_int (n div 256), Suc off := word_of_int n])"
  by (simp add: wr_u16_eq)

lemma ntohs_word_of_int:
  "ntohs_bytes (word_of_int (n div 256)) (word_of_int n) = n mod 65536"
  using ntohs_htons [of n] by (simp add: htons_bytes_nth)

definition eapol_prefix :: "bytes \<Rightarrow> u8 \<Rightarrow> bytes" where
  "eapol_prefix f t = f[12 := 0x88, 13 := 0x8e, 14 := 1, 15 := t]"

lemma low_byte_of_EAPOL_FRAME: "(0x888e :: u8) = 0x8e"
  by simp

lemma put_eapol_type_Ok: "18 \<le> length f \<Longrightarrow> put_eapol_type f t = Inr (eapol_prefix f t)"
  by (simp add: put_eapol_type_def wr_u16_Ok wr8_Ok eapol_prefix_def
      low_byte_of_EAPOL_FRAME)

lemma length_eapol_prefix [simp]: "length (eapol_prefix f t) = length f"
  by (simp add: eapol_prefix_def)

lemma put_eapol_length_Ok:
  "18 \<le> length f \<Longrightarrow> put_eapol_length f n = Inr (f[16 := word_of_int (n div 256), 17 := word_of_int n])"
  by (simp add: put_eapol_length_def wr_u16_Ok)

text \<open>Writing the header and reading it back.\<close>

lemma view_put_eapol:
  assumes "18 \<le> length f"
  shows "view_eapol_header ((eapol_prefix f t)[16 := word_of_int (n div 256), 17 := word_of_int n]) =
     Inr \<lparr>frame_type = EAPOL_FRAME, eapol_version = MAX_EAPOL_VER, eapol_type = t,
          eapol_length = n mod 65536\<rparr>"
  using assms by (simp add: view_eapol_header_def eapol_prefix_def ntohs_word_of_int)
    (simp add: ntohs_bytes_def)

end
