(* ===== verification/Profile.thy ===== *)
theory Profile
  imports Frames
begin

text \<open>
  The data of \<open>profile.h\<close>, \<open>eap.h\<close>, \<open>config.h\<close> and \<open>xsup_err.h\<close>, and the environment of a run.

  Conventions. A C \<open>int\<close> is an \<open>int\<close>: no operation of the model leaves the 32-bit range (counters
  only go down, or up to a configured bound). Flags stay integers, because the code compares some of
  them with \<open>TRUE\<close> and tests others for being non-zero. A pointer the program may hold as \<open>NULL\<close> is
  an option; a pointer argument that every caller takes from a live object (the interface, the output
  buffer, the addresses of the output sizes) is the object itself, so its guard has no counterpart.
  Linked lists are lists. Diagnostic output is not modelled.
\<close>

section \<open>Constants\<close>

abbreviation TRUE :: int where "TRUE \<equiv> 1"
abbreviation FALSE :: int where "FALSE \<equiv> 0"
abbreviation UNAUTHORIZED :: int where "UNAUTHORIZED \<equiv> 0"
abbreviation AUTHORIZED :: int where "AUTHORIZED \<equiv> 1"

abbreviation LOGOFF :: int where "LOGOFF \<equiv> 0"
abbreviation DISCONNECTED :: int where "DISCONNECTED \<equiv> 1"
abbreviation CONNECTING :: int where "CONNECTING \<equiv> 2"
abbreviation ACQUIRED :: int where "ACQUIRED \<equiv> 3"
abbreviation AUTHENTICATING :: int where "AUTHENTICATING \<equiv> 4"
abbreviation HELD :: int where "HELD \<equiv> 5"
abbreviation AUTHENTICATED :: int where "AUTHENTICATED \<equiv> 6"

abbreviation XPROMPT :: int where "XPROMPT \<equiv> 2"
abbreviation XDATA :: int where "XDATA \<equiv> 1"
abbreviation XNEWESSID :: int where "XNEWESSID \<equiv> 3"
abbreviation XENONE :: int where "XENONE \<equiv> 0"
abbreviation XENOWIRELESS :: int where "XENOWIRELESS \<equiv> - 4"
abbreviation XENOFRAMES :: int where "XENOFRAMES \<equiv> - 5"
abbreviation XEIGNOREDFRAME :: int where "XEIGNOREDFRAME \<equiv> - 6"
abbreviation XGOODKEYFRAME :: int where "XGOODKEYFRAME \<equiv> 6"
abbreviation XEBADKEY :: int where "XEBADKEY \<equiv> - 7"
abbreviation XENOTHING_TO_DO :: int where "XENOTHING_TO_DO \<equiv> - 13"
abbreviation XEMALLOC :: int where "XEMALLOC \<equiv> - 21"
abbreviation XENOUSERDATA :: int where "XENOUSERDATA \<equiv> - 23"
abbreviation XENOKEYSUPPORT :: int where "XENOKEYSUPPORT \<equiv> - 41"
abbreviation XEMD5LEN :: int where "XEMD5LEN \<equiv> - 100"
abbreviation XEMSCHAPV2LEN :: int where "XEMSCHAPV2LEN \<equiv> - 110"
abbreviation XELEAP :: int where "XELEAP \<equiv> - 120"

section \<open>State machine variables\<close>

record dot1x_state =
  authPeriod :: int
  heldPeriod :: int
  startPeriod :: int
  maxStart :: int
  authWhile :: int
  aWhile :: int
  heldWhile :: int
  quietWhile :: int
  reAuthWhen :: int
  startWhen :: int
  txWhen :: int
  initialize :: int
  suppStatus :: int
  tick :: int
  userLogoff :: int
  logoffSent :: int
  reqId :: int
  reqAuth :: int
  eapSuccess :: int
  eapFail :: int
  startCount :: int
  previousId :: int
  receivedId :: int
  rxKey :: int
  curState :: int
  lastState :: int
  portEnabled :: int

section \<open>Configuration and EAP method data\<close>

text \<open>\<open>config_eap_md5\<close>, \<open>config_eap_leap\<close>, \<open>config_eap_mschapv2\<close> and the TTLS inner methods' structs
  all hold a user name and a password.\<close>

record user_pass =
  username :: "cstr option"
  password :: "cstr option"

text \<open>The struct behind the \<open>void *method_data\<close> of a configured method. The contents of the types
  whose methods are not modelled stay opaque.\<close>

datatype method_conf =
    ConfMd5 user_pass
  | ConfMschapv2 user_pass
  | ConfLeap user_pass
  | ConfOtp "cstr option"
  | ConfOther bytes

record mschapv2_vars =
  AuthenticatorChallenge :: "bytes option"
  PeerChallenge :: "bytes option"
  NtResponse :: "bytes option"
  mschap_keyingMaterial :: "bytes option"

record leap_data =
  leap_keyingMaterial :: "bytes option"
  leap_eapsuccess :: int

text \<open>The struct behind the \<open>void *eap_data\<close>: EAP-MD5 and EAP-OTP allocate an \<open>int\<close> they never use.\<close>

datatype method_state =
    IntCell
  | Mschapv2Vars mschapv2_vars
  | LeapData leap_data
  | OtherState bytes

record generic_eap_data =
  eap_conf_data :: "method_conf option"
  eap_data :: "method_state option"
  identity :: "cstr option"
  tempPwd :: "cstr option"
  staleFrame :: "bytes option"
  staleSize :: int
  eapid :: int
  need_password :: int
  eaptype :: "cstr option"
  eapchallenge :: "cstr option"

record config_eap_method =
  method_num :: int
  method_data :: "method_conf option"

datatype net_type = UNSET | WIRED | WIRELESS
datatype wireless_control = CTL_UNSET | CTL_YES | CTL_NO

record config_network =
  net_type :: net_type
  net_identity :: "cstr option"
  wireless_ctrl :: wireless_control
  net_dest_mac :: bytes
  methods :: "config_eap_method list"
  activemethod :: "generic_eap_data option"

section \<open>Interfaces\<close>

text \<open>The file-scope pointers of \<open>eapleap.c\<close>, shared by all interfaces.\<close>

record leap_globals =
  leaprequest :: "bytes option"
  leap_pc :: "bytes option"
  leap_pr :: "bytes option"
  leap_apc :: "bytes option"
  leap_apr :: "bytes option"
  leapchallenges :: bool

text \<open>What a run does to the outside world, newest first.\<close>

datatype io_event =
    SendFrame bytes                         \<comment> \<open>\<open>sendto\<close> on the interface's socket\<close>
  | SetKey int "bytes option"               \<comment> \<open>\<open>SIOCSIWENCODE\<close>: key slot and key bytes\<close>
  | SetTxKey int                            \<comment> \<open>\<open>SIOCSIWENCODE\<close> without a key: transmit slot\<close>
  | ExecCmd "cstr option"                   \<comment> \<open>\<open>cmd_handler_exec\<close>\<close>
  | SendWpaKey bytes                        \<comment> \<open>\<open>sendto\<close> to wpa_supplicant\<close>
  | GuiPrompt "cstr option" "cstr option"   \<comment> \<open>password request to the registered clients\<close>
  | ShowNotify bytes                        \<comment> \<open>display of an EAP notification\<close>

record interface_data =
  intName :: cstr
  sockInt :: int
  isWireless :: int
  eapType :: int
  wasDown :: int
  source_mac :: bytes
  dest_mac :: bytes
  cur_essid :: "cstr option"
  statemachine :: "dot1x_state option"
  userdata :: "config_network option"
  firstauth :: int
  keyingMaterial :: "bytes option"
  tempPassword :: "cstr option"
  leap_glob :: leap_globals
  calls :: nat               \<comment> \<open>ghost: system queries made so far\<close>
  io :: "io_event list"      \<comment> \<open>ghost: effects so far\<close>

section \<open>The environment\<close>

text \<open>
  What the program gets from outside: the answers of the kernel, in the order of the queries
  (\<open>calls\<close> numbers them), the outcome of each \<open>malloc\<close>, the values of the configuration's global
  commands, and the functions of OpenSSL, which are not part of the repository.
\<close>

datatype alloc_site =
    AStatemachine | AActivemethod | AIdentity | AStaleCopy | AStaleStore | AMethodState
  | AHashSource | AAuthChallenge | APeerChallenge | ANtResponse | AKeyingMaterial | AIfKeying
  | AOtpChallenge | AUnicode | AFrameCopy | AHmac | AWholeKey | ANewKey | AIntName
  | ALeapRequest | ALeapChallenges | AAnswer | ALeapGot
  | ACmdCopy

record crypto =
  MD5 :: "bytes \<Rightarrow> bytes"
  MD4 :: "bytes \<Rightarrow> bytes"
  SHA1 :: "bytes \<Rightarrow> bytes"
  HMAC_MD5 :: "bytes \<Rightarrow> bytes \<Rightarrow> bytes"      \<comment> \<open>key, message\<close>
  DES_ecb :: "bytes \<Rightarrow> bytes \<Rightarrow> bytes"       \<comment> \<open>key, block\<close>
  RC4 :: "bytes \<Rightarrow> bytes \<Rightarrow> bytes"           \<comment> \<open>key, data\<close>

text \<open>The documented output sizes of the OpenSSL functions.\<close>

definition crypto_sizes :: "crypto \<Rightarrow> bool" where
  "crypto_sizes c \<longleftrightarrow>
     (\<forall>m. length (MD5 c m) = 16) \<and> (\<forall>m. length (MD4 c m) = 16) \<and>
     (\<forall>m. length (SHA1 c m) = 20) \<and> (\<forall>k m. length (HMAC_MD5 c k m) = 16) \<and>
     (\<forall>k b. length (DES_ecb c k b) = 8) \<and> (\<forall>k d. length (RC4 c k d) = length d)"

record env =
  crypt :: crypto
  if_flags :: "nat \<Rightarrow> int option"      \<comment> \<open>\<open>SIOCGIFFLAGS\<close>\<close>
  enc_flags :: "nat \<Rightarrow> int option"     \<comment> \<open>\<open>SIOCGIWENCODE\<close>\<close>
  proc_wireless :: "nat \<Rightarrow> int"        \<comment> \<open>what \<open>cardif_int_is_wireless\<close> finds\<close>
  set_encode :: "nat \<Rightarrow> bool"          \<comment> \<open>\<open>SIOCSIWENCODE\<close> succeeds\<close>
  open_socket :: "nat \<Rightarrow> bool"
  recv :: "nat \<Rightarrow> bytes"               \<comment> \<open>\<open>recvfrom\<close>, empty when there is nothing\<close>
  malloc_ok :: "alloc_site \<Rightarrow> bool"
  first_auth_cmd :: "cstr option"
  reauth_cmd :: "cstr option"
  wpa_keying :: bool
  rand16 :: bytes                      \<comment> \<open>\<open>RAND_bytes\<close>\<close>
  heap_slack :: nat                    \<comment> \<open>bytes an allocation has beyond the size asked for\<close>
  stack_junk :: bytes                  \<comment> \<open>contents of an uninitialised frame buffer\<close>

text \<open>What the code relies on of the library: OpenSSL's output sizes, and that \<open>RAND_bytes\<close> fills the 16
  bytes it is asked for. An uninitialised frame buffer is an array of 1518 bytes.\<close>

definition env_ok :: "env \<Rightarrow> bool" where
  "env_ok env \<longleftrightarrow>
     crypto_sizes (crypt env) \<and> length (rand16 env) = 16 \<and> length (stack_junk env) = 1518"

text \<open>\<open>malloc\<close> of a size computed as an \<open>int\<close>: a negative size is a huge \<open>size_t\<close>, which fails.\<close>

definition malloc_sz :: "env \<Rightarrow> alloc_site \<Rightarrow> int \<Rightarrow> bool" where
  "malloc_sz env site n \<longleftrightarrow> 0 \<le> n \<and> malloc_ok env site"

definition log_io :: "io_event \<Rightarrow> interface_data \<Rightarrow> interface_data" where
  "log_io e s = s\<lparr>io := e # io s\<rparr>"

definition next_call :: "interface_data \<Rightarrow> interface_data" where
  "next_call s = s\<lparr>calls := Suc (calls s)\<rparr>"

text \<open>An update of the state machine variables; the caller has checked that they exist.\<close>

definition sm_upd :: "(dot1x_state \<Rightarrow> dot1x_state) \<Rightarrow> interface_data \<Rightarrow> interface_data" where
  "sm_upd f s = s\<lparr>statemachine := map_option f (statemachine s)\<rparr>"

text \<open>An update of the active method's data.\<close>

definition upd_active :: "(generic_eap_data \<Rightarrow> generic_eap_data) \<Rightarrow> interface_data \<Rightarrow> interface_data" where
  "upd_active f s =
     s\<lparr>userdata := map_option (\<lambda>u. u\<lparr>activemethod := map_option f (activemethod u)\<rparr>) (userdata s)\<rparr>"

lemma log_io_simps [simp]:
  "statemachine (log_io e s) = statemachine s" "userdata (log_io e s) = userdata s"
  "io (log_io e s) = e # io s" "keyingMaterial (log_io e s) = keyingMaterial s"
  "isWireless (log_io e s) = isWireless s" "eapType (log_io e s) = eapType s"
  "calls (log_io e s) = calls s" "tempPassword (log_io e s) = tempPassword s"
  "intName (log_io e s) = intName s" "dest_mac (log_io e s) = dest_mac s"
  "source_mac (log_io e s) = source_mac s" "firstauth (log_io e s) = firstauth s"
  "wasDown (log_io e s) = wasDown s" "leap_glob (log_io e s) = leap_glob s"
  by (simp_all add: log_io_def)

lemma next_call_simps [simp]:
  "statemachine (next_call s) = statemachine s" "userdata (next_call s) = userdata s"
  "io (next_call s) = io s" "keyingMaterial (next_call s) = keyingMaterial s"
  "isWireless (next_call s) = isWireless s" "eapType (next_call s) = eapType s"
  "calls (next_call s) = Suc (calls s)" "tempPassword (next_call s) = tempPassword s"
  "intName (next_call s) = intName s" "dest_mac (next_call s) = dest_mac s"
  "source_mac (next_call s) = source_mac s" "firstauth (next_call s) = firstauth s"
  "wasDown (next_call s) = wasDown s" "leap_glob (next_call s) = leap_glob s"
  by (simp_all add: next_call_def)

lemma sm_upd_simps [simp]:
  "statemachine (sm_upd f s) = map_option f (statemachine s)" "userdata (sm_upd f s) = userdata s"
  "io (sm_upd f s) = io s" "keyingMaterial (sm_upd f s) = keyingMaterial s"
  "isWireless (sm_upd f s) = isWireless s" "eapType (sm_upd f s) = eapType s"
  "calls (sm_upd f s) = calls s" "tempPassword (sm_upd f s) = tempPassword s"
  "intName (sm_upd f s) = intName s" "dest_mac (sm_upd f s) = dest_mac s"
  "source_mac (sm_upd f s) = source_mac s" "firstauth (sm_upd f s) = firstauth s"
  "wasDown (sm_upd f s) = wasDown s" "leap_glob (sm_upd f s) = leap_glob s"
  by (simp_all add: sm_upd_def)

lemma upd_active_simps [simp]:
  "statemachine (upd_active f s) = statemachine s"
  "io (upd_active f s) = io s" "keyingMaterial (upd_active f s) = keyingMaterial s"
  "isWireless (upd_active f s) = isWireless s" "eapType (upd_active f s) = eapType s"
  "calls (upd_active f s) = calls s" "tempPassword (upd_active f s) = tempPassword s"
  "intName (upd_active f s) = intName s" "dest_mac (upd_active f s) = dest_mac s"
  "source_mac (upd_active f s) = source_mac s" "firstauth (upd_active f s) = firstauth s"
  "leap_glob (upd_active f s) = leap_glob s"
  by (simp_all add: upd_active_def)

end
