(* ===== verification/Samples.thy ===== *)
theory Samples
  imports Profile
begin

text \<open>Concrete values for the witnesses of the development's properties: an environment in which all
  system calls succeed, an interface with one configured network, and short frames.\<close>

definition sample_crypto :: crypto where
  "sample_crypto = \<lparr>MD5 = (\<lambda>m. replicate 16 1), MD4 = (\<lambda>m. replicate 16 2), SHA1 = (\<lambda>m. replicate 20 3),
     HMAC_MD5 = (\<lambda>k m. replicate 16 4), DES_ecb = (\<lambda>k b. replicate 8 5), RC4 = (\<lambda>k d. d)\<rparr>"

definition sample_env :: env where
  "sample_env = \<lparr>crypt = sample_crypto, if_flags = (\<lambda>_. Some 1), enc_flags = (\<lambda>_. None),
     proc_wireless = (\<lambda>_. FALSE), set_encode = (\<lambda>_. True), open_socket = (\<lambda>_. True), recv = (\<lambda>_. []),
     malloc_ok = (\<lambda>_. True), first_auth_cmd = None, reauth_cmd = None, wpa_keying = False,
     rand16 = replicate 16 7, heap_slack = 8, stack_junk = replicate 1518 0\<rparr>"

lemma sample_crypto_sizes: "crypto_sizes sample_crypto"
  by (simp add: crypto_sizes_def sample_crypto_def)

lemma sample_env_ok: "env_ok sample_env"
  by (simp add: env_ok_def sample_env_def sample_crypto_sizes)

lemma sample_env_simps [simp]:
  "crypt sample_env = sample_crypto" "if_flags sample_env n = Some 1" "enc_flags sample_env n = None"
  "proc_wireless sample_env n = FALSE" "set_encode sample_env n" "open_socket sample_env n"
  "recv sample_env n = []" "malloc_ok sample_env a" "first_auth_cmd sample_env = None"
  "reauth_cmd sample_env = None" "\<not> wpa_keying sample_env" "rand16 sample_env = replicate 16 7"
  "heap_slack sample_env = 8" "stack_junk sample_env = replicate 1518 0"
  by (simp_all add: sample_env_def)

definition sample_sm :: dot1x_state where
  "sample_sm = \<lparr>authPeriod = 30, heldPeriod = 60, startPeriod = 30, maxStart = 3, authWhile = 30,
     aWhile = 0, heldWhile = 60, quietWhile = 0, reAuthWhen = 0, startWhen = 0, txWhen = 0,
     initialize = 0, suppStatus = UNAUTHORIZED, tick = 0, userLogoff = 0, logoffSent = 0, reqId = 0,
     reqAuth = 0, eapSuccess = 0, eapFail = 0, startCount = 0, previousId = 5, receivedId = 6,
     rxKey = 0, curState = CONNECTING, lastState = CONNECTING, portEnabled = 1\<rparr>"

definition sample_user :: user_pass where
  "sample_user = \<lparr>username = Some [0x62, 0x6f, 0x62], password = Some [0x70, 0x77]\<rparr>"

definition sample_method :: config_eap_method where
  "sample_method = \<lparr>method_num = 4, method_data = Some (ConfMd5 sample_user)\<rparr>"

definition sample_network :: config_network where
  "sample_network = \<lparr>net_type = WIRELESS, net_identity = Some [0x62, 0x6f, 0x62], wireless_ctrl = CTL_YES,
     net_dest_mac = replicate 6 0, methods = [sample_method],
     activemethod = None\<rparr>"

definition sample_glob :: leap_globals where
  "sample_glob = \<lparr>leaprequest = None, leap_pc = None, leap_pr = None, leap_apc = None, leap_apr = None,
     leapchallenges = False\<rparr>"

definition sample_if :: interface_data where
  "sample_if = \<lparr>intName = [0x65, 0x74, 0x68, 0x30], sockInt = 3, isWireless = 0, eapType = 0, wasDown = 0,
     source_mac = [1, 2, 3, 4, 5, 6], dest_mac = [7, 7, 7, 7, 7, 7], cur_essid = None,
     statemachine = Some sample_sm, userdata = Some sample_network, firstauth = 1,
     keyingMaterial = None, tempPassword = None, leap_glob = sample_glob, calls = 0, io = []\<rparr>"

definition sample_data :: generic_eap_data where
  "sample_data = \<lparr>eap_conf_data = Some (ConfMd5 sample_user), eap_data = Some IntCell,
     identity = Some [0x62, 0x6f, 0x62], tempPwd = None, staleFrame = None, staleSize = 0, eapid = 6,
     need_password = 0, eaptype = None, eapchallenge = None\<rparr>"

lemma sample_simps [simp]:
  "statemachine sample_if = Some sample_sm" "userdata sample_if = Some sample_network"
  "eapType sample_if = 0" "isWireless sample_if = 0" "tempPassword sample_if = None"
  "keyingMaterial sample_if = None" "calls sample_if = 0" "io sample_if = []" "firstauth sample_if = 1"
  "leap_glob sample_if = sample_glob" "source_mac sample_if = [1, 2, 3, 4, 5, 6]"
  "dest_mac sample_if = [7, 7, 7, 7, 7, 7]" "intName sample_if = [0x65, 0x74, 0x68, 0x30]"
  "methods sample_network = [sample_method]" "activemethod sample_network = None"
  "net_identity sample_network = Some [0x62, 0x6f, 0x62]" "net_dest_mac sample_network = replicate 6 0"
  "net_type sample_network = WIRELESS" "wireless_ctrl sample_network = CTL_YES"
  "method_num sample_method = 4" "method_data sample_method = Some (ConfMd5 sample_user)"
  "username sample_user = Some [0x62, 0x6f, 0x62]" "password sample_user = Some [0x70, 0x77]"
  by (simp_all add: sample_if_def sample_network_def sample_method_def sample_user_def)

lemma sample_sm_simps [simp]:
  "receivedId sample_sm = 6" "previousId sample_sm = 5" "curState sample_sm = CONNECTING"
  "initialize sample_sm = 0" "portEnabled sample_sm = 1" "tick sample_sm = 0" "userLogoff sample_sm = 0"
  "logoffSent sample_sm = 0" "eapFail sample_sm = 0" "eapSuccess sample_sm = 0" "reqId sample_sm = 0"
  "reqAuth sample_sm = 0" "startWhen sample_sm = 0" "startCount sample_sm = 0" "maxStart sample_sm = 3"
  "startPeriod sample_sm = 30" "authWhile sample_sm = 30" "authPeriod sample_sm = 30"
  "heldWhile sample_sm = 60" "heldPeriod sample_sm = 60" "suppStatus sample_sm = UNAUTHORIZED" "rxKey sample_sm = 0"
  by (simp_all add: sample_sm_def)

lemma sample_data_simps [simp]:
  "eap_conf_data sample_data = Some (ConfMd5 sample_user)" "eap_data sample_data = Some IntCell"
  "identity sample_data = Some [0x62, 0x6f, 0x62]" "tempPwd sample_data = None"
  "staleFrame sample_data = None" "staleSize sample_data = 0" "eapid sample_data = 6"
  "need_password sample_data = 0" "eaptype sample_data = None" "eapchallenge sample_data = None"
  by (simp_all add: sample_data_def)

text \<open>An EAP packet in an EAPOL frame: code, identifier, length, type, data.\<close>

definition eap_frame :: "u8 \<Rightarrow> u8 \<Rightarrow> u8 \<Rightarrow> u8 \<Rightarrow> bytes \<Rightarrow> bytes" where
  "eap_frame code ident len typ data =
     replicate 12 0 @ [0x88, 0x8e, 1, 0, 0, len, code, ident, 0, len, typ] @ data"

lemma eap_frame_simps [simp]:
  "length (eap_frame c i l t d) = 23 + length d" "drop 23 (eap_frame c i l t d) = d"
  "eap_frame c i l t d ! 18 = c" "eap_frame c i l t d ! 19 = i" "eap_frame c i l t d ! 20 = 0"
  "eap_frame c i l t d ! 21 = l" "eap_frame c i l t d ! 22 = t" "eap_frame c i l t (b # d) ! 23 = b"
  by (simp_all add: eap_frame_def nth_append)

end
