(* ===== verification/Cardif.thy ===== *)
theory Cardif
  imports Profile
begin

text \<open>
  The card interface of \<open>cardif/linux/cardif_linux.c\<close>: link state, frame input and output, and the
  setting of wireless keys. Each system call is a question to the environment, numbered by \<open>calls\<close>,
  and each effect is an entry of the log \<open>io\<close>.
\<close>

section \<open>Link state and frames\<close>

abbreviation IFF_UP :: int where "IFF_UP \<equiv> 1"

definition get_if_state :: "env \<Rightarrow> interface_data \<Rightarrow> interface_data \<times> int" where
  "get_if_state env s =
     (case if_flags env (calls s) of
        None \<Rightarrow> (next_call s, FALSE)
      | Some fl \<Rightarrow>
          if fl AND IFF_UP = IFF_UP then (next_call s, TRUE)
          else ((next_call s)\<lparr>wasDown := TRUE\<rparr>, FALSE))"

text \<open>The frame buffer is the caller's array; the source and destination addresses are stored in it
  first. The result of \<open>sendto\<close> is only logged by the code. A negative size makes \<open>sendto\<close> fail.\<close>

definition nomac :: bytes where "nomac = replicate 6 0"

definition sendframe :: "interface_data \<Rightarrow> bytes \<Rightarrow> int \<Rightarrow> (interface_data \<times> bytes) res" where
  "sendframe s frame sendsize =
     bindR (wr_bytes frame 0 (dest_mac s)) (\<lambda>f.
     bindR (wr_bytes f 6 (source_mac s)) (\<lambda>f.
     bindR (case userdata s of
              None \<Rightarrow> Ok f
            | Some u \<Rightarrow> if net_dest_mac u \<noteq> nomac then wr_bytes f 0 (net_dest_mac u) else Ok f) (\<lambda>f.
     if sendsize < 0 then Ok (s, f)
     else bindR (rd_bytes f 0 (nat sendsize)) (\<lambda>data. Ok (log_io (SendFrame data) s, f)))))"

definition dot1x_default_dest :: bytes where
  "dot1x_default_dest = [0x01, 0x80, 0xc2, 0x00, 0x00, 0x03]"

text \<open>\<open>recvfrom\<close> is asked for up to 1550 bytes, whatever the size of the buffer is. The third component
  of the result is the return value.\<close>

definition getframe :: "env \<Rightarrow> interface_data \<Rightarrow> bytes \<Rightarrow> (interface_data \<times> bytes \<times> int) res" where
  "getframe env s buf =
     (let data = take 1550 (recv env (calls s)); s = next_call s in
      if data = [] then Ok (s, buf, XENOFRAMES)
      else bindR (wr_bytes buf 0 data) (\<lambda>buf.
        if take 6 buf = source_mac s
           \<or> take 6 buf = dot1x_default_dest \<and> take 6 (drop 6 buf) \<noteq> source_mac s
        then Ok (s, buf, int (length data))
        else Ok (s, buf, XENOFRAMES)))"

section \<open>Wireless keys\<close>

abbreviation IW_ENCODE_INDEX :: int where "IW_ENCODE_INDEX \<equiv> 0x00ff"
abbreviation IW_ENCODE_DISABLED :: int where "IW_ENCODE_DISABLED \<equiv> 0x8000"

definition cardif_int_is_wireless :: "env \<Rightarrow> interface_data \<Rightarrow> interface_data \<times> int" where
  "cardif_int_is_wireless env s = (next_call s, proc_wireless env (calls s))"

definition cardif_enc_enabled :: "env \<Rightarrow> interface_data \<Rightarrow> interface_data \<times> int" where
  "cardif_enc_enabled env s =
     (if \<not> open_socket env (calls s) then (next_call s, - 1)
      else case enc_flags env (calls s) of
        None \<Rightarrow> (next_call s, - 1)
      | Some fl \<Rightarrow>
          (next_call s, if fl AND IW_ENCODE_DISABLED = IW_ENCODE_DISABLED then FALSE else TRUE))"

text \<open>The guard of a key on an interface that is believed to be wired, with the short-circuit order of
  its tests. The result is the interface and \<open>None\<close> to go on, or the code to return.\<close>

definition wireless_guard :: "env \<Rightarrow> interface_data \<Rightarrow> (interface_data \<times> int option) res" where
  "wireless_guard env s =
     (if isWireless s = FALSE then
        (let (s, w) = cardif_int_is_wireless env s in
         if w \<noteq> TRUE then Ok (s, Some XENOWIRELESS)
         else bindR (deref (userdata s)) (\<lambda>u.
           if net_type u = WIRED \<or> wireless_ctrl u = CTL_NO then Ok (s, Some XENOWIRELESS)
           else Ok (s\<lparr>isWireless := TRUE\<rparr>, None)))
      else Ok (s, None))"

definition key_slot :: "int \<Rightarrow> int" where
  "key_slot index = ((index AND 0x7f) + 1) AND IW_ENCODE_INDEX"

definition transmit_ioctl :: "env \<Rightarrow> interface_data \<Rightarrow> int \<Rightarrow> interface_data \<times> int" where
  "transmit_ioctl env s index =
     (if set_encode env (calls s)
      then (log_io (SetTxKey (key_slot index)) (next_call s), XENONE)
      else (next_call s, XENOKEYSUPPORT))"

text \<open>The kernel copies \<open>keylen\<close> bytes from the key pointer, so a key shorter than that is read past its
  end. A null pointer passes no key.\<close>

definition set_wireless_key ::
  "env \<Rightarrow> interface_data \<Rightarrow> bytes option \<Rightarrow> int \<Rightarrow> int \<Rightarrow> (interface_data \<times> int) res" where
  "set_wireless_key env s key keylen index =
     bindR (wireless_guard env s) (\<lambda>(s, stop).
     case stop of Some rc \<Rightarrow> Ok (s, rc) | None \<Rightarrow>
     if \<not> open_socket env (calls s) then Ok (next_call s, - 1)
     else bindR (case key of None \<Rightarrow> Ok None
                 | Some k \<Rightarrow> bindR (rd_bytes k 0 (nat keylen)) (\<lambda>kb. Ok (Some kb))) (\<lambda>kb.
     if \<not> set_encode env (calls s) then Ok (next_call s, XENOKEYSUPPORT)
     else (let s = log_io (SetKey (key_slot index) kb) (next_call s) in
       if index AND 0x80 \<noteq> 0 then Ok (transmit_ioctl env s index) else Ok (s, XENONE))))"

definition cardif_reset_keys :: "env \<Rightarrow> interface_data \<Rightarrow> interface_data res" where
  "cardif_reset_keys env s =
     (case userdata s of
        None \<Rightarrow> Ok s
      | Some u \<Rightarrow>
          if wireless_ctrl u = CTL_NO then Ok s
          else (let (s, enc) = cardif_enc_enabled env s in
            if enc \<noteq> TRUE then Ok s
            else bindR (set_wireless_key env s (Some (replicate 13 0)) 13 0x80) (\<lambda>(s, rc). Ok s)))"

section \<open>What these operations leave alone\<close>

text \<open>The card interface touches neither the state machine nor the configuration; it is the frame rule
  of every caller.\<close>

definition same_core :: "interface_data \<Rightarrow> interface_data \<Rightarrow> bool" where
  "same_core s s' \<longleftrightarrow>
     statemachine s' = statemachine s \<and> userdata s' = userdata s \<and> eapType s' = eapType s \<and>
     keyingMaterial s' = keyingMaterial s \<and> tempPassword s' = tempPassword s \<and>
     intName s' = intName s \<and> source_mac s' = source_mac s \<and> dest_mac s' = dest_mac s \<and>
     firstauth s' = firstauth s \<and> leap_glob s' = leap_glob s"

lemma same_core_refl [simp]: "same_core s s"
  by (simp add: same_core_def)

lemma same_core_trans: "same_core s t \<Longrightarrow> same_core t u \<Longrightarrow> same_core s u"
  by (simp add: same_core_def)

lemma same_core_log_io [simp]: "same_core s (log_io e t) = same_core s t"
  by (simp add: same_core_def)

lemma same_core_next_call [simp]: "same_core s (next_call t) = same_core s t"
  by (simp add: same_core_def)

lemma same_core_log_io_left [simp]: "same_core (log_io e s) t = same_core s t"
  by (simp add: same_core_def)

lemma same_core_next_call_left [simp]: "same_core (next_call s) t = same_core s t"
  by (simp add: same_core_def)

lemma same_core_wasDown [simp]: "same_core s (t\<lparr>wasDown := x\<rparr>) = same_core s t"
  by (simp add: same_core_def)

lemma same_core_isWireless [simp]: "same_core s (t\<lparr>isWireless := x\<rparr>) = same_core s t"
  by (simp add: same_core_def)

lemma get_if_state_core: "get_if_state env s = (s', r) \<Longrightarrow> same_core s s' \<and> io s' = io s"
  by (auto simp: get_if_state_def split: option.splits if_splits)

lemma get_if_state_range: "get_if_state env s = (s', r) \<Longrightarrow> r = TRUE \<or> r = FALSE"
  by (auto simp: get_if_state_def split: option.splits if_splits)

lemma get_if_state_isWireless: "get_if_state env s = (s', r) \<Longrightarrow> isWireless s' = isWireless s"
  by (auto simp: get_if_state_def split: option.splits if_splits)

lemma wireless_guard_core: "wireless_guard env s = Inr (s', r) \<Longrightarrow> same_core s s' \<and> io s' = io s"
  by (auto simp: wireless_guard_def cardif_int_is_wireless_def bindR_eq_Inr Let_def split: if_splits)

lemma transmit_ioctl_core: "transmit_ioctl env s i = (s', r) \<Longrightarrow> same_core s s'"
  by (auto simp: transmit_ioctl_def split: if_splits)

lemma set_wireless_key_core:
  assumes "set_wireless_key env s key keylen index = Inr (s', rc)"
  shows "same_core s s'"
proof -
  from assms obtain t stop where g: "wireless_guard env s = Inr (t, stop)"
    and r: "(case stop of Some rc \<Rightarrow> Inr (t, rc) | None \<Rightarrow>
      if \<not> open_socket env (calls t) then Inr (next_call t, - 1)
      else bindR (case key of None \<Rightarrow> Inr None
                 | Some k \<Rightarrow> bindR (rd_bytes k 0 (nat keylen)) (\<lambda>kb. Inr (Some kb))) (\<lambda>kb.
      if \<not> set_encode env (calls t) then Inr (next_call t, XENOKEYSUPPORT)
      else (let s = log_io (SetKey (key_slot index) kb) (next_call t) in
       if index AND 0x80 \<noteq> 0 then Inr (transmit_ioctl env s index) else Inr (s, XENONE)))) = Inr (s', rc)"
    unfolding set_wireless_key_def by (auto elim!: bindR_InrE)
  have "same_core t s'"
    using r by (auto simp: Let_def bindR_eq_Inr split: option.splits if_splits
        dest!: transmit_ioctl_core)
  with wireless_guard_core [OF g] show ?thesis by (blast intro: same_core_trans)
qed

lemma cardif_enc_enabled_core:
  "cardif_enc_enabled env s = (s', r) \<Longrightarrow> same_core s s' \<and> io s' = io s"
  by (auto simp: cardif_enc_enabled_def split: option.splits if_splits)

lemma cardif_reset_keys_core:
  assumes "cardif_reset_keys env s = Inr s'"
  shows "same_core s s'"
proof -
  obtain t enc where e: "cardif_enc_enabled env s = (t, enc)"
    by (cases "cardif_enc_enabled env s")
  from assms consider "s' = s" | "s' = t"
    | rc where "set_wireless_key env t (Some (replicate 13 0)) 13 0x80 = Inr (s', rc)"
    by (fastforce simp: cardif_reset_keys_def e bindR_eq_Inr split: option.splits if_splits)
  then show ?thesis
    using cardif_enc_enabled_core [OF e] set_wireless_key_core same_core_trans
    by cases (simp, simp, blast)
qed

lemma sendframe_core:
  assumes "sendframe s f n = Inr (s', f')"
  shows "same_core s s'"
  using assms unfolding sendframe_def
  by (elim bindR_InrE) (auto split: if_splits elim!: bindR_InrE)

lemma getframe_cases:
  assumes "getframe env s buf = Inr (s', buf', n)"
  shows "s' = next_call s \<and>
    (n = XENOFRAMES \<and> buf' = buf \<or> wr_bytes buf 0 (take 1550 (recv env (calls s))) = Inr buf')"
proof -
  define data where "data = take 1550 (recv env (calls s))"
  from assms show ?thesis
    unfolding getframe_def Let_def data_def [symmetric]
    by (cases "data = []") (auto elim!: bindR_InrE split: if_splits)
qed

lemma getframe_core: "getframe env s buf = Inr (s', buf', n) \<Longrightarrow> same_core s s' \<and> io s' = io s"
  using getframe_cases [of env s buf s' buf' n] by simp

lemma getframe_length: "getframe env s buf = Inr (s', buf', n) \<Longrightarrow> length buf' = length buf"
  using getframe_cases [of env s buf s' buf' n] wr_bytes_length by blast

text \<open>Resetting keys cannot fault: the key it sets is as long as it says, and the only dereference, of
  the configuration, is guarded.\<close>

lemma set_wireless_key_no_fault:
  assumes "userdata s \<noteq> None" and "\<And>k. key = Some k \<Longrightarrow> nat keylen \<le> length k"
  shows "\<exists>r. set_wireless_key env s key keylen index = Inr r"
proof -
  from assms(1) obtain u where u: "userdata s = Some u" by auto
  have "\<exists>t stop. wireless_guard env s = Inr (t, stop)"
    by (simp add: wireless_guard_def cardif_int_is_wireless_def u)
  then obtain t stop where g: "wireless_guard env s = Inr (t, stop)" by blast
  have "\<exists>kb. (case key of None \<Rightarrow> Ok None
                 | Some k \<Rightarrow> bindR (rd_bytes k 0 (nat keylen)) (\<lambda>kb. Ok (Some kb))) = Inr kb"
    using assms(2) by (cases key) (simp_all add: rd_bytes_def)
  then show ?thesis
    by (auto simp: set_wireless_key_def g Let_def split: option.splits)
qed

lemma cardif_reset_keys_no_fault: "\<exists>s'. cardif_reset_keys env s = Inr s'"
proof (cases "userdata s")
  case None
  then show ?thesis by (simp add: cardif_reset_keys_def)
next
  case (Some u)
  obtain t enc where e: "cardif_enc_enabled env s = (t, enc)" by (cases "cardif_enc_enabled env s")
  then have "userdata t = Some u"
    using Some by (auto simp: cardif_enc_enabled_def split: option.splits if_splits)
  then have "\<exists>r. set_wireless_key env t (Some (replicate 13 0)) 13 0x80 = Inr r"
    by (intro set_wireless_key_no_fault) auto
  then show ?thesis
    by (auto simp: cardif_reset_keys_def Some e)
qed

end
