(* ===== verification/Mschapv2.thy ===== *)
theory Mschapv2
  imports Profile
begin

text \<open>
  The MS-CHAPv2 computations of \<open>eap_types/mschapv2/mschapv2.c\<close>, shared by EAP-MS-CHAPv2, LEAP and
  the TTLS inner methods. The hash functions and DES are OpenSSL's and come from a \<open>crypto\<close> record. A
  pointer argument is the memory from that pointer on; reading the fixed number of bytes the code
  reads is a fault if there are fewer.
\<close>

section \<open>Challenge and password hashes\<close>

definition ChallengeHash :: "crypto \<Rightarrow> bytes \<Rightarrow> bytes \<Rightarrow> cstr \<Rightarrow> bytes res" where
  "ChallengeHash c PeerChal AuthChal UserName =
     bindR (rd_bytes PeerChal 0 16) (\<lambda>p.
     bindR (rd_bytes AuthChal 0 16) (\<lambda>a.
     Ok (take 8 (SHA1 c (p @ a @ UserName)))))"

text \<open>The loop of \<open>to_unicode\<close>: it stores into every other byte of a zeroed buffer.\<close>

fun to_unicode_loop :: "cstr \<Rightarrow> nat \<Rightarrow> bytes \<Rightarrow> bytes" where
  "to_unicode_loop [] i ret = ret"
| "to_unicode_loop (b # bs) i ret = to_unicode_loop bs (Suc i) (ret[2 * i := b])"

definition to_unicode :: "cstr \<Rightarrow> bytes" where
  "to_unicode non_uni = to_unicode_loop non_uni 0 (replicate ((length non_uni + 1) * 2) 0)"

definition utf16 :: "cstr \<Rightarrow> bytes" where
  "utf16 s = concat (map (\<lambda>b. [b, 0]) s)"

lemma length_utf16 [simp]: "length (utf16 s) = 2 * length s"
  by (induction s) (simp_all add: utf16_def)

lemma to_unicode_loop_eq:
  "length pre = 2 * i \<Longrightarrow> to_unicode_loop s i (pre @ replicate (2 * length s) 0 @ post) = pre @ utf16 s @ post"
proof (induction s arbitrary: i pre)
  case Nil
  then show ?case by (simp add: utf16_def)
next
  case (Cons b s)
  have "to_unicode_loop (b # s) i (pre @ replicate (2 * length (b # s)) 0 @ post)
      = to_unicode_loop s (Suc i) ((pre @ [b, 0]) @ replicate (2 * length s) 0 @ post)"
    using Cons.prems by (simp add: list_update_append)
  also have "\<dots> = (pre @ [b, 0]) @ utf16 s @ post"
    using Cons.prems by (intro Cons.IH) simp
  finally show ?case by (simp add: utf16_def)
qed

lemma to_unicode_eq: "to_unicode s = utf16 s @ [0, 0]"
  using to_unicode_loop_eq [of "[]" 0 s "[0, 0]"]
  by (simp add: to_unicode_def replicate_add [symmetric] numeral_2_eq_2 replicate_app_Cons_same)

definition NtPasswordHash :: "crypto \<Rightarrow> cstr \<Rightarrow> bytes" where
  "NtPasswordHash c Password = take 16 (MD4 c (take (2 * length Password) (to_unicode Password)))"

definition HashNtPasswordHash :: "crypto \<Rightarrow> bytes \<Rightarrow> bytes res" where
  "HashNtPasswordHash c h = bindR (rd_bytes h 0 16) (\<lambda>h. Ok (MD4 c h))"

lemma NtPasswordHash_eq: "NtPasswordHash c pw = take 16 (MD4 c (utf16 pw))"
  by (simp add: NtPasswordHash_def to_unicode_eq)

lemma length_NtPasswordHash: "crypto_sizes c \<Longrightarrow> length (NtPasswordHash c pw) = 16"
  by (simp add: NtPasswordHash_def crypto_sizes_def)

section \<open>DES with a 56-bit key\<close>

text \<open>The loop that spreads seven key bytes over eight: byte \<open>i\<close> gives its upper bits to \<open>pkey[i]\<close> and
  leaves its lower \<open>i + 1\<close> bits in \<open>next\<close>. The shifts are done on \<open>int\<close> and cut to \<open>uint8_t\<close>.\<close>

fun pkey_loop :: "bytes \<Rightarrow> nat \<Rightarrow> u8 \<Rightarrow> bytes" where
  "pkey_loop [] i nxt = [nxt OR 1]"
| "pkey_loop (tmp # ks) i nxt =
     ((drop_bit i tmp OR nxt) OR 1) # pkey_loop ks (Suc i) (push_bit (7 - i) tmp)"

definition des_encrypt :: "crypto \<Rightarrow> bytes \<Rightarrow> bytes \<Rightarrow> bytes res" where
  "des_encrypt c clear key =
     bindR (rd_bytes key 0 7) (\<lambda>k.
     bindR (rd_bytes clear 0 8) (\<lambda>b.
     Ok (DES_ecb c (pkey_loop k 0 0) b)))"

definition ChallengeResponse :: "crypto \<Rightarrow> bytes \<Rightarrow> bytes \<Rightarrow> bytes res" where
  "ChallengeResponse c Challenge PasswordHash =
     bindR (des_encrypt c Challenge PasswordHash) (\<lambda>r0.
     bindR (des_encrypt c Challenge (drop 7 PasswordHash)) (\<lambda>r1.
     bindR (rd_bytes PasswordHash 14 2) (\<lambda>z.
     bindR (des_encrypt c Challenge (z @ replicate 5 0)) (\<lambda>r2.
     Ok (r0 @ r1 @ r2)))))"

definition NtChallengeResponse :: "crypto \<Rightarrow> bytes \<Rightarrow> cstr \<Rightarrow> bytes res" where
  "NtChallengeResponse c Challenge Password = ChallengeResponse c Challenge (NtPasswordHash c Password)"

definition GenerateNTResponse ::
  "crypto \<Rightarrow> bytes \<Rightarrow> bytes \<Rightarrow> cstr \<Rightarrow> cstr \<Rightarrow> bytes res" where
  "GenerateNTResponse c AuthChal PeerChal UserName Password =
     bindR (ChallengeHash c PeerChal AuthChal UserName) (\<lambda>Challenge.
     ChallengeResponse c Challenge (NtPasswordHash c Password))"

lemma des_encrypt_Ok:
  "7 \<le> length key \<Longrightarrow> 8 \<le> length clear \<Longrightarrow>
     des_encrypt c clear key = Inr (DES_ecb c (pkey_loop (take 7 key) 0 0) (take 8 clear))"
  by (simp add: des_encrypt_def rd_bytes_def)

text \<open>The response to a challenge under a 16-byte hash: DES under three pieces of the hash, the last padded.\<close>

definition challenge_response :: "crypto \<Rightarrow> bytes \<Rightarrow> bytes \<Rightarrow> bytes" where
  "challenge_response c ch h =
     concat (map (\<lambda>k. DES_ecb c (pkey_loop k 0 0) (take 8 ch))
       [take 7 h, take 7 (drop 7 h), drop 14 h @ replicate 5 0])"

lemma ChallengeResponse_Ok:
  assumes "length h = 16" and "8 \<le> length ch"
  shows "ChallengeResponse c ch h = Inr (challenge_response c ch h)"
  using assms by (simp add: ChallengeResponse_def des_encrypt_Ok rd_bytes_def challenge_response_def)

lemma length_challenge_response: "crypto_sizes c \<Longrightarrow> length (challenge_response c ch h) = 24"
  by (simp add: challenge_response_def crypto_sizes_def)

lemma ChallengeHash_Ok:
  "16 \<le> length pc \<Longrightarrow> 16 \<le> length ac \<Longrightarrow>
     ChallengeHash c pc ac u = Inr (take 8 (SHA1 c (take 16 pc @ take 16 ac @ u)))"
  by (simp add: ChallengeHash_def rd_bytes_def)

lemma GenerateNTResponse_Ok:
  assumes "crypto_sizes c" and "16 \<le> length ac" and "16 \<le> length pc"
  shows "\<exists>r. GenerateNTResponse c ac pc u pw = Inr r \<and> length r = 24"
  using assms length_NtPasswordHash [OF assms(1), of pw]
  by (simp add: GenerateNTResponse_def ChallengeHash_Ok ChallengeResponse_Ok crypto_sizes_def challenge_response_def)

section \<open>Hexadecimal strings\<close>

text \<open>\<open>char\<close> is signed: a byte above \<open>0x7f\<close> is negative and in neither range. \<open>toupper\<close> is that of the C
  locale.\<close>

definition toupper :: "u8 \<Rightarrow> u8" where
  "toupper b = (if 0x61 \<le> b \<and> b \<le> 0x7a then b - 0x20 else b)"

definition ctonibble :: "u8 \<Rightarrow> u8" where
  "ctonibble cnib =
     (if 0x30 \<le> cnib \<and> cnib \<le> 0x39 then cnib - 0x30
      else (let testval = toupper cnib in
        if 0x41 \<le> testval \<and> testval \<le> 0x46 then (testval - 0x41) + 10 else 0))"

text \<open>\<open>process_hex\<close> leaves a byte of the output alone where the input holds a zero byte, and does
  nothing for an odd size.\<close>

fun process_hex_loop :: "bytes \<Rightarrow> nat \<Rightarrow> nat \<Rightarrow> bytes \<Rightarrow> bytes res" where
  "process_hex_loop instr i 0 outstr = Ok outstr"
| "process_hex_loop instr i (Suc n) outstr =
     bindR (rd8 instr (i * 2)) (\<lambda>hi.
     if hi \<noteq> 0 then
       bindR (rd8 instr (i * 2 + 1)) (\<lambda>lo.
       bindR (wr_bytes outstr i [push_bit 4 (ctonibble hi) + ctonibble lo]) (\<lambda>outstr.
       process_hex_loop instr (Suc i) n outstr))
     else process_hex_loop instr (Suc i) n outstr)"

definition process_hex :: "bytes \<Rightarrow> nat \<Rightarrow> bytes \<Rightarrow> bytes res" where
  "process_hex instr sz outstr =
     (if sz mod 2 \<noteq> 0 then Ok outstr else process_hex_loop instr 0 (sz div 2) outstr)"

section \<open>Mutual authentication\<close>

definition Magic1 :: bytes where
  "Magic1 = [0x4D, 0x61, 0x67, 0x69, 0x63, 0x20, 0x73, 0x65, 0x72, 0x76,
     0x65, 0x72, 0x20, 0x74, 0x6F, 0x20, 0x63, 0x6C, 0x69, 0x65,
     0x6E, 0x74, 0x20, 0x73, 0x69, 0x67, 0x6E, 0x69, 0x6E, 0x67,
     0x20, 0x63, 0x6F, 0x6E, 0x73, 0x74, 0x61, 0x6E, 0x74]"

definition Magic2 :: bytes where
  "Magic2 = [0x50, 0x61, 0x64, 0x20, 0x74, 0x6F, 0x20, 0x6D, 0x61, 0x6B,
     0x65, 0x20, 0x69, 0x74, 0x20, 0x64, 0x6F, 0x20, 0x6D, 0x6F,
     0x72, 0x65, 0x20, 0x74, 0x68, 0x61, 0x6E, 0x20, 0x6F, 0x6E,
     0x65, 0x20, 0x69, 0x74, 0x65, 0x72, 0x61, 0x74, 0x69, 0x6F, 0x6E]"

definition GenerateAuthenticatorResponse ::
  "crypto \<Rightarrow> cstr \<Rightarrow> bytes \<Rightarrow> bytes \<Rightarrow> bytes \<Rightarrow> cstr \<Rightarrow> bytes res" where
  "GenerateAuthenticatorResponse c Password NTResponse PeerChal AuthChal UserName =
     bindR (HashNtPasswordHash c (NtPasswordHash c Password)) (\<lambda>hh.
     bindR (rd_bytes hh 0 16) (\<lambda>hh.
     bindR (rd_bytes NTResponse 0 24) (\<lambda>nr.
     let Digest = SHA1 c (hh @ nr @ Magic1) in
     bindR (ChallengeHash c PeerChal AuthChal UserName) (\<lambda>Challenge.
     Ok (SHA1 c (Digest @ Challenge @ Magic2))))))"

text \<open>\<open>CheckAuthenticatorResponse\<close> sets \<open>*ResponseOK\<close> only after its guard, so the last argument, what
  that variable held before, is the result when one of the pointers is null. \<open>junk\<close> is what the
  uninitialised \<open>procResp\<close> array holds.\<close>

definition CheckAuthenticatorResponse ::
  "crypto \<Rightarrow> bytes \<Rightarrow> cstr option \<Rightarrow> bytes option \<Rightarrow> bytes option \<Rightarrow> bytes option \<Rightarrow> cstr option \<Rightarrow>
   cstr \<Rightarrow> int option \<Rightarrow> int option res" where
  "CheckAuthenticatorResponse c junk Password NTResponse Peer Auth UserName Received ok =
     (case (Password, NTResponse, Peer, Auth, UserName) of
        (Some pw, Some nr, Some pc, Some ac, Some un) \<Rightarrow>
          bindR (GenerateAuthenticatorResponse c pw nr pc ac un) (\<lambda>MyResponse.
          bindR (process_hex Received (length Received) (take 20 junk)) (\<lambda>procResp.
          bindR (rd_bytes MyResponse 0 20) (\<lambda>a.
          bindR (rd_bytes procResp 0 20) (\<lambda>b.
          Ok (Some (if a = b then 1 else 0))))))
      | _ \<Rightarrow> Ok ok)"

section \<open>Session keys\<close>

definition MagicMaster :: bytes where
  "MagicMaster = [0x54, 0x68, 0x69, 0x73, 0x20, 0x69, 0x73, 0x20, 0x74,
     0x68, 0x65, 0x20, 0x4d, 0x50, 0x50, 0x45, 0x20, 0x4d,
     0x61, 0x73, 0x74, 0x65, 0x72, 0x20, 0x4b, 0x65, 0x79]"

definition GetMasterKey :: "crypto \<Rightarrow> bytes \<Rightarrow> bytes \<Rightarrow> bytes res" where
  "GetMasterKey c PasswordHashHash NTResponse =
     bindR (rd_bytes PasswordHashHash 0 16) (\<lambda>h.
     bindR (rd_bytes NTResponse 0 24) (\<lambda>r.
     Ok (take 16 (SHA1 c (h @ r @ MagicMaster)))))"

definition GetMasterLEAPKey ::
  "crypto \<Rightarrow> bytes \<Rightarrow> bytes \<Rightarrow> bytes \<Rightarrow> bytes \<Rightarrow> bytes \<Rightarrow> bytes res" where
  "GetMasterLEAPKey c PasswordHashHash APC APR PC PR =
     bindR (rd_bytes PasswordHashHash 0 16) (\<lambda>h.
     bindR (rd_bytes APC 0 8) (\<lambda>apc.
     bindR (rd_bytes APR 0 24) (\<lambda>apr.
     bindR (rd_bytes PC 0 8) (\<lambda>pc.
     bindR (rd_bytes PR 0 24) (\<lambda>pr.
     Ok (take 16 (MD5 c (h @ apc @ apr @ pc @ pr))))))))"

definition MagicClientSend :: bytes where
  "MagicClientSend = [0x4f, 0x6e, 0x20, 0x74, 0x68, 0x65, 0x20, 0x63, 0x6c, 0x69,
     0x65, 0x6e, 0x74, 0x20, 0x73, 0x69, 0x64, 0x65, 0x2c, 0x20,
     0x74, 0x68, 0x69, 0x73, 0x20, 0x69, 0x73, 0x20, 0x74, 0x68,
     0x65, 0x20, 0x73, 0x65, 0x6e, 0x64, 0x20, 0x6b, 0x65, 0x79,
     0x3b, 0x20, 0x6f, 0x6e, 0x20, 0x74, 0x68, 0x65, 0x20, 0x73,
     0x65, 0x72, 0x76, 0x65, 0x72, 0x20, 0x73, 0x69, 0x64, 0x65,
     0x2c, 0x20, 0x69, 0x74, 0x20, 0x69, 0x73, 0x20, 0x74, 0x68,
     0x65, 0x20, 0x72, 0x65, 0x63, 0x65, 0x69, 0x76, 0x65, 0x20,
     0x6b, 0x65, 0x79, 0x2e]"

definition MagicClientRecv :: bytes where
  "MagicClientRecv = [0x4f, 0x6e, 0x20, 0x74, 0x68, 0x65, 0x20, 0x63, 0x6c, 0x69,
     0x65, 0x6e, 0x74, 0x20, 0x73, 0x69, 0x64, 0x65, 0x2c, 0x20,
     0x74, 0x68, 0x69, 0x73, 0x20, 0x69, 0x73, 0x20, 0x74, 0x68,
     0x65, 0x20, 0x72, 0x65, 0x63, 0x65, 0x69, 0x76, 0x65, 0x20,
     0x6b, 0x65, 0x79, 0x3b, 0x20, 0x6f, 0x6e, 0x20, 0x74, 0x68,
     0x65, 0x20, 0x73, 0x65, 0x72, 0x76, 0x65, 0x72, 0x20, 0x73,
     0x69, 0x64, 0x65, 0x2c, 0x20, 0x69, 0x74, 0x20, 0x69, 0x73,
     0x20, 0x74, 0x68, 0x65, 0x20, 0x73, 0x65, 0x6e, 0x64, 0x20,
     0x6b, 0x65, 0x79, 0x2e]"

definition SHSpad1 :: bytes where "SHSpad1 = replicate 40 0"
definition SHSpad2 :: bytes where "SHSpad2 = replicate 40 0xf2"

definition GetAsymetricStartKey ::
  "crypto \<Rightarrow> bytes \<Rightarrow> nat \<Rightarrow> int \<Rightarrow> int \<Rightarrow> bytes res" where
  "GetAsymetricStartKey c MasterKey SessionKeyLength IsSend IsServer =
     bindR (rd_bytes MasterKey 0 16) (\<lambda>mk.
     let Magic = (if IsSend \<noteq> 0
                  then (if IsServer \<noteq> 0 then MagicClientRecv else MagicClientSend)
                  else (if IsServer \<noteq> 0 then MagicClientSend else MagicClientRecv)) in
     rd_bytes (SHA1 c (mk @ SHSpad1 @ Magic @ SHSpad2)) 0 SessionKeyLength)"

lemma GetMasterKey_Ok:
  "length h = 16 \<Longrightarrow> length r = 24 \<Longrightarrow>
     GetMasterKey c h r = Inr (take 16 (SHA1 c (h @ r @ MagicMaster)))"
  by (simp add: GetMasterKey_def rd_bytes_def)

lemma GetAsymetricStartKey_Ok:
  "crypto_sizes c \<Longrightarrow> length mk = 16 \<Longrightarrow>
     \<exists>k. GetAsymetricStartKey c mk 16 isend srv = Inr k \<and> length k = 16"
  by (simp add: GetAsymetricStartKey_def rd_bytes_def crypto_sizes_def Let_def)

section \<open>Authenticator responses\<close>

text \<open>The response RFC 2759 prescribes for the server, and its text form: upper-case hexadecimal.\<close>

definition authenticator_response :: "crypto \<Rightarrow> cstr \<Rightarrow> bytes \<Rightarrow> bytes \<Rightarrow> bytes \<Rightarrow> cstr \<Rightarrow> bytes" where
  "authenticator_response c pw nr pc ac un =
     SHA1 c (SHA1 c (MD4 c (NtPasswordHash c pw) @ nr @ Magic1) @ take 8 (SHA1 c (pc @ ac @ un)) @ Magic2)"

definition hex_digit :: "u8 \<Rightarrow> u8" where
  "hex_digit w = (if w < 10 then 0x30 + w else 0x37 + w)"

definition hexify :: "bytes \<Rightarrow> cstr" where
  "hexify bs = concat (map (\<lambda>b. [hex_digit (drop_bit 4 b), hex_digit (take_bit 4 b)]) bs)"

lemma small_word_cases:
  fixes w :: u8
  assumes "w < 16"
  shows "w \<in> {0, 1, 2, 3, 4, 5, 6, 7, 8, 9, 10, 11, 12, 13, 14, 15}"
proof -
  have "unat w < 16" using assms by (simp add: word_less_nat_alt)
  then have "unat w \<in> {0, 1, 2, 3, 4, 5, 6, 7, 8, 9, 10, 11, 12, 13, 14, 15}"
    unfolding insert_iff empty_iff by presburger
  then show ?thesis by (auto simp: word_unat_eq_iff)
qed

lemma ctonibble_hex_digit:
  assumes "w < 16"
  shows "ctonibble (hex_digit w) = w" and "hex_digit w \<noteq> 0"
  using small_word_cases [OF assms] by (auto simp: ctonibble_def hex_digit_def toupper_def Let_def)

lemma nibbles_small: "drop_bit 4 (b :: u8) < 16" "take_bit 4 (b :: u8) < 16"
proof -
  have "uint b < 256" using uint_u8_bounds [of b] by simp
  then show "drop_bit 4 b < 16" by (simp add: word_less_def drop_bit_eq_div uint_div_distrib)
  show "take_bit 4 b < 16" by (simp add: word_less_def take_bit_eq_mod uint_mod_distrib)
qed

lemma hex_byte: "push_bit 4 (ctonibble (hex_digit (drop_bit 4 b))) + ctonibble (hex_digit (take_bit 4 b)) = b"
  by (simp add: ctonibble_hex_digit nibbles_small bits_ident)

lemma hexify_simps [simp]:
  "hexify [] = []"
  "hexify (b # bs) = hex_digit (drop_bit 4 b) # hex_digit (take_bit 4 b) # hexify bs"
  by (simp_all add: hexify_def)

lemma length_hexify [simp]: "length (hexify bs) = 2 * length bs"
  by (induction bs) simp_all

lemma hexify_nonzero: "0 \<notin> set (hexify bs)"
proof (induction bs)
  case (Cons b bs)
  have "hex_digit (drop_bit 4 b) \<noteq> 0" "hex_digit (take_bit 4 b) \<noteq> 0"
    by (rule ctonibble_hex_digit, rule nibbles_small)+
  with Cons show ?case by auto
qed simp

lemma c_string_hexify [simp]: "c_string (hexify bs) = hexify bs"
  using hexify_nonzero [of bs] by (auto simp: c_string_def takeWhile_eq_all_conv)

lemma process_hex_loop_hexify:
  "length pre = i \<Longrightarrow> length ipre = 2 * i \<Longrightarrow> length bs \<le> length old \<Longrightarrow>
     process_hex_loop (ipre @ hexify bs) i (length bs) (pre @ old) = Inr (pre @ bs @ drop (length bs) old)"
proof (induction bs arbitrary: i pre ipre old)
  case (Cons b bs)
  then obtain x old' where old: "old = x # old'" by (cases old) auto
  have nz: "hex_digit (drop_bit 4 b) \<noteq> 0" by (rule ctonibble_hex_digit(2) [OF nibbles_small(1)])
  have "process_hex_loop (ipre @ hexify (b # bs)) i (length (b # bs)) (pre @ old)
      = process_hex_loop ((ipre @ [hex_digit (drop_bit 4 b), hex_digit (take_bit 4 b)]) @ hexify bs) (Suc i)
          (length bs) ((pre @ [b]) @ old')"
    using Cons.prems nz by (simp add: rd8_def nth_append wr_bytes_def old hex_byte mult.commute [of i 2])
  also have "\<dots> = Inr ((pre @ [b]) @ bs @ drop (length bs) old')"
    using Cons.prems by (intro Cons.IH) (simp_all add: old)
  finally show ?case by (simp add: old)
qed simp

lemma process_hex_hexify:
  "length bs \<le> length old \<Longrightarrow> process_hex (hexify bs) (2 * length bs) old = Inr (bs @ drop (length bs) old)"
  using process_hex_loop_hexify [of "[]" 0 "[]" bs old] by (simp add: process_hex_def)

lemma GenerateAuthenticatorResponse_Ok:
  assumes "crypto_sizes c" and "length nr = 24" and "length pc = 16" and "length ac = 16"
  shows "GenerateAuthenticatorResponse c pw nr pc ac un = Inr (authenticator_response c pw nr pc ac un)"
  using assms length_NtPasswordHash [OF assms(1), of pw]
  by (simp add: GenerateAuthenticatorResponse_def HashNtPasswordHash_def rd_bytes_def ChallengeHash_Ok
      crypto_sizes_def authenticator_response_def)

text \<open>The check accepts exactly the hexadecimal form of the response that is due.\<close>

lemma CheckAuthenticatorResponse_hexify:
  assumes "crypto_sizes c" and "length nr = 24" and "length pc = 16" and "length ac = 16"
    and "length d = 20" and "20 \<le> length junk"
  shows "CheckAuthenticatorResponse c junk (Some pw) (Some nr) (Some pc) (Some ac) (Some un) (hexify d) ok =
    Inr (Some (if authenticator_response c pw nr pc ac un = d then 1 else 0))"
  using assms process_hex_hexify [of d "take 20 junk"]
  by (simp add: CheckAuthenticatorResponse_def GenerateAuthenticatorResponse_Ok rd_bytes_def
      authenticator_response_def crypto_sizes_def)

text \<open>C21: \<open>process_hex\<close> reads back what the server wrote: it decodes every upper-case hexadecimal string of even
  length to the bytes it stands for, in place, and leaves the rest of the output buffer alone.\<close>

theorem process_hex_roundtrip:
  assumes "length bs \<le> length old"
  shows "process_hex (hexify bs) (length (hexify bs)) old = Inr (bs @ drop (length bs) old)"
  using process_hex_hexify [OF assms] by simp

theorem process_hex_roundtrip_witness:
  "process_hex (hexify [0xa7, 0x03]) (length (hexify [0xa7, 0x03])) [1, 2, 9] = Inr [0xa7, 0x03, 9]"
  using process_hex_roundtrip [of "[0xa7, 0x03]" "[1, 2, 9]"] by simp

section \<open>The DES key\<close>

text \<open>Bit \<open>n\<close> of a byte string, the most significant bit of the first byte being bit 0.\<close>

definition key_bit :: "bytes \<Rightarrow> nat \<Rightarrow> bool" where
  "key_bit k n = bit (k ! (n div 8)) (7 - n mod 8)"

lemma length_pkey_loop [simp]: "length (pkey_loop ks i nxt) = Suc (length ks)"
  by (induction ks arbitrary: i nxt) simp_all

lemma pkey_loop_nth:
  "j \<le> length ks \<Longrightarrow> pkey_loop ks i nxt ! j =
     ((if j < length ks then drop_bit (i + j) (ks ! j) else 0) OR
      (if j = 0 then nxt else push_bit (8 - (i + j)) (ks ! (j - 1)))) OR 1"
  by (induction ks arbitrary: i nxt j) (auto simp: nth_Cons' Suc_diff_le not_less_eq le_Suc_eq)

text \<open>C20: The loop of \<open>des_encrypt\<close> spreads a 56-bit key over eight bytes: byte \<open>j\<close> holds bits \<open>7j\<close> to \<open>7j+6\<close> of
  the key, most significant first, above a parity bit that is always set. No key bit is lost or moved.\<close>

theorem des_key_bits:
  assumes "length k = 7" and "j < 8" and "i < 7"
  shows "length (pkey_loop k 0 0) = 8 \<and> bit (pkey_loop k 0 0 ! j) 0 \<and>
    bit (pkey_loop k 0 0 ! j) (7 - i) = key_bit k (7 * j + i)"
proof (cases "j \<le> i")
  case True
  then have "(7 * j + i) div 8 = j" "(7 * j + i) mod 8 = i - j"
    using assms(3) div_mult_self3 [of 8 j "i - j"] mod_mult_self3 [of j 8 "i - j"] by (simp_all add: mult.commute)
  moreover have "7 - (i - j) = j + (7 - i)" "\<not> 8 - j \<le> 7 - i"
    using True assms(3) by simp_all
  moreover have "0 < 7 - i" using assms(3) by simp
  ultimately show ?thesis
    using assms True by (simp add: key_bit_def pkey_loop_nth bit_or_iff bit_push_bit_iff bit_drop_bit_eq bit_1_iff
        del: diff_diff_right)
next
  case False
  then obtain r where r: "7 * j + i = 8 * (j - 1) + r" "r < 8" "7 - r = j - 1 - i" "7 - i = 8 - j + (j - 1 - i)"
    using assms(2,3) by (intro that [of "8 - j + i"]) (simp_all add: diff_mult_distrib2)
  then have "(7 * j + i) div 8 = j - 1" "(7 * j + i) mod 8 = r" by simp_all
  then show ?thesis
    using False assms r(3,4)
    by (auto simp: key_bit_def pkey_loop_nth bit_or_iff bit_push_bit_iff bit_drop_bit_eq bit_1_iff dest: bit_imp_le_length)
qed

theorem des_key_bits_witness:
  "bit (pkey_loop [0, 0, 0, 0, 0, 0, 1] 0 0 ! 7) 1 = key_bit [0, 0, 0, 0, 0, 0, 1] (7 * 7 + 6)"
  using des_key_bits [of "[0, 0, 0, 0, 0, 0, 1]" 7 6] by simp

end
