(* ===== verification/EapMethod.thy ===== *)
theory EapMethod
  imports Profile
begin

text \<open>
  The interface between \<open>eap.c\<close> and an EAP method: the function pointers of \<open>struct
  eap_type_handler\<close>, and what the dispatcher relies on. A method gets the request as a pointer into
  the frame just behind the EAP header, and writes its reply into the output frame from offset \<open>ob\<close>
  on, storing the number of bytes in \<open>*outsize\<close>.
\<close>

text \<open>Return code, LEAP globals, method data, output frame and \<open>*outsize\<close>.\<close>

type_synonym eap_result = "int \<times> leap_globals \<times> generic_eap_data \<times> bytes \<times> int"

type_synonym eap_setup = "env \<Rightarrow> generic_eap_data \<Rightarrow> generic_eap_data \<times> int"

type_synonym eap_process =
  "env \<Rightarrow> leap_globals \<Rightarrow> generic_eap_data \<Rightarrow> ptr option \<Rightarrow> int \<Rightarrow> bytes \<Rightarrow> nat \<Rightarrow> int \<Rightarrow> eap_result res"

type_synonym eap_cleanup = "generic_eap_data \<Rightarrow> (generic_eap_data \<times> int) res"

text \<open>A method that does not use the LEAP globals.\<close>

definition no_glob ::
  "(env \<Rightarrow> generic_eap_data \<Rightarrow> ptr option \<Rightarrow> int \<Rightarrow> bytes \<Rightarrow> nat \<Rightarrow> int \<Rightarrow>
     (int \<times> generic_eap_data \<times> bytes \<times> int) res) \<Rightarrow> eap_process" where
  "no_glob p env G g data insize out ob n =
     bindR (p env g data insize out ob n) (\<lambda>(rc, g, out, n). Ok (rc, G, g, out, n))"

lemma no_glob_eq_Inr:
  "no_glob p env G g data insize out ob n = Inr (rc, G', g', out', n') \<longleftrightarrow>
     p env g data insize out ob n = Inr (rc, g', out', n') \<and> G' = G"
  by (auto simp: no_glob_def bindR_eq_Inr)

text \<open>The fields of the method data that belong to the dispatcher.\<close>

definition same_request :: "generic_eap_data \<Rightarrow> generic_eap_data \<Rightarrow> bool" where
  "same_request g g' \<longleftrightarrow>
     identity g' = identity g \<and> eapid g' = eapid g \<and> staleFrame g' = staleFrame g \<and>
     staleSize g' = staleSize g"

lemma same_request_refl [simp]: "same_request g g"
  by (simp add: same_request_def)

lemma same_request_trans: "same_request g g1 \<Longrightarrow> same_request g1 g2 \<Longrightarrow> same_request g g2"
  by (simp add: same_request_def)

text \<open>What the methods do about a missing password. They ask for one by filling in the request to the
  dispatcher, and they take over one the user typed by writing it into the configuration they were
  given; \<open>con\<close> says as which struct.\<close>

definition ask_password :: "string \<Rightarrow> cstr option \<Rightarrow> generic_eap_data \<Rightarrow> generic_eap_data" where
  "ask_password name chal g =
     g\<lparr>need_password := 1, eaptype := Some (cstring name), eapchallenge := chal\<rparr>"

definition adopt_password ::
  "(user_pass \<Rightarrow> method_conf) \<Rightarrow> generic_eap_data \<Rightarrow> user_pass \<Rightarrow> generic_eap_data \<times> user_pass" where
  "adopt_password con g u =
     (if password u = None \<and> tempPwd g \<noteq> None
      then (let u' = u\<lparr>password := tempPwd g\<rparr> in
            (g\<lparr>tempPwd := None, eap_conf_data := Some (con u')\<rparr>, u'))
      else (g, u))"

lemma same_request_ask [simp]: "same_request g (ask_password name chal g)"
  by (simp add: same_request_def ask_password_def)

lemma ask_password_simps [simp]:
  "need_password (ask_password name chal g) = 1"
  "eaptype (ask_password name chal g) = Some (cstring name)"
  "eapchallenge (ask_password name chal g) = chal"
  by (simp_all add: ask_password_def)

lemma adopt_password_keeps:
  assumes "adopt_password con g u = (g', u')"
  shows "same_request g g' \<and> need_password g' = need_password g \<and> eap_data g' = eap_data g \<and>
    username u' = username u \<and> (password u' = None \<longleftrightarrow> password u = None \<and> tempPwd g = None)"
  using assms by (auto simp: adopt_password_def same_request_def Let_def split: if_splits)

locale eap_method =
  fixes do_setup :: eap_setup
    and do_process :: eap_process
  assumes setup_frame:
      "do_setup env g = (g', rc) \<Longrightarrow> g' = g\<lparr>eap_data := eap_data g'\<rparr>"
    and setup_state:
      "do_setup env g = (g', XENONE) \<Longrightarrow> eap_data g' \<noteq> None"
    and process_length:
      "do_process env G g data insize out ob n = Inr (rc, G', g', out', n') \<Longrightarrow> length out' = length out"
    and process_prefix:
      "do_process env G g data insize out ob n = Inr (rc, G', g', out', n') \<Longrightarrow> take ob out' = take ob out"
    and process_keeps:
      "do_process env G g data insize out ob n = Inr (rc, G', g', out', n') \<Longrightarrow> same_request g g'"
    and process_prompt:
      "do_process env G g data insize out ob n = Inr (rc, G', g', out', n') \<Longrightarrow>
         need_password g' = need_password g \<or>
         need_password g' = 1 \<and> out' = out \<and> n' = 0 \<and> eaptype g' \<noteq> None"
    and process_size:
      "env_ok env \<Longrightarrow> do_process env G g data insize out ob n = Inr (rc, G', g', out', n') \<Longrightarrow>
         n' = n \<or> n' \<le> int (length out) - int ob \<or> n' \<le> 0"
begin

lemma process_header:
  assumes "do_process env G g data insize out ob n = Inr (rc, G', g', out', n')" and "i < ob"
  shows "out' ! i = out ! i"
proof -
  have "take ob out' ! i = take ob out ! i"
    using process_prefix [OF assms(1)] by simp
  then show ?thesis using assms(2) by simp
qed

lemma process_reply_inside:
  assumes "env_ok env" and "do_process env G g data insize out ob 0 = Inr (rc, G', g', out', n')"
    and "ob \<le> length out"
  shows "n' \<le> int (length out') - int ob"
  using process_size [OF assms(1,2)] process_length [OF assms(2)] assms(3) by auto

lemma process_asks_or_answers:
  assumes "do_process env G g data insize out ob n = Inr (rc, G', g', out', n')"
    and "need_password g = 0" and "need_password g' = 1"
  shows "out' = out \<and> n' = 0 \<and> eaptype g' \<noteq> None"
  using process_prompt [OF assms(1)] assms(2,3) by simp

lemma setup_keeps: "do_setup env g = (g', rc) \<Longrightarrow> same_request g g' \<and> eap_conf_data g' = eap_conf_data g"
proof -
  assume "do_setup env g = (g', rc)"
  then have "g' = g\<lparr>eap_data := eap_data g'\<rparr>" by (rule setup_frame)
  then obtain x where "g' = g\<lparr>eap_data := x\<rparr>" by blast
  then show ?thesis by (simp add: same_request_def)
qed

end

text \<open>The handler also takes keying material to the interface, and nothing else of the interface.\<close>

type_synonym eap_get_keys = "env \<Rightarrow> interface_data \<Rightarrow> (interface_data \<times> int) res"

locale eap_keyed_method = eap_method +
  fixes get_keys :: eap_get_keys
  assumes get_keys_frame:
      "get_keys env s = Inr (s', rc) \<Longrightarrow> s' = s\<lparr>keyingMaterial := keyingMaterial s'\<rparr>"
begin

lemma get_keys_core:
  assumes "get_keys env s = Inr (s', rc)"
  shows "statemachine s' = statemachine s \<and> userdata s' = userdata s \<and> io s' = io s \<and>
    eapType s' = eapType s \<and> isWireless s' = isWireless s"
proof -
  obtain k where "s' = s\<lparr>keyingMaterial := k\<rparr>" using get_keys_frame [OF assms] by blast
  then show ?thesis by simp
qed

end

text \<open>One entry of the table \<open>eaphandlers[]\<close>.\<close>

record eap_type_handler =
  eap_auth_type :: int
  eap_auth_setup :: eap_setup
  eap_auth_handler :: eap_process
  eap_auth_get_keys :: eap_get_keys
  eap_auth_failed :: "(generic_eap_data \<Rightarrow> (generic_eap_data \<times> int) res) option"
  eap_auth_cleanup :: eap_cleanup

text \<open>An entry keeps the contract.\<close>

definition handler_ok :: "eap_type_handler \<Rightarrow> bool" where
  "handler_ok h \<longleftrightarrow> eap_keyed_method (eap_auth_setup h) (eap_auth_handler h) (eap_auth_get_keys h)"

end
