(* ===== verification/EapMd5.thy ===== *)
theory EapMd5
  imports EapMethod Samples
begin

text \<open>EAP-MD5 (\<open>eap_types/md5/eapmd5.c\<close>).\<close>

section \<open>Operations\<close>

abbreviation MD5_LENGTH :: nat where "MD5_LENGTH \<equiv> 16"
abbreviation sizeof_md5_values :: nat where "sizeof_md5_values \<equiv> 17"

definition eapmd5_setup :: eap_setup where
  "eapmd5_setup env g =
     (if malloc_ok env AMethodState then (g\<lparr>eap_data := Some IntCell\<rparr>, XENONE)
      else (g\<lparr>eap_data := None\<rparr>, XEMALLOC))"

text \<open>\<open>(struct config_eap_md5 *)thisint->eap_conf_data\<close>, dereferenced.\<close>

definition md5_conf :: "generic_eap_data \<Rightarrow> user_pass res" where
  "md5_conf g = bindR (deref (eap_conf_data g)) (\<lambda>c.
     case c of ConfMd5 u \<Rightarrow> Ok u | _ \<Rightarrow> Fault BadCast)"

definition md5_reply :: "bytes \<Rightarrow> nat \<Rightarrow> bytes \<Rightarrow> cstr option \<Rightarrow> (bytes \<times> int) res" where
  "md5_reply out ob md5_result uname =
     bindR (wr8 out ob (of_nat MD5_LENGTH)) (\<lambda>out.
     bindR (wr_bytes out (ob + 1) md5_result) (\<lambda>out.
     bindR (deref uname) (\<lambda>un.
     bindR (wr_bytes out (ob + sizeof_md5_values) un) (\<lambda>out.
     Ok (out, int (sizeof_md5_values + length un))))))"

definition md5_tohash :: "generic_eap_data \<Rightarrow> cstr \<Rightarrow> bytes \<Rightarrow> bytes" where
  "md5_tohash g pw randval = word_of_int (eapid g) # pw @ randval"

text \<open>From the length check of the challenge on.\<close>

definition md5_answer ::
  "env \<Rightarrow> generic_eap_data \<Rightarrow> user_pass \<Rightarrow> cstr option \<Rightarrow> ptr \<Rightarrow> bytes \<Rightarrow> nat \<Rightarrow> int \<Rightarrow>
     (int \<times> generic_eap_data \<times> bytes \<times> int) res" where
  "md5_answer env g u uname p out ob outsize =
     bindR (rdp8 p 0) (\<lambda>len.
     if len \<noteq> of_nat MD5_LENGTH then Ok (XEMD5LEN, g, out, outsize)
     else bindR (deref (password u)) (\<lambda>pw.
     if \<not> malloc_ok env AHashSource then Ok (XEMALLOC, g, out, outsize)
     else bindR (rdp_bytes p 1 MD5_LENGTH) (\<lambda>randval.
     bindR (md5_reply out ob (MD5 (crypt env) (md5_tohash g pw randval)) uname) (\<lambda>(out, n).
     Ok (XENONE, g, out, n)))))"

definition eapmd5_process ::
  "env \<Rightarrow> generic_eap_data \<Rightarrow> ptr option \<Rightarrow> int \<Rightarrow> bytes \<Rightarrow> nat \<Rightarrow> int \<Rightarrow>
     (int \<times> generic_eap_data \<times> bytes \<times> int) res" where
  "eapmd5_process env g dataoffs insize out ob outsize =
     (if eap_data g = None then Ok (XEMALLOC, g, out, outsize)
      else bindR (if tempPwd g = None then bindR (md5_conf g) (\<lambda>u. Ok (password u = None)) else Ok False) (\<lambda>ask.
      if ask then
        Ok (XENONE, ask_password ''EAP-MD5'' None g, out, 0)
      else case dataoffs of None \<Rightarrow> Ok (XENONE, g, out, outsize) | Some p \<Rightarrow>
      bindR (md5_conf g) (\<lambda>u.
      let uname = (if username u = None then identity g else username u) in
      case adopt_password ConfMd5 g u of (g, u) \<Rightarrow> md5_answer env g u uname p out ob outsize)))"

definition eapmd5_get_keys :: "env \<Rightarrow> interface_data \<Rightarrow> (interface_data \<times> int) res" where
  "eapmd5_get_keys env s = Ok (s, - 1)"

definition eapmd5_cleanup :: eap_cleanup where
  "eapmd5_cleanup g = Ok (g\<lparr>eap_data := None\<rparr>, XENONE)"

section \<open>The method contract\<close>

lemma md5_reply_eq_Inr:
  "md5_reply out ob d un = Inr (out', n) \<longleftrightarrow>
     (\<exists>o1 o2 name. wr8 out ob (of_nat MD5_LENGTH) = Inr o1 \<and> wr_bytes o1 (ob + 1) d = Inr o2 \<and>
        un = Some name \<and> wr_bytes o2 (ob + sizeof_md5_values) name = Inr out' \<and>
        n = int (sizeof_md5_values + length name))"
  by (auto simp: md5_reply_def bindR_eq_Inr)

lemma md5_reply_frame:
  assumes "md5_reply out ob d un = Inr (out', n)"
  shows "length out' = length out \<and> take ob out' = take ob out \<and> n \<le> int (length out) - int ob"
proof -
  from assms obtain o1 o2 name where w:
    "wr8 out ob (of_nat MD5_LENGTH) = Inr o1" "wr_bytes o1 (ob + 1) d = Inr o2"
    "wr_bytes o2 (ob + sizeof_md5_values) name = Inr out'" "n = int (sizeof_md5_values + length name)"
    unfolding md5_reply_eq_Inr by blast
  have "take ob o1 = take ob out" "length o1 = length out"
    using w(1) by (auto simp: wr8_def wr_bytes_take wr_bytes_length)
  moreover have "take ob o2 = take ob o1" "length o2 = length o1"
    using w(2) by (simp_all add: wr_bytes_take wr_bytes_length)
  moreover have "take ob out' = take ob o2" "length out' = length o2"
    "ob + sizeof_md5_values + length name \<le> length o2"
    using w(3) wr_bytes_take [OF w(3), of ob] wr_bytes_length [OF w(3)]
    by (auto simp: wr_bytes_eq_Inr)
  ultimately show ?thesis using w(4) by simp
qed

lemma md5_answer_cases:
  assumes "md5_answer env g u un p out ob n = Inr (rc, g', out', n')"
  shows "g' = g \<and> (out' = out \<and> n' = n \<or> (\<exists>d. md5_reply out ob d un = Inr (out', n')))"
  using assms unfolding md5_answer_def
  by (elim bindR_InrE) (auto split: if_splits elim!: bindR_InrE)

text \<open>All ways a call can end.\<close>

lemma eapmd5_process_cases:
  assumes "eapmd5_process env g dataoffs insize out ob n = Inr (rc, g', out', n')"
  obtains (ask) "g' = ask_password ''EAP-MD5'' None g"
      "out' = out" "n' = 0"
    | (quiet) "g' = g" "out' = out" "n' = n"
    | (answer) u u' g1 un p where "adopt_password ConfMd5 g u = (g1, u')"
      "md5_answer env g1 u' un p out ob n = Inr (rc, g', out', n')"
  using assms unfolding eapmd5_process_def Let_def
  by (auto split: if_splits option.splits prod.splits elim!: bindR_InrE)

lemma eapmd5_process_frame:
  assumes "eapmd5_process env g dataoffs insize out ob n = Inr (rc, g', out', n')"
  shows "length out' = length out \<and> take ob out' = take ob out \<and> same_request g g' \<and>
    (need_password g' = need_password g \<or> need_password g' = 1 \<and> out' = out \<and> n' = 0 \<and> eaptype g' \<noteq> None) \<and>
    (n' = n \<or> n' \<le> int (length out) - int ob \<or> n' = 0)"
  using assms
proof (cases rule: eapmd5_process_cases)
  case (answer u u' g1 un p)
  then show ?thesis
    using adopt_password_keeps [OF answer(1)] md5_answer_cases [OF answer(2)]
    by (auto dest!: md5_reply_frame)
qed auto

interpretation md5: eap_method eapmd5_setup "no_glob eapmd5_process"
proof
  show "eapmd5_setup env g = (g', rc) \<Longrightarrow> g' = g\<lparr>eap_data := eap_data g'\<rparr>" for env g g' rc
    by (auto simp: eapmd5_setup_def split: if_splits)
  show "eapmd5_setup env g = (g', XENONE) \<Longrightarrow> eap_data g' \<noteq> None" for env g g'
    by (auto simp: eapmd5_setup_def split: if_splits)
qed (simp_all add: no_glob_eq_Inr, (blast dest: eapmd5_process_frame)+)

interpretation md5_keys: eap_keyed_method eapmd5_setup "no_glob eapmd5_process" eapmd5_get_keys
proof
  show "eapmd5_get_keys env s = Inr (s', rc) \<Longrightarrow> s' = s\<lparr>keyingMaterial := keyingMaterial s'\<rparr>" for env s s' rc
    by (simp add: eapmd5_get_keys_def)
qed

section \<open>What the method computes\<close>

lemma md5_reply_Ok:
  assumes "length d = 16" and "ob + 17 + length un \<le> length out"
  shows "\<exists>out'. md5_reply out ob d (Some un) = Inr (out', 17 + int (length un)) \<and>
    take (17 + length un) (drop ob out') = [16] @ d @ un"
proof -
  define o1 where "o1 = out[ob := 16]"
  define o2 where "o2 = take (ob + 1) o1 @ d @ drop (ob + 17) o1"
  define o3 where "o3 = take (ob + 17) o2 @ un @ drop (ob + 17 + length un) o2"
  have l: "length o1 = length out" "length o2 = length out" using assms by (simp_all add: o1_def o2_def)
  have "wr8 out ob 16 = Inr o1" using assms by (simp add: wr8_Ok o1_def)
  moreover have "wr_bytes o1 (ob + 1) d = Inr o2" using assms l by (simp add: wr_bytes_def o2_def add.commute [of ob 17])
  moreover have "wr_bytes o2 (ob + 17) un = Inr o3" using assms l by (simp add: wr_bytes_def o3_def)
  moreover have "take (17 + length un) (drop ob o3) = drop ob (take (ob + 1) o1) @ d @ un"
    using assms l by (simp add: o3_def o2_def min_def)
  moreover have "drop ob (take (ob + 1) o1) = [16]"
    using assms by (simp add: o1_def drop_take take_Suc_conv_app_nth Cons_nth_drop_Suc [symmetric])
  ultimately show ?thesis by (simp add: md5_reply_def)
qed

text \<open>C27: EAP-MD5 answers a challenge as CHAP does: with the digest of the packet's identifier, the password and the
  challenge, then the user name - using the password the user typed where none is configured, which is
  then kept for later rounds. A challenge of another length is refused and nothing is sent.\<close>

theorem eapmd5_answers_challenge:
  assumes "env_ok env" and "malloc_ok env AHashSource" and "eap_data g \<noteq> None"
    and "eap_conf_data g = Some (ConfMd5 u)" and "username u = Some un"
    and "adopt_password ConfMd5 g u = (g', u')" and "password u' = Some pw"
    and "rdp8 p 0 = Inr len" and "rdp_bytes p 1 16 = Inr chal" and "ob + 17 + length un \<le> length out"
  shows "if len = 16
    then \<exists>out'. eapmd5_process env g (Some p) k out ob n = Inr (XENONE, g', out', 17 + int (length un)) \<and>
      take (17 + length un) (drop ob out') = [16] @ MD5 (crypt env) (word_of_int (eapid g) # pw @ chal) @ un
    else eapmd5_process env g (Some p) k out ob n = Inr (XEMD5LEN, g', out, n)"
proof -
  have d: "length (MD5 (crypt env) m) = 16" for m using assms(1) by (simp add: env_ok_def crypto_sizes_def)
  have "eapid g' = eapid g" "\<not> (password u = None \<and> tempPwd g = None)"
    using adopt_password_keeps [OF assms(6)] assms(7) by (auto simp: same_request_def)
  moreover obtain out' where "md5_reply out ob (MD5 (crypt env) (word_of_int (eapid g) # pw @ chal)) (Some un) =
      Inr (out', 17 + int (length un))"
    "take (17 + length un) (drop ob out') = [16] @ MD5 (crypt env) (word_of_int (eapid g) # pw @ chal) @ un"
    using md5_reply_Ok [OF d assms(10)] by blast
  ultimately show ?thesis
    using assms by (auto simp: eapmd5_process_def md5_conf_def md5_answer_def md5_tohash_def)
qed

theorem eapmd5_answers_challenge_witness:
  "\<exists>out'. eapmd5_process sample_env (sample_data\<lparr>eap_conf_data := Some (ConfMd5 \<lparr>username = Some [0x62], password = None\<rparr>),
        tempPwd := Some [0x70]\<rparr>) (Some (16 # replicate 16 9, 0)) 17 (replicate 60 0) 23 0 =
      Inr (XENONE, sample_data\<lparr>eap_conf_data := Some (ConfMd5 \<lparr>username = Some [0x62], password = Some [0x70]\<rparr>)\<rparr>, out', 18) \<and>
    take 18 (drop 23 out') = [16] @ MD5 sample_crypto (6 # [0x70] @ replicate 16 9) @ [0x62]"
  using eapmd5_answers_challenge [OF sample_env_ok, of "sample_data\<lparr>eap_conf_data := Some (ConfMd5 \<lparr>username = Some [0x62],
      password = None\<rparr>), tempPwd := Some [0x70]\<rparr>" "\<lparr>username = Some [0x62], password = None\<rparr>" "[0x62]"
      "sample_data\<lparr>eap_conf_data := Some (ConfMd5 \<lparr>username = Some [0x62], password = Some [0x70]\<rparr>)\<rparr>"
      "\<lparr>username = Some [0x62], password = Some [0x70]\<rparr>" "[0x70]" "(16 # replicate 16 9, 0)" 16 "replicate 16 9" 23
      "replicate 60 0" 17 0]
  by (simp add: adopt_password_def Let_def rdp8_def rd8_def rdp_bytes_def rd_bytes_def sample_data_def)

end
