(* ===== verification/EapOtp.thy ===== *)
theory EapOtp
  imports EapMethod Samples
begin

text \<open>
  EAP-OTP and EAP-GTC (\<open>eap_types/otp/eapotp.c\<close>): show the challenge to the user and, once a password
  has been typed, answer. The answer is read from the local array \<open>resp\<close>, which nothing fills.
\<close>

section \<open>Operations\<close>

definition eapotp_setup :: eap_setup where
  "eapotp_setup env g =
     (if malloc_ok env AMethodState then (g\<lparr>eap_data := Some IntCell\<rparr>, XENONE)
      else (g\<lparr>eap_data := None\<rparr>, XEMALLOC))"

definition otp_prompt ::
  "env \<Rightarrow> generic_eap_data \<Rightarrow> ptr \<Rightarrow> int \<Rightarrow> bytes \<Rightarrow> (int \<times> generic_eap_data \<times> bytes \<times> int) res" where
  "otp_prompt env g p insize out =
     (if \<not> malloc_sz env AOtpChallenge (insize + 1) then Ok (0, g, out, 0)
      else bindR (rdp_int p 0 insize) (\<lambda>chal.
        Ok (XENONE, ask_password ''EAP-OTP/GTC'' (Some (c_string chal)) g, out, 0)))"

definition eapotp_process ::
  "env \<Rightarrow> generic_eap_data \<Rightarrow> ptr option \<Rightarrow> int \<Rightarrow> bytes \<Rightarrow> nat \<Rightarrow> int \<Rightarrow>
     (int \<times> generic_eap_data \<times> bytes \<times> int) res" where
  "eapotp_process env g dataoffs insize out ob outsize =
     (case dataoffs of None \<Rightarrow> Ok (XEMALLOC, g, out, outsize) | Some p \<Rightarrow>
      if eap_conf_data g = None then Ok (XENOUSERDATA, g, out, 0)
      else if tempPwd g = None then otp_prompt env g p insize out
      else bindR (rd_string (take 512 (stack_junk env))) (\<lambda>resp.
           bindR (wr_bytes out ob (resp @ [0])) (\<lambda>out.
           Ok (int (length resp), g, out, int (length resp)))))"

definition eapotp_get_keys :: "env \<Rightarrow> interface_data \<Rightarrow> (interface_data \<times> int) res" where
  "eapotp_get_keys env s = Ok (s, - 1)"

definition eapotp_cleanup :: eap_cleanup where
  "eapotp_cleanup g = Ok (g, XENONE)"

section \<open>The method contract\<close>

lemma eapotp_process_cases:
  assumes "eapotp_process env g dataoffs insize out ob n = Inr (rc, g', out', n')"
  obtains (quiet) "g' = g" "out' = out" "n' = n \<or> n' = 0"
    | (ask) chal where "g' = ask_password ''EAP-OTP/GTC'' chal g" "out' = out" "n' = 0"
    | (reply) resp where "g' = g" "wr_bytes out ob (resp @ [0]) = Inr out'" "n' = int (length resp)"
  using assms unfolding eapotp_process_def otp_prompt_def
  by (auto split: if_splits option.splits elim!: bindR_InrE)

lemma eapotp_process_frame:
  assumes "eapotp_process env g dataoffs insize out ob n = Inr (rc, g', out', n')"
  shows "length out' = length out \<and> take ob out' = take ob out \<and> same_request g g' \<and>
    (need_password g' = need_password g \<or> need_password g' = 1 \<and> out' = out \<and> n' = 0 \<and> eaptype g' \<noteq> None) \<and>
    (n' = n \<or> n' \<le> int (length out) - int ob \<or> n' \<le> 0)"
  using assms
proof (cases rule: eapotp_process_cases)
  case (reply resp)
  then show ?thesis
    using wr_bytes_take [OF reply(2), of ob] wr_bytes_length [OF reply(2)]
    by (auto simp: wr_bytes_eq_Inr)
qed auto

interpretation otp: eap_method eapotp_setup "no_glob eapotp_process"
proof
  show "eapotp_setup env g = (g', rc) \<Longrightarrow> g' = g\<lparr>eap_data := eap_data g'\<rparr>" for env g g' rc
    by (auto simp: eapotp_setup_def split: if_splits)
  show "eapotp_setup env g = (g', XENONE) \<Longrightarrow> eap_data g' \<noteq> None" for env g g'
    by (auto simp: eapotp_setup_def split: if_splits)
qed (simp_all add: no_glob_eq_Inr, (blast dest: eapotp_process_frame)+)

interpretation otp_keys: eap_keyed_method eapotp_setup "no_glob eapotp_process" eapotp_get_keys
proof
  show "eapotp_get_keys env s = Inr (s', rc) \<Longrightarrow> s' = s\<lparr>keyingMaterial := keyingMaterial s'\<rparr>" for env s s' rc
    by (simp add: eapotp_get_keys_def)
qed

section \<open>The answer\<close>

text \<open>C37: The password never reaches the server: whatever the user types, the method answers with the bytes the
  uninitialised array \<open>resp\<close> happens to hold, up to its first zero byte. Two different passwords give the
  same frame, and the length sent is that of the junk.\<close>

theorem eapotp_ignores_password:
  assumes "eap_conf_data g \<noteq> None" and "0 \<in> set (take 512 (stack_junk env))"
    and "ob + 512 \<le> length out"
  shows "\<exists>out' n'. \<forall>pw. eapotp_process env (g\<lparr>tempPwd := Some pw\<rparr>) (Some p) k out ob n =
      Inr (n', g\<lparr>tempPwd := Some pw\<rparr>, out', n') \<and>
    take (nat n') (drop ob out') = c_string (take 512 (stack_junk env))"
proof -
  let ?r = "c_string (take 512 (stack_junk env))"
  have "length ?r \<le> length (take 512 (stack_junk env))" "length ?r \<noteq> length (take 512 (stack_junk env))"
    using length_c_string_le assms(2) length_c_string_full by blast+
  moreover have "length (take 512 (stack_junk env)) \<le> 512" by simp
  ultimately have "length (?r @ [0]) \<le> 512" by (simp only: length_append list.size)
  then obtain out' where out': "wr_bytes out ob (?r @ [0]) = Inr out'"
    using assms(3) wr_bytes_total [of ob "?r @ [0]" out] by fastforce
  have "take (length ?r) (drop ob out') = take (length ?r) (take (length (?r @ [0])) (drop ob out'))" by simp
  also have "\<dots> = ?r" unfolding wr_bytes_same [OF out'] by simp
  finally show ?thesis
    using assms out' by (intro exI [of _ out'] exI [of _ "int (length ?r)"])
      (auto simp: eapotp_process_def rd_string_def)
qed

theorem eapotp_ignores_password_witness:
  "\<exists>out' n'. eapotp_process sample_env (sample_data\<lparr>tempPwd := Some [1]\<rparr>) (Some ([9], 0)) 1 (replicate 600 7) 23 0 =
      Inr (n', sample_data\<lparr>tempPwd := Some [1]\<rparr>, out', n') \<and>
    eapotp_process sample_env (sample_data\<lparr>tempPwd := Some [2]\<rparr>) (Some ([9], 0)) 1 (replicate 600 7) 23 0 =
      Inr (n', sample_data\<lparr>tempPwd := Some [2]\<rparr>, out', n')"
  using eapotp_ignores_password [of sample_data sample_env 23 "replicate 600 7" "([9], 0)" 1 0] by auto

end
