(* ===== verification/EapMschapv2.thy ===== *)
theory EapMschapv2
  imports EapMethod Mschapv2 Samples
begin

text \<open>
  EAP-MS-CHAPv2 (\<open>eap_types/mschapv2/eapmschapv2.c\<close>): the state kept between the packets, the answers
  to a challenge and to the server's success message, and the session keys.
\<close>

section \<open>Operations\<close>

abbreviation MS_CHAPV2_CHALLENGE :: u8 where "MS_CHAPV2_CHALLENGE \<equiv> 1"
abbreviation MS_CHAPV2_RESPONSE :: u8 where "MS_CHAPV2_RESPONSE \<equiv> 2"
abbreviation MS_CHAPV2_SUCCESS :: u8 where "MS_CHAPV2_SUCCESS \<equiv> 3"
abbreviation MS_CHAPV2_FAILURE :: u8 where "MS_CHAPV2_FAILURE \<equiv> 4"

definition empty_vars :: mschapv2_vars where
  "empty_vars = \<lparr>AuthenticatorChallenge = None, PeerChallenge = None, NtResponse = None,
     mschap_keyingMaterial = None\<rparr>"

definition eapmschapv2_setup :: eap_setup where
  "eapmschapv2_setup env g =
     (if malloc_ok env AMethodState then (g\<lparr>eap_data := Some (Mschapv2Vars empty_vars)\<rparr>, XENONE)
      else (g\<lparr>eap_data := None\<rparr>, XEMALLOC))"

definition mschapv2_conf :: "generic_eap_data \<Rightarrow> user_pass res" where
  "mschapv2_conf g = bindR (deref (eap_conf_data g)) (\<lambda>c.
     case c of ConfMschapv2 u \<Rightarrow> Ok u | _ \<Rightarrow> Fault BadCast)"

definition mschapv2_state :: "generic_eap_data \<Rightarrow> mschapv2_vars res" where
  "mschapv2_state g = bindR (deref (eap_data g)) (\<lambda>d.
     case d of Mschapv2Vars v \<Rightarrow> Ok v | _ \<Rightarrow> Fault BadCast)"

definition put_vars :: "generic_eap_data \<Rightarrow> mschapv2_vars \<Rightarrow> generic_eap_data" where
  "put_vars g v = g\<lparr>eap_data := Some (Mschapv2Vars v)\<rparr>"

text \<open>The fixed part of a response packet, 54 bytes, and the user name after it.\<close>

definition mschapv2_response_packet :: "u8 \<Rightarrow> bytes \<Rightarrow> bytes \<Rightarrow> cstr \<Rightarrow> bytes" where
  "mschapv2_response_packet msid peer nt un =
     [MS_CHAPV2_RESPONSE, msid] @ htons_bytes (54 + int (length un)) @ [49] @ peer
       @ replicate 8 0 @ nt @ [0] @ un"

text \<open>The case of a challenge, with the state left behind by each failing \<open>malloc\<close>.\<close>

definition eapmschapv2_challenge ::
  "env \<Rightarrow> generic_eap_data \<Rightarrow> mschapv2_vars \<Rightarrow> cstr option \<Rightarrow> cstr option \<Rightarrow> ptr \<Rightarrow> bytes \<Rightarrow> nat \<Rightarrow> int \<Rightarrow>
     (int \<times> generic_eap_data \<times> bytes \<times> int) res" where
  "eapmschapv2_challenge env g v uname pw p out ob outsize =
     bindR (rdp8 p 4) (\<lambda>value_size.
     if value_size \<noteq> 0x10 then Ok (XEMSCHAPV2LEN, g, out, outsize)
     else if \<not> malloc_ok env AAuthChallenge then
       Ok (XEMALLOC, put_vars g (v\<lparr>AuthenticatorChallenge := None\<rparr>), out, outsize)
     else bindR (rdp_bytes p 5 16) (\<lambda>ac.
     let v = v\<lparr>AuthenticatorChallenge := Some ac\<rparr> in
     if \<not> malloc_ok env APeerChallenge then
       Ok (XEMALLOC, put_vars g (v\<lparr>PeerChallenge := None\<rparr>), out, outsize)
     else let pc = rand16 env; v = v\<lparr>PeerChallenge := Some pc\<rparr> in
     if \<not> malloc_ok env ANtResponse then
       Ok (XEMALLOC, put_vars g (v\<lparr>NtResponse := None\<rparr>), out, outsize)
     else bindR (deref uname) (\<lambda>un.
     bindR (deref pw) (\<lambda>pw.
     bindR (GenerateNTResponse (crypt env) ac pc un pw) (\<lambda>nr.
     bindR (rdp8 p 1) (\<lambda>msid.
     bindR (wr_bytes out ob (mschapv2_response_packet msid pc nr un)) (\<lambda>out.
     Ok (XENONE, put_vars g (v\<lparr>NtResponse := Some nr\<rparr>), out, 54 + int (length un)))))))))"

text \<open>The 64 bytes of keying material: send key, then receive key, each padded to 32 bytes.\<close>

definition mschapv2_keying :: "crypto \<Rightarrow> cstr \<Rightarrow> bytes \<Rightarrow> bytes res" where
  "mschapv2_keying c pw nr =
     bindR (HashNtPasswordHash c (NtPasswordHash c pw)) (\<lambda>hh.
     bindR (GetMasterKey c hh nr) (\<lambda>mk.
     bindR (GetAsymetricStartKey c mk 16 TRUE FALSE) (\<lambda>send.
     bindR (GetAsymetricStartKey c mk 16 FALSE FALSE) (\<lambda>recv.
     Ok (send @ replicate 16 0 @ recv @ replicate 16 0)))))"

text \<open>The case of the server's success message: \<open>S=\<close> and 40 hexadecimal digits at offset 4.\<close>

definition eapmschapv2_success ::
  "env \<Rightarrow> generic_eap_data \<Rightarrow> mschapv2_vars \<Rightarrow> cstr option \<Rightarrow> cstr option \<Rightarrow> ptr \<Rightarrow> bytes \<Rightarrow> nat \<Rightarrow> int \<Rightarrow>
     (int \<times> generic_eap_data \<times> bytes \<times> int) res" where
  "eapmschapv2_success env g v uname pw p out ob outsize =
     bindR (rdp_bytes p 6 40) (\<lambda>recv.
     bindR (CheckAuthenticatorResponse (crypt env) (stack_junk env) pw (NtResponse v)
              (PeerChallenge v) (AuthenticatorChallenge v) uname (c_string recv) None) (\<lambda>resp.
     bindR (init_val resp) (\<lambda>respOk.
     if respOk = 1 then
       bindR (wr8 out ob MS_CHAPV2_SUCCESS) (\<lambda>out.
       bindR (deref pw) (\<lambda>pw.
       bindR (deref (NtResponse v)) (\<lambda>nr.
       bindR (mschapv2_keying (crypt env) pw nr) (\<lambda>km.
       if \<not> malloc_ok env AKeyingMaterial then
         Ok (XEMALLOC, put_vars g (v\<lparr>mschap_keyingMaterial := None\<rparr>), out, outsize)
       else Ok (XENONE, put_vars g (v\<lparr>mschap_keyingMaterial := Some km\<rparr>), out, 1)))))
     else bindR (wr8 out ob MS_CHAPV2_FAILURE) (\<lambda>out. Ok (XENONE, g, out, 1)))))"

definition eapmschapv2_process ::
  "env \<Rightarrow> generic_eap_data \<Rightarrow> ptr option \<Rightarrow> int \<Rightarrow> bytes \<Rightarrow> nat \<Rightarrow> int \<Rightarrow>
     (int \<times> generic_eap_data \<times> bytes \<times> int) res" where
  "eapmschapv2_process env g dataoffs insize out ob outsize =
     (if eap_conf_data g = None \<or> eap_data g = None then Ok (XEMALLOC, g, out, outsize)
      else bindR (mschapv2_conf g) (\<lambda>u.
      bindR (mschapv2_state g) (\<lambda>v.
      if tempPwd g = None \<and> password u = None then
        Ok (XENONE, ask_password ''EAP-MS-CHAPv2'' None g, out, 0)
      else case dataoffs of None \<Rightarrow> Ok (XENONE, g, out, outsize) | Some p \<Rightarrow>
      let uname = (if username u = None then identity g else username u) in
      case adopt_password ConfMschapv2 g u of (g, u) \<Rightarrow>
      bindR (rdp8 p 0) (\<lambda>opcode.
      if opcode = MS_CHAPV2_CHALLENGE then eapmschapv2_challenge env g v uname (password u) p out ob outsize
      else if opcode = MS_CHAPV2_RESPONSE then Ok (XENONE, g, out, 0)
      else if opcode = MS_CHAPV2_SUCCESS then eapmschapv2_success env g v uname (password u) p out ob outsize
      else if opcode = MS_CHAPV2_FAILURE then Ok (XENONE, g, out, 0)
      else Ok (XENONE, g, out, outsize)))))"

text \<open>Freed before the new buffer is allocated; copying 64 bytes from a null pointer is a fault.\<close>

definition eapmschapv2_get_keys :: "env \<Rightarrow> interface_data \<Rightarrow> (interface_data \<times> int) res" where
  "eapmschapv2_get_keys env s =
     (case Option.bind (userdata s) activemethod of None \<Rightarrow> Ok (s, XEMALLOC) | Some g \<Rightarrow>
      if eap_data g = None then Ok (s, XEMALLOC)
      else bindR (mschapv2_state g) (\<lambda>v.
      if \<not> malloc_ok env AIfKeying then Ok (s\<lparr>keyingMaterial := None\<rparr>, - 1)
      else bindR (deref (mschap_keyingMaterial v)) (\<lambda>km.
      bindR (rd_bytes km 0 64) (\<lambda>km.
      Ok (s\<lparr>keyingMaterial := Some km\<rparr>, XENONE)))))"

definition eapmschapv2_cleanup :: eap_cleanup where
  "eapmschapv2_cleanup g =
     (if eap_data g = None then Ok (g, XENONE)
      else bindR (mschapv2_state g) (\<lambda>v. Ok (g\<lparr>eap_data := None\<rparr>, XENONE)))"

section \<open>The method contract\<close>

lemma put_vars_simps [simp]:
  "same_request g (put_vars g' v) = same_request g g'" "need_password (put_vars g v) = need_password g"
  "eap_data (put_vars g v) = Some (Mschapv2Vars v)"
  by (simp_all add: put_vars_def same_request_def)

lemma length_response_packet [simp]:
  "length (mschapv2_response_packet msid peer nt un) = 14 + length peer + length nt + length un"
  by (simp add: mschapv2_response_packet_def)

lemma ChallengeResponse_length:
  "crypto_sizes c \<Longrightarrow> ChallengeResponse c ch h = Inr r \<Longrightarrow> length r = 24"
  by (auto simp: ChallengeResponse_def des_encrypt_def bindR_eq_Inr crypto_sizes_def)

lemma GenerateNTResponse_length:
  "crypto_sizes c \<Longrightarrow> GenerateNTResponse c ac pc un pw = Inr r \<Longrightarrow> length r = 24"
  by (auto simp: GenerateNTResponse_def bindR_eq_Inr dest: ChallengeResponse_length)

text \<open>What a challenge or a success message does to the method data and the output.\<close>

lemma eapmschapv2_challenge_cases:
  assumes "eapmschapv2_challenge env g v uname pw p out ob n = Inr (rc, g', out', n')"
  obtains (stop) "same_request g g'" "need_password g' = need_password g" "out' = out" "n' = n"
    | (reply) ac un pass nr msid where "same_request g g'" "need_password g' = need_password g"
      "GenerateNTResponse (crypt env) ac (rand16 env) un pass = Inr nr"
      "wr_bytes out ob (mschapv2_response_packet msid (rand16 env) nr un) = Inr out'"
      "n' = 54 + int (length un)"
  using assms unfolding eapmschapv2_challenge_def Let_def
  by (elim bindR_InrE) (auto split: if_splits elim!: bindR_InrE)

lemma eapmschapv2_success_cases:
  assumes "eapmschapv2_success env g v uname pw p out ob n = Inr (rc, g', out', n')"
  obtains b where "same_request g g'" "need_password g' = need_password g" "wr8 out ob b = Inr out'" "n' = n \<or> n' = 1"
  using assms unfolding eapmschapv2_success_def
  by (elim bindR_InrE) (auto split: if_splits elim!: bindR_InrE)

lemma eapmschapv2_process_cases:
  assumes "eapmschapv2_process env g dataoffs insize out ob n = Inr (rc, g', out', n')"
  obtains (ask) "g' = ask_password ''EAP-MS-CHAPv2'' None g" "out' = out" "n' = 0"
    | (quiet) "g' = g" "out' = out" "n' = n \<or> n' = 0"
    | (adopt) u u' where "adopt_password ConfMschapv2 g u = (g', u')" "out' = out" "n' = n \<or> n' = 0"
    | (challenge) u u' g1 v un p where "adopt_password ConfMschapv2 g u = (g1, u')"
      "eapmschapv2_challenge env g1 v un (password u') p out ob n = Inr (rc, g', out', n')"
    | (success) u u' g1 v un p where "adopt_password ConfMschapv2 g u = (g1, u')"
      "eapmschapv2_success env g1 v un (password u') p out ob n = Inr (rc, g', out', n')"
  using assms unfolding eapmschapv2_process_def Let_def
  by (auto split: if_splits option.splits prod.splits elim!: bindR_InrE)

lemma eapmschapv2_process_frame:
  assumes "eapmschapv2_process env g dataoffs insize out ob n = Inr (rc, g', out', n')"
  shows "length out' = length out \<and> take ob out' = take ob out \<and> same_request g g' \<and>
    (need_password g' = need_password g \<or> need_password g' = 1 \<and> out' = out \<and> n' = 0 \<and> eaptype g' \<noteq> None)"
  using assms
proof (cases rule: eapmschapv2_process_cases)
  case (adopt u u')
  then show ?thesis using adopt_password_keeps [OF adopt(1)] by auto
next
  case (challenge u u' g1 v un p)
  from challenge(2) show ?thesis
  proof (cases rule: eapmschapv2_challenge_cases)
    case stop
    then show ?thesis using adopt_password_keeps [OF challenge(1)] same_request_trans by auto
  next
    case reply
    then show ?thesis
      using adopt_password_keeps [OF challenge(1)] wr_bytes_length [OF reply(4)] wr_bytes_take [OF reply(4), of ob]
        same_request_trans by auto
  qed
next
  case (success u u' g1 v un p)
  from success(2) show ?thesis
    using adopt_password_keeps [OF success(1)]
    by (cases rule: eapmschapv2_success_cases) (auto simp: wr8_eq_Inr intro: same_request_trans)
qed auto

lemma eapmschapv2_process_size:
  assumes "env_ok env" and "eapmschapv2_process env g dataoffs insize out ob n = Inr (rc, g', out', n')"
  shows "n' = n \<or> n' \<le> int (length out) - int ob \<or> n' \<le> 0"
  using assms(2)
proof (cases rule: eapmschapv2_process_cases)
  case (challenge u u' g1 v un p)
  from challenge(2) show ?thesis
  proof (cases rule: eapmschapv2_challenge_cases)
    case (reply ac un pass nr msid)
    then show ?thesis
      using assms(1) GenerateNTResponse_length [OF _ reply(3)] by (auto simp: wr_bytes_eq_Inr env_ok_def)
  qed simp
next
  case (success u u' g1 v un p)
  from success(2) show ?thesis
    by (cases rule: eapmschapv2_success_cases) (auto simp: wr8_eq_Inr)
qed auto

interpretation mschapv2: eap_method eapmschapv2_setup "no_glob eapmschapv2_process"
proof
  show "eapmschapv2_setup env g = (g', rc) \<Longrightarrow> g' = g\<lparr>eap_data := eap_data g'\<rparr>" for env g g' rc
    by (auto simp: eapmschapv2_setup_def split: if_splits)
  show "eapmschapv2_setup env g = (g', XENONE) \<Longrightarrow> eap_data g' \<noteq> None" for env g g'
    by (auto simp: eapmschapv2_setup_def split: if_splits)
  show "env_ok env \<Longrightarrow> no_glob eapmschapv2_process env G g data insize out ob n = Inr (rc, G', g', out', n')
    \<Longrightarrow> n' = n \<or> n' \<le> int (length out) - int ob \<or> n' \<le> 0" for env G g data insize out ob n rc G' g' out' n'
    by (auto simp: no_glob_eq_Inr dest: eapmschapv2_process_size)
qed (simp_all add: no_glob_eq_Inr, (blast dest: eapmschapv2_process_frame)+)

interpretation mschapv2_keys: eap_keyed_method eapmschapv2_setup "no_glob eapmschapv2_process" eapmschapv2_get_keys
proof
  show "eapmschapv2_get_keys env s = Inr (s', rc) \<Longrightarrow> s' = s\<lparr>keyingMaterial := keyingMaterial s'\<rparr>" for env s s' rc
    by (auto simp: eapmschapv2_get_keys_def split: option.splits if_splits elim!: bindR_InrE)
qed

section \<open>What the method computes\<close>

text \<open>The response of RFC 2759 to a challenge: three DES encryptions of the challenge hash under the NT hash
  of the password, padded with zeros.\<close>

definition nt_response :: "crypto \<Rightarrow> bytes \<Rightarrow> bytes \<Rightarrow> cstr \<Rightarrow> cstr \<Rightarrow> bytes" where
  "nt_response c ac pc un pw =
     challenge_response c (take 8 (SHA1 c (pc @ ac @ un))) (NtPasswordHash c pw)"

lemma GenerateNTResponse_eq:
  assumes "crypto_sizes c" and "length ac = 16" and "length pc = 16"
  shows "GenerateNTResponse c ac pc un pw = Inr (nt_response c ac pc un pw)"
  using assms length_NtPasswordHash [OF assms(1), of pw]
  by (simp add: GenerateNTResponse_def ChallengeHash_Ok ChallengeResponse_Ok nt_response_def crypto_sizes_def)

lemma length_nt_response: "crypto_sizes c \<Longrightarrow> length (nt_response c ac pc un pw) = 24"
  by (simp add: nt_response_def length_challenge_response)

text \<open>The keys of RFC 3079, from the client's side.\<close>

definition session_key :: "crypto \<Rightarrow> cstr \<Rightarrow> bytes \<Rightarrow> bytes \<Rightarrow> bytes" where
  "session_key c pw nr magic =
     take 16 (SHA1 c (take 16 (SHA1 c (MD4 c (NtPasswordHash c pw) @ nr @ MagicMaster)) @ SHSpad1 @ magic @ SHSpad2))"

definition keying_material :: "crypto \<Rightarrow> cstr \<Rightarrow> bytes \<Rightarrow> bytes" where
  "keying_material c pw nr = session_key c pw nr MagicClientSend @ replicate 16 0
     @ session_key c pw nr MagicClientRecv @ replicate 16 0"

lemma length_session_key: "crypto_sizes c \<Longrightarrow> length (session_key c pw nr magic) = 16"
  by (simp add: session_key_def crypto_sizes_def)

lemma master_key_Ok:
  assumes "crypto_sizes c" and "length nr = 24"
  shows "bindR (HashNtPasswordHash c (NtPasswordHash c pw)) (\<lambda>hh. GetMasterKey c hh nr) =
    Inr (take 16 (SHA1 c (MD4 c (NtPasswordHash c pw) @ nr @ MagicMaster)))"
  using assms length_NtPasswordHash [OF assms(1), of pw]
  by (simp add: HashNtPasswordHash_def rd_bytes_def GetMasterKey_Ok crypto_sizes_def)

lemma mschapv2_keying_Ok:
  assumes "crypto_sizes c" and "length nr = 24"
  shows "mschapv2_keying c pw nr = Inr (keying_material c pw nr)"
  using assms length_NtPasswordHash [OF assms(1), of pw]
  by (simp add: mschapv2_keying_def HashNtPasswordHash_def rd_bytes_def GetMasterKey_Ok GetAsymetricStartKey_def
      crypto_sizes_def keying_material_def session_key_def Let_def)

text \<open>C10: The keying material is 64 bytes, two padded keys of 16, and both sides agree on it: what the client takes
  as its send key is what \<open>GetAsymetricStartKey\<close> gives the server as receive key, and the other way round.\<close>

theorem mschapv2_keys_agree:
  assumes "crypto_sizes c" and "length nr = 24"
  shows "\<exists>mk send recv. bindR (HashNtPasswordHash c (NtPasswordHash c pw)) (\<lambda>hh. GetMasterKey c hh nr) = Inr mk \<and>
    GetAsymetricStartKey c mk 16 FALSE TRUE = Inr send \<and> GetAsymetricStartKey c mk 16 TRUE TRUE = Inr recv \<and>
    mschapv2_keying c pw nr = Inr (send @ replicate 16 0 @ recv @ replicate 16 0) \<and>
    length send = 16 \<and> length recv = 16"
  using assms
  by (simp add: master_key_Ok mschapv2_keying_Ok GetAsymetricStartKey_def rd_bytes_def keying_material_def
      session_key_def Let_def crypto_sizes_def)

theorem mschapv2_keys_agree_witness:
  "\<exists>mk send recv. GetAsymetricStartKey sample_crypto mk 16 FALSE TRUE = Inr send \<and>
    mschapv2_keying sample_crypto [0x70] (replicate 24 1) = Inr (send @ replicate 16 0 @ recv @ replicate 16 0)"
  using mschapv2_keys_agree [OF sample_crypto_sizes, of "replicate 24 1" "[0x70]"] by auto

text \<open>The method is set up, with a user name and a password in the configuration.\<close>

definition mschapv2_ready :: "generic_eap_data \<Rightarrow> mschapv2_vars \<Rightarrow> cstr \<Rightarrow> cstr \<Rightarrow> bool" where
  "mschapv2_ready g v un pw \<longleftrightarrow> eap_data g = Some (Mschapv2Vars v) \<and>
     eap_conf_data g = Some (ConfMschapv2 \<lparr>username = Some un, password = Some pw\<rparr>)"

lemma eapmschapv2_process_ready:
  "mschapv2_ready g v un pw \<Longrightarrow> rdp8 p 0 = Inr opcode \<Longrightarrow>
     eapmschapv2_process env g (Some p) k out ob n =
      (if opcode = MS_CHAPV2_CHALLENGE then eapmschapv2_challenge env g v (Some un) (Some pw) p out ob n
       else if opcode = MS_CHAPV2_RESPONSE then Ok (XENONE, g, out, 0)
       else if opcode = MS_CHAPV2_SUCCESS then eapmschapv2_success env g v (Some un) (Some pw) p out ob n
       else if opcode = MS_CHAPV2_FAILURE then Ok (XENONE, g, out, 0)
       else Ok (XENONE, g, out, n))"
  by (simp add: mschapv2_ready_def eapmschapv2_process_def mschapv2_conf_def mschapv2_state_def adopt_password_def)

text \<open>C18: The answer to a challenge is the one of RFC 2759: opcode, the challenge's identifier, the length, a value
  of 49 bytes made of the random peer challenge and the NT response, and the user name, at the place the
  dispatcher names. The two challenges and the response are kept for the check of the server.\<close>

theorem eapmschapv2_answers_challenge:
  assumes "env_ok env" and "\<forall>a. malloc_ok env a" and "mschapv2_ready g v un pw"
    and "rdp8 p 0 = Inr MS_CHAPV2_CHALLENGE" and "rdp8 p 1 = Inr msid" and "rdp8 p 4 = Inr 16"
    and "rdp_bytes p 5 16 = Inr ac" and "ob + 54 + length un \<le> length out"
  shows "\<exists>out'. eapmschapv2_process env g (Some p) k out ob n =
      Inr (XENONE, put_vars g (v\<lparr>AuthenticatorChallenge := Some ac, PeerChallenge := Some (rand16 env),
        NtResponse := Some (nt_response (crypt env) ac (rand16 env) un pw)\<rparr>), out', 54 + int (length un)) \<and>
    take (54 + length un) (drop ob out') = [MS_CHAPV2_RESPONSE, msid] @ htons_bytes (54 + int (length un)) @ [49]
      @ rand16 env @ replicate 8 0 @ nt_response (crypt env) ac (rand16 env) un pw @ [0] @ un"
proof -
  let ?pkt = "mschapv2_response_packet msid (rand16 env) (nt_response (crypt env) ac (rand16 env) un pw) un"
  have c: "crypto_sizes (crypt env)" and r: "length (rand16 env) = 16" using assms(1) by (simp_all add: env_ok_def)
  have ac: "length ac = 16" using assms(7) by (auto simp: rdp_bytes_def dest: rd_bytes_length)
  have len: "length ?pkt = 54 + length un" using length_nt_response [OF c] r by simp
  then obtain out' where out': "wr_bytes out ob ?pkt = Inr out'" using assms(8) wr_bytes_total by fastforce
  then have "take (54 + length un) (drop ob out') = ?pkt" using wr_bytes_same [OF out'] unfolding len by blast
  then show ?thesis
    using assms out' by (auto simp: eapmschapv2_process_ready eapmschapv2_challenge_def Let_def GenerateNTResponse_eq [OF c ac r]
      mschapv2_response_packet_def)
qed

text \<open>C3: The client authenticates the server: of all 20-byte responses a success message can carry in hexadecimal,
  the method accepts exactly the one computed from the password, both challenges and its own NT response.
  Then it sends the success opcode and derives the session keys; otherwise it sends the failure opcode
  and derives nothing.\<close>

theorem eapmschapv2_checks_server:
  assumes "env_ok env" and "malloc_ok env AKeyingMaterial" and "mschapv2_ready g v un pw"
    and "NtResponse v = Some nr" and "PeerChallenge v = Some pc" and "AuthenticatorChallenge v = Some ac"
    and "length nr = 24" and "length pc = 16" and "length ac = 16"
    and "rdp8 p 0 = Inr MS_CHAPV2_SUCCESS" and "rdp_bytes p 6 40 = Inr (hexify d)" and "length d = 20"
    and "ob < length out"
  shows "eapmschapv2_process env g (Some p) k out ob n =
    (if authenticator_response (crypt env) pw nr pc ac un = d
     then Inr (XENONE, put_vars g (v\<lparr>mschap_keyingMaterial := Some (keying_material (crypt env) pw nr)\<rparr>),
            out[ob := MS_CHAPV2_SUCCESS], 1)
     else Inr (XENONE, g, out[ob := MS_CHAPV2_FAILURE], 1))"
proof -
  have c: "crypto_sizes (crypt env)" and j: "20 \<le> length (stack_junk env)"
    using assms(1) by (simp_all add: env_ok_def)
  show ?thesis
    using assms CheckAuthenticatorResponse_hexify [OF c assms(7-9,12) j, of pw un None]
    by (simp add: eapmschapv2_process_ready eapmschapv2_success_def wr8_Ok mschapv2_keying_Ok [OF c])
qed

text \<open>C36: A success message before any challenge reads an uninitialised variable: \<open>CheckAuthenticatorResponse\<close>
  returns without a verdict, and the code tests the verdict.\<close>

theorem eapmschapv2_early_success:
  assumes "mschapv2_ready g v un pw" and "NtResponse v = None"
    and "rdp8 p 0 = Inr MS_CHAPV2_SUCCESS" and "rdp_bytes p 6 40 = Inr r"
  shows "eapmschapv2_process env g (Some p) k out ob n = Inl Uninit"
  using assms
  by (simp add: eapmschapv2_process_ready eapmschapv2_success_def CheckAuthenticatorResponse_def)

text \<open>The sample method, and a run through it: a challenge, then the server's success message.\<close>

definition sample_mschapv2 :: generic_eap_data where
  "sample_mschapv2 = sample_data\<lparr>eap_conf_data := Some (ConfMschapv2 \<lparr>username = Some [0x62], password = Some [0x70]\<rparr>),
     eap_data := Some (Mschapv2Vars empty_vars)\<rparr>"

lemma sample_mschapv2_ready: "mschapv2_ready sample_mschapv2 empty_vars [0x62] [0x70]"
  by (simp add: mschapv2_ready_def sample_mschapv2_def)

theorem eapmschapv2_answers_challenge_witness:
  "\<exists>g' out'. eapmschapv2_process sample_env sample_mschapv2 (Some ([1, 7, 0, 26, 16] @ replicate 16 9, 0)) 21
      (replicate 90 0) 23 0 = Inr (XENONE, g', out', 55) \<and>
    take 5 (drop 23 out') = [MS_CHAPV2_RESPONSE, 7, 0, 55, 49]"
proof -
  obtain g' out' where r: "eapmschapv2_process sample_env sample_mschapv2 (Some ([1, 7, 0, 26, 16] @ replicate 16 9, 0)) 21
      (replicate 90 0) 23 0 = Inr (XENONE, g', out', 55)"
    and t: "take 55 (drop 23 out') = [MS_CHAPV2_RESPONSE, 7] @ htons_bytes 55 @ [49] @ rand16 sample_env @ replicate 8 0
      @ nt_response (crypt sample_env) (replicate 16 9) (rand16 sample_env) [0x62] [0x70] @ [0] @ [0x62]"
    using eapmschapv2_answers_challenge [OF sample_env_ok _ sample_mschapv2_ready, of "([1, 7, 0, 26, 16] @ replicate 16 9, 0)"
        7 "replicate 16 9" 23 "replicate 90 0" 21 0]
    by (auto simp: rdp8_def rd8_def rdp_bytes_def rd_bytes_def)
  have "take 5 (drop 23 out') = take 5 (take 55 (drop 23 out'))" by simp
  then have "take 5 (drop 23 out') = [MS_CHAPV2_RESPONSE, 7, 0, 55, 49]"
    unfolding t by (simp add: htons_bytes_eq)
  with r show ?thesis by blast
qed

definition sample_vars :: mschapv2_vars where
  "sample_vars = \<lparr>AuthenticatorChallenge = Some (replicate 16 9), PeerChallenge = Some (replicate 16 7),
     NtResponse = Some (replicate 24 5), mschap_keyingMaterial = None\<rparr>"

lemma sample_mschapv2_vars_ready: "mschapv2_ready (put_vars sample_mschapv2 sample_vars) sample_vars [0x62] [0x70]"
  by (simp add: mschapv2_ready_def sample_mschapv2_def put_vars_def)

theorem eapmschapv2_checks_server_witness:
  "\<exists>g'. eapmschapv2_process sample_env (put_vars sample_mschapv2 sample_vars)
      (Some ([3, 7, 0, 46, 0x53, 0x3d] @ hexify (replicate 20 3), 0)) 46 (replicate 60 0) 23 0 =
      Inr (XENONE, g', (replicate 60 0)[23 := MS_CHAPV2_SUCCESS], 1)"
proof -
  have "authenticator_response (crypt sample_env) [0x70] (replicate 24 5) (replicate 16 7) (replicate 16 9) [0x62] = replicate 20 3"
    by (simp add: authenticator_response_def sample_crypto_def)
  then show ?thesis
    using eapmschapv2_checks_server [OF sample_env_ok _ sample_mschapv2_vars_ready, of "replicate 24 5" "replicate 16 7"
        "replicate 16 9" "([3, 7, 0, 46, 0x53, 0x3d] @ hexify (replicate 20 3), 0)" "replicate 20 3" 23 "replicate 60 0" 46 0]
    by (auto simp: sample_vars_def rdp8_def rd8_def rdp_bytes_def rd_bytes_def)
qed

theorem eapmschapv2_early_success_witness:
  "eapmschapv2_process sample_env sample_mschapv2 (Some ([3, 7, 0, 46, 0x53, 0x3d] @ replicate 40 0x30, 0)) 46
     (replicate 60 0) 23 0 = Inl Uninit"
  by (rule eapmschapv2_early_success [OF sample_mschapv2_ready])
    (simp_all add: empty_vars_def rdp8_def rd8_def rdp_bytes_def rd_bytes_def)

end
