(* ===== verification/Md4.thy ===== *)
theory Md4
  imports Prelude
begin

text \<open>
  The MD4 implementation of \<open>eap_types/leap/leapmd4.c\<close>, used by LEAP only. \<open>UINT4\<close> is a 32-bit word.
  Loop counters are natural numbers: for inputs shorter than \<open>2 ^ 32 - 64\<close> bytes they do not wrap. The
  last part shows that the buffered computation is the digest of the padded message.
\<close>

section \<open>Basic functions\<close>

type_synonym md4_words = "u32 \<times> u32 \<times> u32 \<times> u32"

definition md4_F :: "u32 \<Rightarrow> u32 \<Rightarrow> u32 \<Rightarrow> u32" where
  "md4_F x y z = (x AND y) OR (NOT x AND z)"

definition md4_G :: "u32 \<Rightarrow> u32 \<Rightarrow> u32 \<Rightarrow> u32" where
  "md4_G x y z = (x AND y) OR (x AND z) OR (y AND z)"

definition md4_H :: "u32 \<Rightarrow> u32 \<Rightarrow> u32 \<Rightarrow> u32" where
  "md4_H x y z = (x XOR y) XOR z"

definition ROTATE_LEFT :: "u32 \<Rightarrow> nat \<Rightarrow> u32" where
  "ROTATE_LEFT x n = push_bit n x OR drop_bit (32 - n) x"

definition FF :: "u32 \<Rightarrow> u32 \<Rightarrow> u32 \<Rightarrow> u32 \<Rightarrow> u32 \<Rightarrow> nat \<Rightarrow> u32" where
  "FF a b c d x s = ROTATE_LEFT (a + (md4_F b c d + x)) s"

definition GG :: "u32 \<Rightarrow> u32 \<Rightarrow> u32 \<Rightarrow> u32 \<Rightarrow> u32 \<Rightarrow> nat \<Rightarrow> u32" where
  "GG a b c d x s = ROTATE_LEFT (a + (md4_G b c d + x + 0x5a827999)) s"

definition HH :: "u32 \<Rightarrow> u32 \<Rightarrow> u32 \<Rightarrow> u32 \<Rightarrow> u32 \<Rightarrow> nat \<Rightarrow> u32" where
  "HH a b c d x s = ROTATE_LEFT (a + (md4_H b c d + x + 0x6ed9eba1)) s"

text \<open>\<open>Encode\<close> and \<open>Decode\<close>: words to bytes and back, least significant byte first.\<close>

fun Encode :: "u32 list \<Rightarrow> bytes" where
  "Encode [] = []"
| "Encode (w # ws) =
     ucast (w AND 0xff) # ucast (drop_bit 8 w AND 0xff) # ucast (drop_bit 16 w AND 0xff)
       # ucast (drop_bit 24 w AND 0xff) # Encode ws"

fun Decode :: "bytes \<Rightarrow> u32 list" where
  "Decode (b0 # b1 # b2 # b3 # bs) =
     (((ucast b0 OR push_bit 8 (ucast b1)) OR push_bit 16 (ucast b2)) OR push_bit 24 (ucast b3)) # Decode bs"
| "Decode _ = []"

section \<open>The compression function\<close>

definition md4_round1 :: "u32 list \<Rightarrow> md4_words \<Rightarrow> md4_words" where
  "md4_round1 x = (\<lambda>(a, b, c, d). let
     a = FF a b c d (x ! 0) 3; d = FF d a b c (x ! 1) 7;
     c = FF c d a b (x ! 2) 11; b = FF b c d a (x ! 3) 19;
     a = FF a b c d (x ! 4) 3; d = FF d a b c (x ! 5) 7;
     c = FF c d a b (x ! 6) 11; b = FF b c d a (x ! 7) 19;
     a = FF a b c d (x ! 8) 3; d = FF d a b c (x ! 9) 7;
     c = FF c d a b (x ! 10) 11; b = FF b c d a (x ! 11) 19;
     a = FF a b c d (x ! 12) 3; d = FF d a b c (x ! 13) 7;
     c = FF c d a b (x ! 14) 11; b = FF b c d a (x ! 15) 19
     in (a, b, c, d))"

definition md4_round2 :: "u32 list \<Rightarrow> md4_words \<Rightarrow> md4_words" where
  "md4_round2 x = (\<lambda>(a, b, c, d). let
     a = GG a b c d (x ! 0) 3; d = GG d a b c (x ! 4) 5;
     c = GG c d a b (x ! 8) 9; b = GG b c d a (x ! 12) 13;
     a = GG a b c d (x ! 1) 3; d = GG d a b c (x ! 5) 5;
     c = GG c d a b (x ! 9) 9; b = GG b c d a (x ! 13) 13;
     a = GG a b c d (x ! 2) 3; d = GG d a b c (x ! 6) 5;
     c = GG c d a b (x ! 10) 9; b = GG b c d a (x ! 14) 13;
     a = GG a b c d (x ! 3) 3; d = GG d a b c (x ! 7) 5;
     c = GG c d a b (x ! 11) 9; b = GG b c d a (x ! 15) 13
     in (a, b, c, d))"

definition md4_round3 :: "u32 list \<Rightarrow> md4_words \<Rightarrow> md4_words" where
  "md4_round3 x = (\<lambda>(a, b, c, d). let
     a = HH a b c d (x ! 0) 3; d = HH d a b c (x ! 8) 9;
     c = HH c d a b (x ! 4) 11; b = HH b c d a (x ! 12) 15;
     a = HH a b c d (x ! 2) 3; d = HH d a b c (x ! 10) 9;
     c = HH c d a b (x ! 6) 11; b = HH b c d a (x ! 14) 15;
     a = HH a b c d (x ! 1) 3; d = HH d a b c (x ! 9) 9;
     c = HH c d a b (x ! 5) 11; b = HH b c d a (x ! 13) 15;
     a = HH a b c d (x ! 3) 3; d = HH d a b c (x ! 11) 9;
     c = HH c d a b (x ! 7) 11; b = HH b c d a (x ! 15) 15
     in (a, b, c, d))"

definition MD4Transform :: "md4_words \<Rightarrow> bytes \<Rightarrow> md4_words" where
  "MD4Transform st block =
     (let x = Decode block in
      case st of (s0, s1, s2, s3) \<Rightarrow>
      case md4_round3 x (md4_round2 x (md4_round1 x st)) of (a, b, c, d) \<Rightarrow>
      (s0 + a, s1 + b, s2 + c, s3 + d))"

section \<open>The buffered digest\<close>

record md4_ctx =
  md4_state :: md4_words
  md4_count0 :: u32
  md4_count1 :: u32
  md4_buffer :: bytes

definition md4_init_words :: md4_words where
  "md4_init_words = (0x67452301, 0xefcdab89, 0x98badcfe, 0x10325476)"

text \<open>The buffer of a new context is not initialised.\<close>

definition MD4Init :: "bytes \<Rightarrow> md4_ctx" where
  "MD4Init junk =
     \<lparr>md4_state = md4_init_words, md4_count0 = 0, md4_count1 = 0, md4_buffer = junk\<rparr>"

definition MD4_memcpy :: "bytes \<Rightarrow> nat \<Rightarrow> bytes \<Rightarrow> bytes" where
  "MD4_memcpy output off input = take off output @ input @ drop (off + length input) output"

function update_loop :: "md4_words \<Rightarrow> bytes \<Rightarrow> nat \<Rightarrow> md4_words \<times> nat" where
  "update_loop st input i =
     (if i + 63 < length input
      then update_loop (MD4Transform st (take 64 (drop i input))) input (i + 64)
      else (st, i))"
  by pat_completeness auto
termination by (relation "measure (\<lambda>(st, input, i). length input - i)") auto

declare update_loop.simps [simp del]

definition md4_index :: "md4_ctx \<Rightarrow> nat" where
  "md4_index ctx = unat (drop_bit 3 (md4_count0 ctx) AND 0x3f)"

definition md4_count_add :: "u32 \<Rightarrow> md4_ctx \<Rightarrow> md4_ctx" where
  "md4_count_add inputLen ctx =
     (let c0 = md4_count0 ctx + push_bit 3 inputLen;
          c1 = (if c0 < push_bit 3 inputLen then md4_count1 ctx + 1 else md4_count1 ctx)
      in ctx\<lparr>md4_count0 := c0, md4_count1 := c1 + drop_bit 29 inputLen\<rparr>)"

definition MD4Update :: "md4_ctx \<Rightarrow> bytes \<Rightarrow> md4_ctx" where
  "MD4Update ctx input =
     (let index = md4_index ctx;
          ctx = md4_count_add (of_nat (length input)) ctx;
          partLen = 64 - index
      in if partLen \<le> length input then
           (let buffer = MD4_memcpy (md4_buffer ctx) index (take partLen input);
                (st, i) = update_loop (MD4Transform (md4_state ctx) buffer) input partLen
            in ctx\<lparr>md4_state := st, md4_buffer := MD4_memcpy buffer 0 (drop i input)\<rparr>)
         else ctx\<lparr>md4_buffer := MD4_memcpy (md4_buffer ctx) index input\<rparr>)"

definition PADDING :: bytes where
  "PADDING = 0x80 # replicate 63 0"

definition state_list :: "md4_words \<Rightarrow> u32 list" where
  "state_list st = (case st of (a, b, c, d) \<Rightarrow> [a, b, c, d])"

definition MD4Final :: "md4_ctx \<Rightarrow> bytes" where
  "MD4Final ctx =
     (let bits = Encode [md4_count0 ctx, md4_count1 ctx];
          index = md4_index ctx;
          padLen = (if index < 56 then 56 - index else 120 - index);
          ctx = MD4Update ctx (take padLen PADDING);
          ctx = MD4Update ctx bits
      in Encode (state_list (md4_state ctx)))"

definition md4_digest :: "bytes \<Rightarrow> bytes \<Rightarrow> bytes" where
  "md4_digest junk input = MD4Final (MD4Update (MD4Init junk) input)"

text \<open>The call with a pointer and a length: reading past the input is a fault.\<close>

definition md4_calc :: "bytes \<Rightarrow> bytes \<Rightarrow> u32 \<Rightarrow> bytes res" where
  "md4_calc junk input inlen =
     bindR (rd_bytes input 0 (unat inlen)) (\<lambda>m. Ok (md4_digest junk m))"

section \<open>The digest of a message\<close>

text \<open>MD4 as it is specified: pad the message to whole blocks, its length in bits at the end, and fold the
  compression function over the blocks.\<close>

function md4_fold :: "md4_words \<Rightarrow> bytes \<Rightarrow> md4_words" where
  "md4_fold st m = (if length m < 64 then st else md4_fold (MD4Transform st (take 64 m)) (drop 64 m))"
  by pat_completeness auto
termination by (relation "measure (\<lambda>(st, m). length m)") auto

declare md4_fold.simps [simp del]

definition md4_pad :: "bytes \<Rightarrow> bytes" where
  "md4_pad m =
     (let r = length m mod 64; bits = 8 * length m in
      m @ take (if r < 56 then 56 - r else 120 - r) PADDING
        @ Encode [of_nat bits, of_nat (bits div 2 ^ 32)])"

definition md4_ref :: "bytes \<Rightarrow> bytes" where
  "md4_ref m = Encode (state_list (md4_fold md4_init_words (md4_pad m)))"

lemma md4_fold_short: "length m < 64 \<Longrightarrow> md4_fold st m = st"
  by (simp add: md4_fold.simps)

lemma md4_fold_step:
  "64 \<le> length m \<Longrightarrow> md4_fold st m = md4_fold (MD4Transform st (take 64 m)) (drop 64 m)"
  by (subst md4_fold.simps) simp

lemma md4_fold_append:
  "length a mod 64 = 0 \<Longrightarrow> md4_fold st (a @ b) = md4_fold (md4_fold st a) b"
proof (induction st a rule: md4_fold.induct)
  case (1 st a)
  show ?case
  proof (cases "length a < 64")
    case True
    then have "a = []" using 1(2) by simp
    then show ?thesis by (simp add: md4_fold_short)
  next
    case False
    then have "length (drop 64 a) mod 64 = 0" using 1(2) by (simp add: le_mod_geq)
    with 1(1) [OF False] False show ?thesis
      by (simp add: md4_fold_step [of "a @ b"] md4_fold_step [of a])
  qed
qed

lemma md4_fold_block: "length b = 64 \<Longrightarrow> md4_fold st b = MD4Transform st b"
  by (simp add: md4_fold_step md4_fold_short)

lemma update_loop_eq:
  "i \<le> length input \<Longrightarrow> update_loop st input i =
     (md4_fold st (drop i input), length input - (length input - i) mod 64)"
proof (induction st input i rule: update_loop.induct)
  case (1 st input i)
  show ?case
  proof (cases "i + 63 < length input")
    case True
    have "(length input - i) mod 64 = (length input - (i + 64)) mod 64"
      using True le_mod_geq [of 64 "length input - i"] by simp
    then show ?thesis
      using True 1(1) [OF True]
      by (subst update_loop.simps) (simp add: md4_fold_step [of "drop i input"] add.commute)
  next
    case False
    then show ?thesis
      using 1(2) by (subst update_loop.simps) (simp add: md4_fold_short)
  qed
qed

subsection \<open>What a context stands for\<close>

definition whole_blocks :: "bytes \<Rightarrow> bytes" where
  "whole_blocks m = take (64 * (length m div 64)) m"

definition partial_block :: "bytes \<Rightarrow> bytes" where
  "partial_block m = drop (64 * (length m div 64)) m"

definition md4_represents :: "md4_ctx \<Rightarrow> bytes \<Rightarrow> bool" where
  "md4_represents ctx m \<longleftrightarrow>
     md4_state ctx = md4_fold md4_init_words (whole_blocks m) \<and>
     md4_count0 ctx = of_nat (8 * length m) \<and>
     md4_count1 ctx = of_nat (8 * length m div 2 ^ 32) \<and>
     length (md4_buffer ctx) = 64 \<and>
     take (length m mod 64) (md4_buffer ctx) = partial_block m"

lemma MD4Init_represents: "length junk = 64 \<Longrightarrow> md4_represents (MD4Init junk) []"
  by (simp add: md4_represents_def MD4Init_def whole_blocks_def partial_block_def md4_fold_short)

lemma md4_index_eq:
  assumes "md4_count0 ctx = of_nat (8 * n)"
  shows "md4_index ctx = n mod 64"
proof -
  have m: "w AND 0x3f = take_bit 6 w" for w :: u32
    by (simp add: take_bit_eq_mask mask_eq_exp_minus_1)
  have "(8 * n mod 4294967296) div 8 = n mod 536870912"
    using mod_mult_mult1 [of 8 n 536870912] by simp
  then have r: "(8 * n mod 4294967296) div 8 mod 64 = n mod 64"
    by (simp add: mod_mod_cancel)
  have "md4_index ctx = take_bit 6 (drop_bit 3 (unat (md4_count0 ctx)))"
    unfolding md4_index_def m by (simp only: unsigned_take_bit_eq unsigned_drop_bit_eq)
      (simp add: take_bit_drop_bit unsigned_take_bit_eq)
  also have "\<dots> = (8 * n mod 4294967296) div 8 mod 64"
    unfolding assms unsigned_of_nat by (simp add: take_bit_eq_mod drop_bit_eq_div)
  finally show ?thesis using r by simp
qed

lemma md4_count_add_fields [simp]:
  "md4_state (md4_count_add l ctx) = md4_state ctx" "md4_buffer (md4_count_add l ctx) = md4_buffer ctx"
  by (simp_all add: md4_count_add_def Let_def)

lemma carry_arith:
  fixes n l :: nat
  assumes "l < 2 ^ 32"
  defines "W \<equiv> 2 ^ 32"
  shows "(8 * n div W + (if (8 * n mod W + 8 * l mod W) mod W < 8 * l mod W then 1 else 0) + l div 2 ^ 29) mod W
    = 8 * (n + l) div W mod W"
proof -
  have W: "0 < W" by (simp add: W_def)
  define c s where "c = 8 * n mod W" and "s = 8 * l mod W"
  have lt: "c < W" "s < W" using W by (simp_all add: c_def s_def)
  have carry: "(c + s) mod W < s \<longleftrightarrow> W \<le> c + s"
  proof (cases "W \<le> c + s")
    case True
    then have "(c + s) mod W = c + s - W" using lt by (simp add: mod_if)
    with True lt show ?thesis by linarith
  next
    case False
    then show ?thesis by simp
  qed
  have d: "(c + s) div W = (if W \<le> c + s then 1 else 0)"
    using lt by (auto simp: div_if)
  have l: "8 * l div W = l div 2 ^ 29"
    by (simp add: W_def div_mult2_eq [of "8 * l" 8 "2 ^ 29", simplified])
  have "8 * (n + l) div W = 8 * n div W + 8 * l div W + (c + s) div W"
    unfolding c_def s_def using div_add1_eq [of "8 * n" "8 * l" W] by (simp add: distrib_left)
  then show ?thesis
    using carry d l by (simp add: c_def s_def)
qed

lemma unat_u32: "unat (of_nat n :: u32) = n mod 4294967296"
  by (simp add: unsigned_of_nat take_bit_eq_mod)

lemma md4_count_add_counts:
  assumes c: "md4_count0 ctx = of_nat (8 * n)" "md4_count1 ctx = of_nat (8 * n div 2 ^ 32)"
    and l: "l < 2 ^ 32"
  shows "md4_count0 (md4_count_add (of_nat l) ctx) = of_nat (8 * (n + l))"
    and "md4_count1 (md4_count_add (of_nat l) ctx) = of_nat (8 * (n + l) div 2 ^ 32)"
proof -
  have p: "push_bit 3 (of_nat l :: u32) = of_nat (8 * l)"
    by (simp add: push_bit_of_nat push_bit_eq_mult mult.commute)
  show c0: "md4_count0 (md4_count_add (of_nat l) ctx) = of_nat (8 * (n + l))"
    by (simp add: md4_count_add_def Let_def p c(1) distrib_left)
  have d: "drop_bit 29 (of_nat l :: u32) = of_nat (l div 2 ^ 29)"
    by (rule unsigned_word_eqI [where 'a = nat])
      (use l in \<open>simp only: unsigned_drop_bit_eq unat_u32, simp add: drop_bit_eq_div take_bit_eq_mod\<close>)
  have lt: "md4_count0 (md4_count_add (of_nat l) ctx) < push_bit 3 (of_nat l)
    \<longleftrightarrow> (8 * n mod 2 ^ 32 + 8 * l mod 2 ^ 32) mod 2 ^ 32 < 8 * l mod 2 ^ 32"
    unfolding c0 p word_less_nat_alt unat_u32 by (simp add: mod_add_eq distrib_left)
  have "md4_count1 (md4_count_add (of_nat l) ctx) =
     (of_nat (8 * n div 2 ^ 32 + (if (8 * n mod 2 ^ 32 + 8 * l mod 2 ^ 32) mod 2 ^ 32 < 8 * l mod 2 ^ 32 then 1 else 0)
        + l div 2 ^ 29) :: u32)"
    unfolding lt [symmetric] by (simp add: md4_count_add_def Let_def c(2) d del: of_nat_mult)
  also have "\<dots> = of_nat (8 * (n + l) div 2 ^ 32)"
    by (rule unsigned_word_eqI [where 'a = nat])
      (use carry_arith [OF l, of n] in \<open>simp only: unat_u32, simp\<close>)
  finally show "md4_count1 (md4_count_add (of_nat l) ctx) = of_nat (8 * (n + l) div 2 ^ 32)" .
qed

lemma blocks_append_short:
  assumes "length m mod 64 + length b < 64"
  shows "whole_blocks (m @ b) = whole_blocks m" "partial_block (m @ b) = partial_block m @ b"
proof -
  have "(length m + length b) div 64 = length m div 64"
    using assms div_add1_eq [of "length m" "length b" 64] by simp
  moreover have "64 * (length m div 64) \<le> length m" by simp
  ultimately show "whole_blocks (m @ b) = whole_blocks m" "partial_block (m @ b) = partial_block m @ b"
    by (simp_all add: whole_blocks_def partial_block_def del: times_div_less_eq_dividend)
qed

lemma blocks_split: "m = whole_blocks m @ partial_block m"
  by (simp add: whole_blocks_def partial_block_def)

lemma length_blocks [simp]:
  "length (whole_blocks m) = 64 * (length m div 64)" "length (partial_block m) = length m mod 64"
  by (simp_all add: whole_blocks_def partial_block_def minus_mult_div_eq_mod)

lemma md4_fold_blocks: "md4_fold st m = md4_fold st (whole_blocks m)"
proof -
  have "md4_fold st m = md4_fold st (whole_blocks m @ partial_block m)"
    using blocks_split [of m] by simp
  also have "\<dots> = md4_fold st (whole_blocks m)"
    by (subst md4_fold_append) (simp_all add: md4_fold_short)
  finally show ?thesis .
qed

lemma MD4_memcpy_take:
  "off + length input \<le> length output \<Longrightarrow>
     length (MD4_memcpy output off input) = length output \<and>
     take (off + length input) (MD4_memcpy output off input) = take off output @ input"
  by (simp add: MD4_memcpy_def)

lemma MD4Update_represents:
  assumes r: "md4_represents ctx m" and l: "length b < 2 ^ 32"
  shows "md4_represents (MD4Update ctx b) (m @ b)"
proof -
  define c where "c = md4_count_add (of_nat (length b)) ctx"
  define i where "i = length m mod 64"
  have i: "md4_index ctx = i" "i < 64"
    using r md4_index_eq [of ctx "length m"] by (simp_all add: md4_represents_def i_def del: of_nat_mult)
  have counts: "md4_count0 c = of_nat (8 * length (m @ b))"
    "md4_count1 c = of_nat (8 * length (m @ b) div 2 ^ 32)"
    using r md4_count_add_counts [OF _ _ l, of ctx "length m"]
    by (simp_all add: md4_represents_def c_def del: of_nat_mult)
  have st: "md4_state c = md4_fold md4_init_words (whole_blocks m)" "length (md4_buffer c) = 64"
    "take i (md4_buffer c) = partial_block m"
    using r by (simp_all add: md4_represents_def c_def i_def)
  show ?thesis
  proof (cases "64 - i \<le> length b")
    case False
    then have "i + length b < 64" using i by simp
    moreover from this have "(length m + length b) mod 64 = i + length b"
      by (metis i_def mod_add_left_eq mod_less)
    ultimately show ?thesis
      using False i st counts MD4_memcpy_take [of i b "md4_buffer c"] blocks_append_short [of m b]
      by (simp add: md4_represents_def MD4Update_def Let_def c_def [symmetric] i_def [symmetric] del: of_nat_mult)
  next
    case True
    define p where "p = 64 - i"
    define buf where "buf = MD4_memcpy (md4_buffer c) i (take p b)"
    have bl: "length buf = 64" "buf = partial_block m @ take p b"
      using st i True length_blocks(2) [of m]
      by (simp_all add: buf_def p_def MD4_memcpy_def i_def [symmetric] del: length_blocks)
    have f: "md4_fold md4_init_words (m @ b) = md4_fold (MD4Transform (md4_state c) buf) (drop p b)"
    proof -
      have "m @ b = whole_blocks m @ buf @ drop p b"
        using blocks_split [of m] bl(2) by simp
      then show ?thesis
        using bl(1) st(1) by (simp add: md4_fold_append md4_fold_block)
    qed
    define k where "k = length b - (length b - p) mod 64"
    have u: "update_loop (MD4Transform (md4_state c) buf) b p =
        (md4_fold (MD4Transform (md4_state c) buf) (drop p b), k)"
      using update_loop_eq [of p b] True by (simp add: p_def k_def)
    have len: "length m + length b = 64 * (length m div 64) + 64 + (length b - p)"
      using True i(2) by (simp add: p_def i_def)
    then have "length m + length b = (length b - p) + 64 * (length m div 64 + 1)"
      by (simp add: distrib_left)
    then have md: "(length m + length b) mod 64 = (length b - p) mod 64"
      by (simp only: mod_mult_self2)
    have "partial_block (m @ b) = drop k b"
    proof -
      have "64 * ((length m + length b) div 64) = length m + k"
        unfolding minus_mod_eq_mult_div [symmetric] md k_def
        using mod_less_eq_dividend [of "length b - p" 64] by linarith
      then show ?thesis by (simp add: partial_block_def)
    qed
    moreover have "length (drop k b) = (length b - p) mod 64" by (simp add: k_def)
    ultimately show ?thesis
      using True i counts u f bl(1) md md4_fold_blocks [of _ "m @ b"]
        MD4_memcpy_take [of 0 "drop k b" buf]
      by (simp add: md4_represents_def MD4Update_def Let_def c_def [symmetric] p_def [symmetric] st
          buf_def [symmetric] del: of_nat_mult)
  qed
qed

lemma MD4Final_represents:
  assumes r: "md4_represents ctx m"
  shows "MD4Final ctx = md4_ref m"
proof -
  define i where "i = length m mod 64"
  define pad where "pad = take (if i < 56 then 56 - i else 120 - i) PADDING"
  define bits where "bits = Encode [md4_count0 ctx, md4_count1 ctx]"
  have i: "md4_index ctx = i" "i < 64"
    using r md4_index_eq [of ctx "length m"] by (simp_all add: md4_represents_def i_def del: of_nat_mult)
  have "length pad < 2 ^ 32" "length bits < 2 ^ 32"
    by (simp_all add: pad_def PADDING_def bits_def)
  then have "md4_represents (MD4Update (MD4Update ctx pad) bits) ((m @ pad) @ bits)"
    using r MD4Update_represents by blast
  moreover have "(m @ pad) @ bits = md4_pad m"
    using r by (simp add: md4_pad_def Let_def pad_def bits_def i_def md4_represents_def)
  ultimately have "md4_state (MD4Update (MD4Update ctx pad) bits) = md4_fold md4_init_words (md4_pad m)"
    by (simp add: md4_represents_def md4_fold_blocks [of _ "md4_pad m"])
  then show ?thesis
    by (simp add: MD4Final_def Let_def i(1) pad_def [symmetric] bits_def [symmetric] md4_ref_def
        del: Encode.simps)
qed

lemma md4_pad_whole: "length (md4_pad m) mod 64 = 0"
proof -
  define r where "r = length m mod 64"
  have "r < 64" by (simp add: r_def)
  then have "(r + (if r < 56 then 56 - r else 120 - r) + 8) mod 64 = 0" by (simp split: if_splits)
  moreover have "length (md4_pad m) = length m + (if r < 56 then 56 - r else 120 - r) + 8"
    using \<open>r < 64\<close> by (simp add: md4_pad_def Let_def PADDING_def r_def)
  ultimately show ?thesis
    unfolding r_def by (metis (no_types, lifting) add.assoc mod_add_left_eq)
qed

lemma md4_digest_eq:
  "length junk = 64 \<Longrightarrow> length m < 2 ^ 32 \<Longrightarrow> md4_digest junk m = md4_ref m"
  using MD4Final_represents [OF MD4Update_represents [OF MD4Init_represents, of junk m]]
  by (simp add: md4_digest_def)

lemma length_md4_ref [simp]: "length (md4_ref m) = 16"
  by (simp add: md4_ref_def state_list_def split: prod.split)

lemma md4_calc_Ok:
  "length junk = 64 \<Longrightarrow> unat n \<le> length input \<Longrightarrow> md4_calc junk input n = Inr (md4_ref (take (unat n) input))"
proof -
  assume "length junk = 64" "unat n \<le> length input"
  moreover have "unat n < 2 ^ LENGTH(32)" by (rule unsigned_less)
  ultimately show ?thesis by (simp add: md4_calc_def rd_bytes_def md4_digest_eq)
qed

section \<open>Bytes and words\<close>

lemma bit_low_byte: "bit (w AND 0xff) i \<longleftrightarrow> i < 8 \<and> bit (w :: u32) i"
proof -
  have "w AND 0xff = take_bit 8 w" by (simp add: take_bit_eq_mask mask_eq_exp_minus_1)
  then show ?thesis by (simp add: bit_take_bit_iff)
qed

lemma word_of_bytes:
  "((((ucast (ucast (w AND 0xff) :: u8) :: u32) OR push_bit 8 (ucast (ucast (drop_bit 8 w AND 0xff) :: u8)))
     OR push_bit 16 (ucast (ucast (drop_bit 16 w AND 0xff) :: u8)))
     OR push_bit 24 (ucast (ucast (drop_bit 24 w AND 0xff) :: u8))) = (w :: u32)"
proof (rule bit_word_eqI)
  fix n :: nat
  assume "n < LENGTH(32)"
  then consider "n < 8" | "8 \<le> n" "n < 16" | "16 \<le> n" "n < 24" | "24 \<le> n" "n < 32"
    by fastforce
  then show "bit ((((ucast (ucast (w AND 0xff) :: u8) :: u32) OR push_bit 8 (ucast (ucast (drop_bit 8 w AND 0xff) :: u8)))
     OR push_bit 16 (ucast (ucast (drop_bit 16 w AND 0xff) :: u8)))
     OR push_bit 24 (ucast (ucast (drop_bit 24 w AND 0xff) :: u8))) n = bit w n"
    by cases (auto simp: bit_low_byte bit_or_iff bit_push_bit_iff bit_unsigned_iff bit_drop_bit_eq)
qed

lemma Decode_Encode: "Decode (Encode ws) = ws"
  by (induction ws) (simp_all add: word_of_bytes)

section \<open>The compression function of RFC 1320\<close>

text \<open>RFC 1320 gives each round as a table of operations: word \<open>k\<close> of the block and a rotation. An operation
  replaces the first register; the registers then take turns.\<close>

type_synonym md4_op = "u32 \<Rightarrow> u32 \<Rightarrow> u32 \<Rightarrow> u32 \<Rightarrow> u32 \<Rightarrow> nat \<Rightarrow> u32"

definition rfc_step :: "md4_op \<Rightarrow> u32 list \<Rightarrow> nat \<times> nat \<Rightarrow> md4_words \<Rightarrow> md4_words" where
  "rfc_step f x ks = (\<lambda>(a, b, c, d). (d, f a b c d (x ! fst ks) (snd ks), b, c))"

definition rfc_round :: "md4_op \<Rightarrow> u32 list \<Rightarrow> nat list \<Rightarrow> nat list \<Rightarrow> md4_words \<Rightarrow> md4_words" where
  "rfc_round f x ks ss = fold (rfc_step f x) (zip ks (concat (replicate 4 ss)))"

definition rfc_transform :: "md4_words \<Rightarrow> u32 list \<Rightarrow> md4_words" where
  "rfc_transform st x =
     (let st' = rfc_round HH x [0, 8, 4, 12, 2, 10, 6, 14, 1, 9, 5, 13, 3, 11, 7, 15] [3, 9, 11, 15]
          (rfc_round GG x [0, 4, 8, 12, 1, 5, 9, 13, 2, 6, 10, 14, 3, 7, 11, 15] [3, 5, 9, 13]
          (rfc_round FF x [0..<16] [3, 7, 11, 19] st))
      in case st of (a, b, c, d) \<Rightarrow> case st' of (a', b', c', d') \<Rightarrow> (a + a', b + b', c + c', d + d'))"

text \<open>One group of four operations, as the code writes it.\<close>

definition md4_quad :: "md4_op \<Rightarrow> u32 list \<Rightarrow> nat list \<Rightarrow> nat list \<Rightarrow> md4_words \<Rightarrow> md4_words" where
  "md4_quad f x k s = (\<lambda>(a, b, c, d). let
     a = f a b c d (x ! (k ! 0)) (s ! 0); d = f d a b c (x ! (k ! 1)) (s ! 1);
     c = f c d a b (x ! (k ! 2)) (s ! 2); b = f b c d a (x ! (k ! 3)) (s ! 3)
     in (a, b, c, d))"

lemma md4_quad_rfc:
  "md4_quad f x [k0, k1, k2, k3] [s0, s1, s2, s3] st =
     fold (rfc_step f x) [(k0, s0), (k1, s1), (k2, s2), (k3, s3)] st"
  by (cases st) (simp add: md4_quad_def rfc_step_def Let_def)

lemma md4_quad_let:
  "md4_quad f x k s (a, b, c, d) = (let
     a = f a b c d (x ! (k ! 0)) (s ! 0); d = f d a b c (x ! (k ! 1)) (s ! 1);
     c = f c d a b (x ! (k ! 2)) (s ! 2); b = f b c d a (x ! (k ! 3)) (s ! 3)
     in (a, b, c, d))"
  by (simp add: md4_quad_def)

lemma rfc_round_quads:
  "rfc_round f x [k0, k1, k2, k3, k4, k5, k6, k7, k8, k9, k10, k11, k12, k13, k14, k15] [s0, s1, s2, s3] st =
     md4_quad f x [k12, k13, k14, k15] [s0, s1, s2, s3] (md4_quad f x [k8, k9, k10, k11] [s0, s1, s2, s3]
     (md4_quad f x [k4, k5, k6, k7] [s0, s1, s2, s3] (md4_quad f x [k0, k1, k2, k3] [s0, s1, s2, s3] st)))"
  by (simp only: md4_quad_rfc rfc_round_def) (simp add: numeral_eq_Suc)

lemma md4_round1_quads:
  "md4_round1 x st = md4_quad FF x [12, 13, 14, 15] [3, 7, 11, 19]
     (md4_quad FF x [8, 9, 10, 11] [3, 7, 11, 19]
     (md4_quad FF x [4, 5, 6, 7] [3, 7, 11, 19]
     (md4_quad FF x [0, 1, 2, 3] [3, 7, 11, 19] st)))"
  by (cases st) (simp only: md4_round1_def prod.case md4_quad_let Let_def nth_Cons_0 nth_Cons_Suc numeral_nat One_nat_def)

lemma md4_round2_quads:
  "md4_round2 x st = md4_quad GG x [3, 7, 11, 15] [3, 5, 9, 13]
     (md4_quad GG x [2, 6, 10, 14] [3, 5, 9, 13]
     (md4_quad GG x [1, 5, 9, 13] [3, 5, 9, 13]
     (md4_quad GG x [0, 4, 8, 12] [3, 5, 9, 13] st)))"
  by (cases st) (simp only: md4_round2_def prod.case md4_quad_let Let_def nth_Cons_0 nth_Cons_Suc numeral_nat One_nat_def)

lemma md4_round3_quads:
  "md4_round3 x st = md4_quad HH x [3, 11, 7, 15] [3, 9, 11, 15]
     (md4_quad HH x [1, 9, 5, 13] [3, 9, 11, 15]
     (md4_quad HH x [2, 10, 6, 14] [3, 9, 11, 15]
     (md4_quad HH x [0, 8, 4, 12] [3, 9, 11, 15] st)))"
  by (cases st) (simp only: md4_round3_def prod.case md4_quad_let Let_def nth_Cons_0 nth_Cons_Suc numeral_nat One_nat_def)

lemmas md4_round_quads = md4_round1_quads md4_round2_quads md4_round3_quads

text \<open>C12: The macro-expanded compression function of the code, three rounds of sixteen assignments to \<open>a\<close>, \<open>b\<close>,
  \<open>c\<close>, \<open>d\<close>, is the table-driven one of RFC 1320, on every state and block.\<close>

theorem MD4Transform_rfc: "MD4Transform st block = rfc_transform st (Decode block)"
proof -
  have "[0..<16] = [0, 1, 2, 3, 4, 5, 6, 7, 8, 9, 10, 11, 12, 13, 14, 15 :: nat]"
    by (simp add: upt_rec)
  then show ?thesis
    by (simp only: MD4Transform_def rfc_transform_def rfc_round_quads md4_round_quads Let_def)
qed

section \<open>Streaming\<close>

text \<open>The contract of a digest that takes its input in pieces: a context represents what it has been fed.\<close>

locale streaming_digest =
  fixes start :: "'ctx"
    and feed :: "'ctx \<Rightarrow> bytes \<Rightarrow> 'ctx"
    and finish :: "'ctx \<Rightarrow> bytes"
    and represents :: "'ctx \<Rightarrow> bytes \<Rightarrow> bool"
    and digest :: "bytes \<Rightarrow> bytes"
    and max_piece :: nat
  assumes start_empty: "represents start []"
    and feed_appends: "represents ctx m \<Longrightarrow> length b < max_piece \<Longrightarrow> represents (feed ctx b) (m @ b)"
    and finish_digests: "represents ctx m \<Longrightarrow> finish ctx = digest m"
begin

lemma feed_all:
  "represents ctx m \<Longrightarrow> \<forall>b \<in> set bs. length b < max_piece \<Longrightarrow> represents (foldl feed ctx bs) (m @ concat bs)"
proof (induction bs arbitrary: ctx m)
  case (Cons b bs)
  then show ?case using feed_appends [of ctx m b] Cons.IH [of "feed ctx b" "m @ b"] by simp
qed simp

lemma digest_of_pieces:
  "\<forall>b \<in> set bs. length b < max_piece \<Longrightarrow> finish (foldl feed start bs) = digest (concat bs)"
  using finish_digests [OF feed_all [OF start_empty]] by simp

end

text \<open>The code's context, with whatever the buffer of 64 bytes held before.\<close>

interpretation md4: streaming_digest "MD4Init (replicate 64 junk)" MD4Update MD4Final md4_represents md4_ref "2 ^ 32"
  by unfold_locales (simp_all add: MD4Init_represents MD4Update_represents MD4Final_represents)

text \<open>C13: However a message is cut into pieces, and whatever the uninitialised buffer held, feeding the pieces to
  \<open>MD4Update\<close> and calling \<open>MD4Final\<close> gives the digest of the whole message as it is specified: the padded
  message folded block by block. The carry between the two bit counters and the partial blocks do not
  show.\<close>

theorem md4_pieces:
  assumes "\<forall>b \<in> set bs. length b < 2 ^ 32"
  shows "MD4Final (foldl MD4Update (MD4Init (replicate 64 junk)) bs) = md4_ref (concat bs)"
  using assms by (rule md4.digest_of_pieces)

theorem md4_pieces_witness:
  "MD4Final (foldl MD4Update (MD4Init (replicate 64 7)) [replicate 60 1, [], replicate 70 2]) =
     md4_ref (replicate 60 1 @ replicate 70 2)"
  using md4_pieces [of "[replicate 60 1, [], replicate 70 2]" 7] by simp

end
