(* ===== verification/EapLeap.thy ===== *)
theory EapLeap
  imports EapMethod Mschapv2 Md4 Samples
begin

text \<open>
  LEAP (\<open>eap_types/leap/eapleap.c\<close>). The method answers the server's challenge, challenges the access
  point with an EAP request of its own, checks the answer and derives session keys. Its challenges
  live in file-scope variables, here the \<open>leap_globals\<close> passed through each call. \<open>malloc\<close> may give
  more bytes than asked for; \<open>heap_slack\<close> counts them. A frame is read from five bytes before the data
  pointer, where the dispatcher normally leaves the EAP header.
\<close>

section \<open>Password hashes\<close>

fun unicode_loop :: "cstr \<Rightarrow> nat \<Rightarrow> nat \<Rightarrow> bytes \<Rightarrow> bytes res" where
  "unicode_loop pw i 0 arr = Ok arr"
| "unicode_loop pw i (Suc n) arr =
     bindR (rd8 pw i) (\<lambda>b.
     bindR (wr8 arr (2 * i) b) (\<lambda>arr.
     bindR (wr8 arr (2 * i + 1) 0) (\<lambda>arr.
     unicode_loop pw (Suc i) n arr)))"

text \<open>The length of the password is kept in a \<open>char\<close>, which is signed.\<close>

definition passLen :: "cstr \<Rightarrow> int" where
  "passLen pw = sint (of_nat (length pw) :: u8)"

definition ntPwdHash :: "env \<Rightarrow> cstr \<Rightarrow> bytes res" where
  "ntPwdHash env pw =
     bindR (unicode_loop pw 0 (nat (passLen pw)) (take 513 (stack_junk env))) (\<lambda>unicodePass.
     md4_calc (take 64 (stack_junk env)) unicodePass (word_of_int (passLen pw * 2)))"

text \<open>The array for the hash stays uninitialised when there is no password.\<close>

definition leap_hash_hash :: "env \<Rightarrow> cstr option \<Rightarrow> bytes res" where
  "leap_hash_hash env pw =
     bindR (init_val pw) (\<lambda>pw.
     bindR (ntPwdHash env pw) (\<lambda>h.
     md4_calc (take 64 (stack_junk env)) h 16))"

definition leap_mschap :: "env \<Rightarrow> leap_globals \<Rightarrow> cstr option \<Rightarrow> bytes \<Rightarrow> bytes res" where
  "leap_mschap env G pw response =
     (if pw = None then Ok response
      else bindR (leap_hash_hash env pw) (\<lambda>hh.
        if \<not> leapchallenges G then Fault NullDeref
        else bindR (init_val (leap_apc G)) (\<lambda>apc.
        ChallengeResponse (crypt env) apc hh)))"

section \<open>The method\<close>

abbreviation LEAP_LENGTH :: u8 where "LEAP_LENGTH \<equiv> 8"

definition eapleap_setup :: eap_setup where
  "eapleap_setup env g =
     (if malloc_ok env AMethodState
      then (g\<lparr>eap_data := Some (LeapData \<lparr>leap_keyingMaterial = None, leap_eapsuccess = FALSE\<rparr>)\<rparr>, XENONE)
      else (g, XEMALLOC))"

definition leap_conf :: "generic_eap_data \<Rightarrow> user_pass res" where
  "leap_conf g = bindR (deref (eap_conf_data g)) (\<lambda>c.
     case c of ConfLeap u \<Rightarrow> Ok u | _ \<Rightarrow> Fault BadCast)"

definition leap_state :: "generic_eap_data \<Rightarrow> leap_data res" where
  "leap_state g = bindR (deref (eap_data g)) (\<lambda>d.
     case d of LeapData v \<Rightarrow> Ok v | _ \<Rightarrow> Fault BadCast)"

text \<open>Building an answer in a \<open>malloc\<close>ed buffer: three bytes, the challenge response, and the user name
  with its terminator; \<open>total_length\<close> of it is copied to the frame. The store at \<open>strlen(answer)\<close> that
  follows writes the zero of byte 1 again.\<close>

definition leap_total_length :: "nat \<Rightarrow> cstr \<Rightarrow> nat" where
  "leap_total_length count un = count + 2 + length un + 1"

definition leap_answer :: "env \<Rightarrow> nat \<Rightarrow> bytes \<Rightarrow> cstr \<Rightarrow> bytes res" where
  "leap_answer env count resp un =
     bindR (wr_bytes (replicate (leap_total_length count un + heap_slack env) 0) 0
              ([1, 0, of_nat count] @ resp @ un @ [0])) (\<lambda>answer.
     rd_bytes answer 0 (leap_total_length count un))"

definition nt_response_or ::
  "env \<Rightarrow> bytes \<Rightarrow> cstr option \<Rightarrow> bytes \<Rightarrow> bytes res" where
  "nt_response_or env chal pw old =
     (case pw of None \<Rightarrow> Ok old | Some pw \<Rightarrow> NtChallengeResponse (crypt env) chal pw)"

text \<open>An EAP request carries the server's challenge.\<close>

definition eapleap_request ::
  "env \<Rightarrow> leap_globals \<Rightarrow> generic_eap_data \<Rightarrow> user_pass \<Rightarrow> cstr option \<Rightarrow> ptr \<Rightarrow> bytes \<Rightarrow> nat \<Rightarrow> int \<Rightarrow>
     eap_result res" where
  "eapleap_request env G g u uname p out ob outsize =
     (if \<not> malloc_ok env ALeapChallenges \<or> \<not> malloc_ok env ALeapRequest then Fault NullDeref
      else bindR (rdp_bytes p 0 16) (\<lambda>req.
      let pc = take 8 (drop 3 req);
          G = G\<lparr>leaprequest := Some req, leapchallenges := True, leap_pc := Some pc, leap_pr := None,
                leap_apc := None, leap_apr := None\<rparr> in
      if req ! 2 \<noteq> LEAP_LENGTH then Ok (XELEAP, G, g, out, outsize)
      else bindR (nt_response_or env pc (password u) (replicate 24 0)) (\<lambda>resp.
      let G = G\<lparr>leap_pr := Some resp\<rparr> in
      bindR (deref uname) (\<lambda>un.
      if \<not> malloc_ok env AAnswer then Ok (XEMALLOC, G, g, out, outsize)
      else bindR (leap_answer env 24 resp un) (\<lambda>answer.
      bindR (wr_bytes out ob answer) (\<lambda>out.
      Ok (XENONE, G, g, out, int (leap_total_length 24 un))))))))"

text \<open>The EAP success starts the check of the access point, with an EAP request of ours.\<close>

definition leap_ap_challenge ::
  "env \<Rightarrow> leap_globals \<Rightarrow> generic_eap_data \<Rightarrow> bytes \<Rightarrow> bytes \<Rightarrow> cstr option \<Rightarrow> bytes \<Rightarrow> nat \<Rightarrow> int \<Rightarrow>
     eap_result res" where
  "leap_ap_challenge env G g req apc uname out ob outsize =
     (let G = G\<lparr>leap_apc := Some apc\<rparr> in
     bindR (deref uname) (\<lambda>un.
     if \<not> malloc_ok env AAnswer then Ok (XEMALLOC, G, g, out, outsize)
     else bindR (leap_answer env 8 apc un) (\<lambda>answer.
     bindR (wr_bytes out ob answer) (\<lambda>out.
     Ok (XENONE, G\<lparr>leaprequest := Some (take 3 req @ apc @ drop 11 req)\<rparr>, g, out,
         int (leap_total_length 8 un))))))"

text \<open>\<open>GenerateNTResponse\<close> is given \<open>pc\<close>, of 8 bytes, as a 16-byte challenge: it reads on into \<open>pr\<close>, which
  follows it in the struct. Its guard leaves the response alone when a pointer is null.\<close>

definition eapleap_success ::
  "env \<Rightarrow> leap_globals \<Rightarrow> generic_eap_data \<Rightarrow> user_pass \<Rightarrow> cstr option \<Rightarrow> bytes \<Rightarrow> nat \<Rightarrow> int \<Rightarrow>
     eap_result res" where
  "eapleap_success env G g u uname out ob outsize =
     bindR (deref (leaprequest G)) (\<lambda>req.
     if \<not> leapchallenges G then Fault NullDeref
     else bindR (init_val (leap_pc G)) (\<lambda>pc.
     bindR (case (password u, uname) of
              (Some pw, Some un) \<Rightarrow>
                bindR (init_val (leap_pr G)) (\<lambda>pr. GenerateNTResponse (crypt env) pr (pc @ pr) un pw)
            | _ \<Rightarrow> nt_response_or env (take 8 (drop 3 req)) (password u) (replicate 8 0)) (\<lambda>resp.
     leap_ap_challenge env G g req (take 8 resp) uname out ob outsize)))"

definition leap_keying :: "env \<Rightarrow> leap_globals \<Rightarrow> cstr option \<Rightarrow> bytes \<Rightarrow> bytes res" where
  "leap_keying env G pw apr =
     bindR (leap_hash_hash env pw) (\<lambda>hh.
     bindR (init_val (leap_apc G)) (\<lambda>apc.
     bindR (init_val (leap_pc G)) (\<lambda>pc.
     bindR (init_val (leap_pr G)) (\<lambda>pr.
     bindR (GetMasterLEAPKey (crypt env) hh apc apr pc pr) (\<lambda>mk.
     bindR (GetAsymetricStartKey (crypt env) mk 16 TRUE FALSE) (\<lambda>send.
     bindR (GetAsymetricStartKey (crypt env) mk 16 FALSE FALSE) (\<lambda>recv.
     Ok (send @ replicate 16 0 @ recv @ replicate 16 0))))))))"

text \<open>The access point's answer. The comparison reads 24 bytes of a copy that holds as many as the
  packet's count field says.\<close>

definition eapleap_response ::
  "env \<Rightarrow> leap_globals \<Rightarrow> generic_eap_data \<Rightarrow> leap_data \<Rightarrow> user_pass \<Rightarrow> ptr \<Rightarrow> bytes \<Rightarrow> int \<Rightarrow>
     eap_result res" where
  "eapleap_response env G g d u p out outsize =
     bindR (rdp8 p 2) (\<lambda>count.
     if \<not> malloc_ok env ALeapGot then Fault NullDeref
     else bindR (rdp_bytes p 3 (unat count)) (\<lambda>got.
     bindR (rdp_bytes p 3 24) (\<lambda>apr.
     if \<not> leapchallenges G then Fault NullDeref
     else let G = G\<lparr>leap_apr := Some apr\<rparr> in
     bindR (leap_mschap env G (password u) (replicate 24 0)) (\<lambda>expected.
     bindR (rd_bytes got 0 24) (\<lambda>got.
     if got \<noteq> expected then Ok (XELEAP, G, g, out, - 1)
     else bindR (leap_keying env G (password u) apr) (\<lambda>km.
     if \<not> malloc_ok env AKeyingMaterial then
       Ok (XEMALLOC, G,
           g\<lparr>eap_data := Some (LeapData (d\<lparr>leap_eapsuccess := TRUE, leap_keyingMaterial := None\<rparr>))\<rparr>, out, 0)
     else
       Ok (XENONE, G,
           g\<lparr>eap_data := Some (LeapData (d\<lparr>leap_eapsuccess := TRUE, leap_keyingMaterial := Some km\<rparr>))\<rparr>,
           out, 0)))))))"

definition eapleap_process :: eap_process where
  "eapleap_process env G g dataoffs insize out ob outsize =
     (if eap_conf_data g = None \<or> eap_data g = None then Ok (XEMALLOC, G, g, out, outsize)
      else bindR (leap_conf g) (\<lambda>u.
      bindR (leap_state g) (\<lambda>d.
      if tempPwd g = None \<and> password u = None then
        Ok (XENONE, G, ask_password ''LEAP'' None g, out, 0)
      else case dataoffs of None \<Rightarrow> Ok (XENONE, G, g, out, outsize) | Some p \<Rightarrow>
      let uname = (if username u = None then identity g else username u) in
      if snd p < 5 then Fault OutOfBounds
      else bindR (rd8 (fst p) (snd p - 5)) (\<lambda>code.
      if code = EAP_REQUEST then eapleap_request env G g u uname p out ob outsize
      else if code = EAP_SUCCESS then eapleap_success env G g u uname out ob outsize
      else if code = EAP_RESPONSE then eapleap_response env G g d u p out outsize
      else Ok (XENONE, G, g, out, outsize)))))"

text \<open>The interface gets the method's own pointer, not a copy. Cleaning up frees it and the method data
  without clearing the pointers; the caller then frees the whole method, and the model lets the
  interface keep the bytes.\<close>

definition eapleap_get_keys :: "env \<Rightarrow> interface_data \<Rightarrow> (interface_data \<times> int) res" where
  "eapleap_get_keys env s =
     bindR (deref (userdata s)) (\<lambda>u.
     case activemethod u of None \<Rightarrow> Ok (s, - 1) | Some g \<Rightarrow>
     bindR (leap_state g) (\<lambda>d. Ok (s\<lparr>keyingMaterial := leap_keyingMaterial d\<rparr>, 0)))"

definition eapleap_done :: "generic_eap_data \<Rightarrow> int res" where
  "eapleap_done g = bindR (leap_state g) (\<lambda>d. Ok (leap_eapsuccess d))"

definition eapleap_cleanup :: eap_cleanup where
  "eapleap_cleanup g = bindR (leap_state g) (\<lambda>d. Ok (g, XENONE))"

section \<open>The method contract\<close>

lemma leap_answer_length: "leap_answer env c r un = Inr a \<Longrightarrow> leap_total_length c un = length a"
  by (auto simp: leap_answer_def elim!: bindR_InrE dest: rd_bytes_length)

text \<open>What each packet does to the output; none of them touches the dispatcher's fields.\<close>

definition leap_out :: "bytes \<Rightarrow> nat \<Rightarrow> int \<Rightarrow> bytes \<Rightarrow> int \<Rightarrow> bool" where
  "leap_out out ob n out' n' \<longleftrightarrow>
     out' = out \<and> (n' = n \<or> n' \<le> 0) \<or>
     (\<exists>a. wr_bytes out ob a = Inr out' \<and> n' = int (length a))"

lemma leap_out_frame:
  assumes "leap_out out ob n out' n'"
  shows "length out' = length out \<and> take ob out' = take ob out \<and>
    (n' = n \<or> n' \<le> int (length out) - int ob \<or> n' \<le> 0)"
proof (cases "out' = out \<and> (n' = n \<or> n' \<le> 0)")
  case False
  then obtain a where a: "wr_bytes out ob a = Inr out'" "n' = int (length a)"
    using assms by (auto simp: leap_out_def)
  then show ?thesis
    using wr_bytes_take [OF a(1), of ob] by (auto simp: wr_bytes_length) (simp add: wr_bytes_eq_Inr)
qed auto

lemma leap_out_same [simp]: "leap_out out ob n out n" "leap_out out ob n out 0" "leap_out out ob n out (- 1)"
  by (simp_all add: leap_out_def)

lemma leap_outI: "wr_bytes out ob a = Inr out' \<Longrightarrow> leap_out out ob n out' (int (length a))"
  by (auto simp: leap_out_def)

lemma eapleap_request_frame:
  assumes "eapleap_request env G g u uname p out ob n = Inr (rc, G', g', out', n')"
  shows "g' = g \<and> leap_out out ob n out' n'"
  using assms unfolding eapleap_request_def Let_def
  by (auto split: if_splits elim!: bindR_InrE dest!: leap_answer_length intro!: leap_outI)

lemma leap_ap_challenge_frame:
  assumes "leap_ap_challenge env G g req apc uname out ob n = Inr (rc, G', g', out', n')"
  shows "g' = g \<and> leap_out out ob n out' n'"
  using assms unfolding leap_ap_challenge_def Let_def
  by (auto split: if_splits elim!: bindR_InrE dest!: leap_answer_length intro!: leap_outI)

lemma eapleap_success_frame:
  assumes "eapleap_success env G g u uname out ob n = Inr (rc, G', g', out', n')"
  shows "g' = g \<and> leap_out out ob n out' n'"
  using assms unfolding eapleap_success_def
  by (auto split: if_splits elim!: bindR_InrE dest: leap_ap_challenge_frame)

lemma eapleap_response_frame:
  assumes "eapleap_response env G g d u p out n = Inr (rc, G', g', out', n')"
  shows "same_request g g' \<and> need_password g' = need_password g \<and> out' = out \<and> n' \<le> 0"
  using assms unfolding eapleap_response_def Let_def same_request_def
  by (auto split: if_splits elim!: bindR_InrE)

lemma eapleap_process_frame:
  assumes "eapleap_process env G g dataoffs insize out ob n = Inr (rc, G', g', out', n')"
  shows "leap_out out ob n out' n' \<and> same_request g g' \<and>
    (need_password g' = need_password g \<or> need_password g' = 1 \<and> out' = out \<and> n' = 0 \<and> eaptype g' \<noteq> None)"
  using assms unfolding eapleap_process_def Let_def
  by (auto split: if_splits option.splits elim!: bindR_InrE
      dest!: eapleap_request_frame eapleap_success_frame eapleap_response_frame)
    (simp_all add: leap_out_def)

interpretation leap: eap_method eapleap_setup eapleap_process
proof
  fix env g g' rc
  show "eapleap_setup env g = (g', rc) \<Longrightarrow> g' = g\<lparr>eap_data := eap_data g'\<rparr>"
    by (auto simp: eapleap_setup_def split: if_splits)
  show "eapleap_setup env g = (g', XENONE) \<Longrightarrow> eap_data g' \<noteq> None"
    by (auto simp: eapleap_setup_def split: if_splits)
next
  fix env G g data insize out ob n rc G' g' out' n'
  assume "eapleap_process env G g data insize out ob n = Inr (rc, G', g', out', n')"
  note f = eapleap_process_frame [OF this]
  from f show "same_request g g'" by blast
  from f show "need_password g' = need_password g \<or>
      need_password g' = 1 \<and> out' = out \<and> n' = 0 \<and> eaptype g' \<noteq> None" by blast
  from f show "length out' = length out" and "take ob out' = take ob out"
    and "n' = n \<or> n' \<le> int (length out) - int ob \<or> n' \<le> 0"
    using leap_out_frame by blast+
qed

interpretation leap_keys: eap_keyed_method eapleap_setup eapleap_process eapleap_get_keys
proof
  show "eapleap_get_keys env s = Inr (s', rc) \<Longrightarrow> s' = s\<lparr>keyingMaterial := keyingMaterial s'\<rparr>" for env s s' rc
    by (auto simp: eapleap_get_keys_def split: option.splits if_splits elim!: bindR_InrE)
qed

section \<open>What the method computes\<close>

lemma unicode_loop_Ok:
  "i + n \<le> length pw \<Longrightarrow> length pre = 2 * i \<Longrightarrow> length old = 2 * n \<Longrightarrow>
     unicode_loop pw i n (pre @ old @ post) = Inr (pre @ utf16 (take n (drop i pw)) @ post)"
proof (induction n arbitrary: i pre old)
  case 0
  then show ?case by (simp add: utf16_def)
next
  case (Suc n)
  then obtain x y old' where old: "old = x # y # old'" by (cases old; cases "tl old") auto
  have d: "take (Suc n) (drop i pw) = pw ! i # take n (drop (Suc i) pw)"
    using Suc.prems by (simp add: Cons_nth_drop_Suc [symmetric])
  have "unicode_loop pw i (Suc n) (pre @ old @ post)
      = unicode_loop pw (Suc i) n ((pre @ [pw ! i, 0]) @ old' @ post)"
    using Suc.prems by (simp add: old rd8_def wr8_Ok list_update_append)
  also have "\<dots> = Inr ((pre @ [pw ! i, 0]) @ utf16 (take n (drop (Suc i) pw)) @ post)"
    using Suc.prems by (intro Suc.IH) (simp_all add: old)
  finally show ?case unfolding d by (simp add: utf16_def)
qed

lemma passLen_eq:
  assumes "length pw \<le> 255"
  shows "passLen pw = (int (length pw) + 128) mod 256 - 128"
proof -
  have "uint (of_nat (length pw) :: u8) = int (length pw)"
    using assms by (simp add: unsigned_of_nat take_bit_nat_eq_self)
  then show ?thesis
    by (simp add: passLen_def sint_uint signed_take_bit_eq_take_bit_shift take_bit_eq_mod)
qed

lemma passLen_short: "length pw \<le> 127 \<Longrightarrow> passLen pw = int (length pw)"
  by (subst passLen_eq) (simp_all add: mod_pos_pos_trivial)

lemma mod_once_over: "m \<le> x \<Longrightarrow> x < 2 * m \<Longrightarrow> x mod m = x - m" for x m :: int
  using mod_pos_pos_trivial [of "x - m" m] by simp

lemma mod_once_under: "- m \<le> x \<Longrightarrow> x < 0 \<Longrightarrow> x mod m = x + m" for x m :: int
  using mod_pos_pos_trivial [of "x + m" m] by simp

lemma passLen_long: "128 \<le> length pw \<Longrightarrow> length pw \<le> 255 \<Longrightarrow> passLen pw = int (length pw) - 256"
  by (subst passLen_eq) (simp_all add: mod_once_over)

lemma ntPwdHash_short:
  assumes "env_ok env" and "length pw \<le> 127"
  shows "ntPwdHash env pw = Inr (md4_ref (utf16 pw))"
proof -
  let ?l = "length pw"
  define arr where "arr = take 513 (stack_junk env)"
  have arr: "length arr = 513" "length (take 64 (stack_junk env)) = 64"
    using assms(1) by (simp_all add: env_ok_def arr_def)
  have "unicode_loop pw 0 ?l arr = Inr (utf16 pw @ drop (2 * ?l) arr)"
    using unicode_loop_Ok [of 0 ?l pw "[]" "take (2 * ?l) arr" "drop (2 * ?l) arr"] arr(1) assms(2) by simp
  moreover have "unat (word_of_int (passLen pw * 2) :: u32) = 2 * ?l"
    unfolding passLen_short [OF assms(2)] unat_eq_nat_uint uint_word_of_int
    using assms(2) by (simp add: mod_pos_pos_trivial nat_mult_distrib)
  ultimately show ?thesis
    using assms(2) arr(1) md4_calc_Ok [OF arr(2), of "word_of_int (passLen pw * 2)" "utf16 pw @ drop (2 * ?l) arr"]
    by (simp add: ntPwdHash_def passLen_short arr_def)
qed



definition leap_ready :: "generic_eap_data \<Rightarrow> leap_data \<Rightarrow> cstr \<Rightarrow> cstr option \<Rightarrow> bool" where
  "leap_ready g d un pw \<longleftrightarrow> eap_data g = Some (LeapData d) \<and>
     eap_conf_data g = Some (ConfLeap \<lparr>username = Some un, password = pw\<rparr>) \<and> (pw \<noteq> None \<or> tempPwd g \<noteq> None)"

lemma eapleap_process_ready:
  "leap_ready g d un pw \<Longrightarrow> rd8 f (off - 5) = Inr code \<Longrightarrow> 5 \<le> off \<Longrightarrow>
     eapleap_process env G g (Some (f, off)) k out ob n =
      (let u = \<lparr>username = Some un, password = pw\<rparr> in
       if code = EAP_REQUEST then eapleap_request env G g u (Some un) (f, off) out ob n
       else if code = EAP_SUCCESS then eapleap_success env G g u (Some un) out ob n
       else if code = EAP_RESPONSE then eapleap_response env G g d u (f, off) out n
       else Ok (XENONE, G, g, out, n))"
  by (auto simp: leap_ready_def eapleap_process_def leap_conf_def leap_state_def Let_def)

lemma leap_answer_eq:
  assumes "length resp = count"
  shows "leap_answer env count resp un =
    (if heap_slack env = 0 then Inl Overflow else Inr ([1, 0, of_nat count] @ resp @ un))"
  using assms by (simp add: leap_answer_def leap_total_length_def wr_bytes_def rd_bytes_def)

text \<open>C30: The answer to a LEAP challenge: version, a reserved byte, the count 24, the challenge response under the
  configured password and the user name. Two defects show. The buffer is one byte short, so on a heap
  without slack the terminator overflows it. And a password the user typed is not used: without one in
  the configuration the response is 24 zero bytes.\<close>

theorem leap_answers_challenge:
  assumes "env_ok env" and "\<forall>a. malloc_ok env a" and "leap_ready g d un pw"
    and "rd8 f (off - 5) = Inr EAP_REQUEST" and "5 \<le> off" and "rdp_bytes (f, off) 0 16 = Inr req"
    and "req ! 2 = LEAP_LENGTH" and "ob + 27 + length un \<le> length out"
    and "resp = (case pw of None \<Rightarrow> replicate 24 0 |
      Some w \<Rightarrow> challenge_response (crypt env) (take 8 (drop 3 req)) (NtPasswordHash (crypt env) w))"
  shows "if heap_slack env = 0 then eapleap_process env G g (Some (f, off)) k out ob n = Inl Overflow
    else \<exists>out'. eapleap_process env G g (Some (f, off)) k out ob n =
        Inr (XENONE, G\<lparr>leaprequest := Some req, leapchallenges := True, leap_pc := Some (take 8 (drop 3 req)),
          leap_pr := Some resp, leap_apc := None, leap_apr := None\<rparr>, g, out', 27 + int (length un)) \<and>
      take (27 + length un) (drop ob out') = [1, 0, 24] @ resp @ un"
proof -
  have c: "crypto_sizes (crypt env)" using assms(1) by (simp add: env_ok_def)
  have l: "length req = 16" using assms(6) by (auto simp: rdp_bytes_def dest: rd_bytes_length)
  have "nt_response_or env (take 8 (drop 3 req)) pw (replicate 24 0) = Inr resp"
    using l length_NtPasswordHash [OF c] unfolding assms(9)
    by (auto simp: nt_response_or_def NtChallengeResponse_def ChallengeResponse_Ok split: option.split)
  moreover have r: "length resp = 24"
    unfolding assms(9) using length_challenge_response [OF c] by (auto split: option.split)
  moreover obtain out' where out': "wr_bytes out ob ([1, 0, 24] @ resp @ un) = Inr out'"
    using r assms(8) wr_bytes_total [of ob "[1, 0, 24] @ resp @ un" out] by auto
  moreover have "length ([1, 0, 24] @ resp @ un) = 27 + length un" using r by simp
  then have "take (27 + length un) (drop ob out') = [1, 0, 24] @ resp @ un"
    using wr_bytes_same [OF out'] by metis
  ultimately show ?thesis
    using assms(2,6,7) eapleap_process_ready [OF assms(3-5)]
    by (auto simp: eapleap_request_def leap_answer_eq leap_total_length_def Let_def)
qed

text \<open>The keying material of a successful exchange.\<close>

definition leap_session_keys :: "crypto \<Rightarrow> cstr \<Rightarrow> bytes \<Rightarrow> bytes \<Rightarrow> bytes \<Rightarrow> bytes \<Rightarrow> bytes" where
  "leap_session_keys c pw apc apr pc pr =
     (let mk = take 16 (MD5 c (md4_ref (md4_ref (utf16 pw)) @ apc @ apr @ pc @ pr));
          key = (\<lambda>magic. take 16 (SHA1 c (mk @ SHSpad1 @ magic @ SHSpad2)))
      in key MagicClientSend @ replicate 16 0 @ key MagicClientRecv @ replicate 16 0)"

lemma leap_hash_hash_Ok:
  assumes "env_ok env" and "length pw \<le> 127"
  shows "leap_hash_hash env (Some pw) = Inr (md4_ref (md4_ref (utf16 pw)))"
proof -
  have "length (take 64 (stack_junk env)) = 64" using assms(1) by (simp add: env_ok_def)
  from md4_calc_Ok [OF this, of 16 "md4_ref (utf16 pw)"] show ?thesis
    using ntPwdHash_short [OF assms] by (simp add: leap_hash_hash_def)
qed

lemma leap_keying_Ok:
  assumes "env_ok env" and "length pw \<le> 127" and "leap_apc G = Some apc" and "leap_pc G = Some pc" and "leap_pr G = Some pr"
    and "length apc = 8" and "length apr = 24" and "length pc = 8" and "length pr = 24"
  shows "leap_keying env G (Some pw) apr = Inr (leap_session_keys (crypt env) pw apc apr pc pr)"
  using assms by (simp add: leap_keying_def leap_hash_hash_Ok GetMasterLEAPKey_def rd_bytes_def
      GetAsymetricStartKey_def env_ok_def crypto_sizes_def leap_session_keys_def Let_def)

text \<open>C19: The client authenticates the access point: it accepts exactly the response to its own challenge under the
  twice hashed password. Only then is the method done and the session keys are derived, from the password
  and both exchanges; otherwise the method data stay as they were and the size is set to -1.\<close>

theorem leap_checks_access_point:
  assumes "env_ok env" and "\<forall>a. malloc_ok env a" and "leap_ready g d un (Some pw)" and "length pw \<le> 127"
    and "leapchallenges G" and "leap_apc G = Some apc" and "leap_pc G = Some pc" and "leap_pr G = Some pr"
    and "length apc = 8" and "length pc = 8" and "length pr = 24"
    and "rd8 f (off - 5) = Inr EAP_RESPONSE" and "5 \<le> off"
    and "rdp8 (f, off) 2 = Inr 24" and "rdp_bytes (f, off) 3 24 = Inr apr"
  shows "eapleap_process env G g (Some (f, off)) k out ob n =
    (if apr = challenge_response (crypt env) apc (md4_ref (md4_ref (utf16 pw)))
     then Inr (XENONE, G\<lparr>leap_apr := Some apr\<rparr>, g\<lparr>eap_data := Some (LeapData (d\<lparr>leap_eapsuccess := TRUE,
       leap_keyingMaterial := Some (leap_session_keys (crypt env) pw apc apr pc pr)\<rparr>))\<rparr>, out, 0)
     else Inr (XELEAP, G\<lparr>leap_apr := Some apr\<rparr>, g, out, - 1))"
proof -
  have apr: "length apr = 24" using assms(15) by (auto simp: rdp_bytes_def dest: rd_bytes_length)
  have "leap_mschap env (G\<lparr>leap_apr := Some apr\<rparr>) (Some pw) (replicate 24 0) =
      Inr (challenge_response (crypt env) apc (md4_ref (md4_ref (utf16 pw))))"
    using assms(5,6,9) by (simp add: leap_mschap_def leap_hash_hash_Ok [OF assms(1,4)] ChallengeResponse_Ok)
  moreover have "leap_keying env (G\<lparr>leap_apr := Some apr\<rparr>) (Some pw) apr = Inr (leap_session_keys (crypt env) pw apc apr pc pr)"
    using assms(6-11) apr by (intro leap_keying_Ok [OF assms(1,4)]) simp_all
  ultimately show ?thesis
    using assms(2,5,14,15) apr eapleap_process_ready [OF assms(3,12,13)]
    by (cases "apr = challenge_response (crypt env) apc (md4_ref (md4_ref (utf16 pw)))")
      (simp_all add: eapleap_response_def rd_bytes_def Let_def)
qed

definition sample_leap :: generic_eap_data where
  "sample_leap = sample_data\<lparr>eap_conf_data := Some (ConfLeap \<lparr>username = Some [0x62], password = Some [0x70]\<rparr>),
     eap_data := Some (LeapData \<lparr>leap_keyingMaterial = None, leap_eapsuccess = FALSE\<rparr>)\<rparr>"

lemma sample_leap_ready: "leap_ready sample_leap \<lparr>leap_keyingMaterial = None, leap_eapsuccess = FALSE\<rparr> [0x62] (Some [0x70])"
  by (simp add: leap_ready_def sample_leap_def)

theorem leap_answers_challenge_witness:
  "\<exists>G' out'. eapleap_process sample_env sample_glob sample_leap (Some (eap_frame 1 6 21 17 ([1, 0, 8] @ replicate 13 9), 23)) 16
      (replicate 60 0) 23 0 = Inr (XENONE, G', sample_leap, out', 28) \<and>
    take 28 (drop 23 out') = [1, 0, 24] @ replicate 24 5 @ [0x62]"
proof -
  have "challenge_response (crypt sample_env) c h = replicate 24 5" for c h
    by (simp add: challenge_response_def sample_crypto_def replicate_add [symmetric])
  then show ?thesis
    using leap_answers_challenge [OF sample_env_ok _ sample_leap_ready, of "eap_frame 1 6 21 17 ([1, 0, 8] @ replicate 13 9)" 23
        "[1, 0, 8] @ replicate 13 9" 23 "replicate 60 0" "replicate 24 5" sample_glob 16 0]
    by (auto simp: rd8_def rdp_bytes_def rd_bytes_def)
qed

theorem leap_checks_access_point_witness:
  "\<exists>g'. eapleap_process sample_env (sample_glob\<lparr>leapchallenges := True, leap_apc := Some (replicate 8 1),
        leap_pc := Some (replicate 8 2), leap_pr := Some (replicate 24 3)\<rparr>) sample_leap
      (Some (eap_frame 2 6 32 17 ([1, 0, 24] @ replicate 24 5), 23)) 27 (replicate 60 0) 23 0 =
    Inr (XENONE, sample_glob\<lparr>leapchallenges := True, leap_apc := Some (replicate 8 1),
        leap_pc := Some (replicate 8 2), leap_pr := Some (replicate 24 3), leap_apr := Some (replicate 24 5)\<rparr>, g', replicate 60 0, 0)"
proof -
  have "challenge_response (crypt sample_env) c h = replicate 24 5" for c h
    by (simp add: challenge_response_def sample_crypto_def replicate_add [symmetric])
  then show ?thesis
    using leap_checks_access_point [OF sample_env_ok _ sample_leap_ready, of "sample_glob\<lparr>leapchallenges := True,
        leap_apc := Some (replicate 8 1), leap_pc := Some (replicate 8 2), leap_pr := Some (replicate 24 3)\<rparr>"
        "replicate 8 1" "replicate 8 2" "replicate 24 3" "eap_frame 2 6 32 17 ([1, 0, 24] @ replicate 24 5)" 23
        "replicate 24 5" 27 "replicate 60 0" 23 0]
    by (auto simp: rd8_def rdp8_def rdp_bytes_def rd_bytes_def eap_frame_def nth_append)
qed

end
