(* ===== verification/Interactive.thy ===== *)
theory Interactive
  imports EapMethod
begin

text \<open>
  \<open>interactive.c\<close>: keeping a request until the user has typed a password, and asking for one. The
  message to the registered clients is an entry of the log.
\<close>

definition interactive_store_frame ::
  "env \<Rightarrow> ptr option \<Rightarrow> int \<Rightarrow> generic_eap_data \<Rightarrow> (generic_eap_data \<times> int) res" where
  "interactive_store_frame env cur_frame cur_size g =
     (if cur_size = 0 then Ok (g, XENONE)
      else case cur_frame of None \<Rightarrow> Ok (g, XENONE) | Some p \<Rightarrow>
      if \<not> malloc_sz env AStaleStore cur_size then Ok (g\<lparr>staleFrame := None\<rparr>, XEMALLOC)
      else bindR (rdp_int p 0 cur_size) (\<lambda>data.
        Ok (g\<lparr>staleFrame := Some data, staleSize := cur_size\<rparr>, XENONE)))"

definition interactive_gui_prompt ::
  "interface_data \<Rightarrow> cstr option \<Rightarrow> cstr option \<Rightarrow> cstr option \<Rightarrow> interface_data \<times> int" where
  "interactive_gui_prompt s pwd name challenge =
     (if pwd = None then (log_io (GuiPrompt name challenge) s, XPROMPT) else (s, XENONE))"

lemma interactive_store_frame_Inr:
  assumes "interactive_store_frame env p n g = Inr (g', rc)"
  shows "\<exists>f k. g' = g\<lparr>staleFrame := f, staleSize := k\<rparr>"
proof -
  have "\<exists>f k. g = g\<lparr>staleFrame := f, staleSize := k\<rparr>"
    by (rule exI [of _ "staleFrame g"], rule exI [of _ "staleSize g"]) simp
  moreover have "\<exists>k. g\<lparr>staleFrame := None\<rparr> = g\<lparr>staleFrame := None, staleSize := k\<rparr>"
    by (rule exI [of _ "staleSize g"]) simp
  ultimately show ?thesis
    using assms unfolding interactive_store_frame_def
    by (auto split: if_splits option.splits elim!: bindR_InrE)
qed

lemma interactive_store_frame_keeps:
  assumes "interactive_store_frame env p n g = Inr (g', rc)"
  shows "eap_data g' = eap_data g \<and> eap_conf_data g' = eap_conf_data g \<and> identity g' = identity g \<and>
    tempPwd g' = tempPwd g \<and> eaptype g' = eaptype g \<and> eapchallenge g' = eapchallenge g"
proof -
  obtain f k where "g' = g\<lparr>staleFrame := f, staleSize := k\<rparr>"
    using interactive_store_frame_Inr [OF assms] by blast
  then show ?thesis by simp
qed

end
