(* ===== verification/Eap.thy ===== *)
theory Eap
  imports EapMd5 EapOtp EapMschapv2 EapLeap Interactive Samples
begin

text \<open>
  The EAP layer, \<open>eap.c\<close>: the table of methods, the life of the active method, the header of an
  incoming packet, and the replies to identity and authentication requests. The methods the
  development does not model (TLS, TTLS, PEAP) are entries given as parameters of the table.
\<close>

section \<open>The table of methods\<close>

abbreviation NO_EAP_AUTH :: int where "NO_EAP_AUTH \<equiv> - 1"
abbreviation EAP_TYPE_MD5 :: int where "EAP_TYPE_MD5 \<equiv> 4"
abbreviation EAP_TYPE_OTP :: int where "EAP_TYPE_OTP \<equiv> 5"
abbreviation EAP_TYPE_GTC :: int where "EAP_TYPE_GTC \<equiv> 6"
abbreviation EAP_TYPE_TLS :: int where "EAP_TYPE_TLS \<equiv> 13"
abbreviation EAP_TYPE_LEAP :: int where "EAP_TYPE_LEAP \<equiv> 17"
abbreviation EAP_TYPE_TTLS :: int where "EAP_TYPE_TTLS \<equiv> 21"
abbreviation EAP_TYPE_PEAP :: int where "EAP_TYPE_PEAP \<equiv> 25"
abbreviation EAP_TYPE_MSCHAPV2 :: int where "EAP_TYPE_MSCHAPV2 \<equiv> 26"

definition md5_handler :: eap_type_handler where
  "md5_handler = \<lparr>eap_auth_type = EAP_TYPE_MD5, eap_auth_setup = eapmd5_setup,
     eap_auth_handler = no_glob eapmd5_process, eap_auth_get_keys = eapmd5_get_keys,
     eap_auth_failed = None, eap_auth_cleanup = eapmd5_cleanup\<rparr>"

definition mschapv2_handler :: eap_type_handler where
  "mschapv2_handler = \<lparr>eap_auth_type = EAP_TYPE_MSCHAPV2, eap_auth_setup = eapmschapv2_setup,
     eap_auth_handler = no_glob eapmschapv2_process, eap_auth_get_keys = eapmschapv2_get_keys,
     eap_auth_failed = None, eap_auth_cleanup = eapmschapv2_cleanup\<rparr>"

definition leap_handler :: eap_type_handler where
  "leap_handler = \<lparr>eap_auth_type = EAP_TYPE_LEAP, eap_auth_setup = eapleap_setup,
     eap_auth_handler = eapleap_process, eap_auth_get_keys = eapleap_get_keys,
     eap_auth_failed = None, eap_auth_cleanup = eapleap_cleanup\<rparr>"

definition otp_handler :: "int \<Rightarrow> eap_type_handler" where
  "otp_handler t = \<lparr>eap_auth_type = t, eap_auth_setup = eapotp_setup,
     eap_auth_handler = no_glob eapotp_process, eap_auth_get_keys = eapotp_get_keys,
     eap_auth_failed = None, eap_auth_cleanup = eapotp_cleanup\<rparr>"

definition eaphandlers ::
  "eap_type_handler \<Rightarrow> eap_type_handler \<Rightarrow> eap_type_handler \<Rightarrow> eap_type_handler list" where
  "eaphandlers tls ttls peap =
     [md5_handler, tls\<lparr>eap_auth_type := EAP_TYPE_TLS\<rparr>, ttls\<lparr>eap_auth_type := EAP_TYPE_TTLS\<rparr>,
      mschapv2_handler, peap\<lparr>eap_auth_type := EAP_TYPE_PEAP\<rparr>, leap_handler,
      otp_handler EAP_TYPE_OTP, otp_handler EAP_TYPE_GTC]"

text \<open>The search loop that all functions of \<open>eap.c\<close> share: the first entry of the type.\<close>

fun find_handler :: "eap_type_handler list \<Rightarrow> int \<Rightarrow> eap_type_handler option" where
  "find_handler [] t = None"
| "find_handler (h # hs) t = (if eap_auth_type h = t then Some h else find_handler hs t)"

fun find_method :: "config_eap_method list \<Rightarrow> int \<Rightarrow> config_eap_method option" where
  "find_method [] t = None"
| "find_method (m # ms) t = (if method_num m = t then Some m else find_method ms t)"

text \<open>A method writes to its configuration through the active method's pointer; the entry of the
  configuration it came from is the first of its type.\<close>

fun put_method_data :: "int \<Rightarrow> method_conf option \<Rightarrow> config_eap_method list \<Rightarrow> config_eap_method list" where
  "put_method_data t c [] = []"
| "put_method_data t c (m # ms) =
     (if method_num m = t then m\<lparr>method_data := c\<rparr> # ms else m # put_method_data t c ms)"

definition put_active :: "int \<Rightarrow> generic_eap_data \<Rightarrow> interface_data \<Rightarrow> interface_data" where
  "put_active t g s =
     s\<lparr>userdata := map_option (\<lambda>u. u\<lparr>activemethod := Some g,
         methods := put_method_data t (eap_conf_data g) (methods u)\<rparr>) (userdata s)\<rparr>"

definition drop_active :: "interface_data \<Rightarrow> interface_data" where
  "drop_active s = s\<lparr>userdata := map_option (\<lambda>u. u\<lparr>activemethod := None\<rparr>) (userdata s)\<rparr>"

definition active :: "interface_data \<Rightarrow> generic_eap_data option" where
  "active s = Option.bind (userdata s) activemethod"

section \<open>The life of the active method\<close>

definition eap_cleanup :: "eap_type_handler list \<Rightarrow> interface_data \<Rightarrow> interface_data res" where
  "eap_cleanup hs s =
     (if userdata s = None \<or> eapType s = 0 then Ok s
      else case active s of None \<Rightarrow> Ok s | Some g \<Rightarrow>
        case find_handler hs (eapType s) of
          Some h \<Rightarrow> bindR (eap_auth_cleanup h g) (\<lambda>(g, rc). Ok (drop_active (s\<lparr>eapType := 0\<rparr>)))
        | None \<Rightarrow> Ok (drop_active s))"

definition eap_clear_active_method ::
  "eap_type_handler list \<Rightarrow> interface_data \<Rightarrow> (interface_data \<times> int) res" where
  "eap_clear_active_method hs s =
     (if userdata s = None then Ok (s, XEMALLOC)
      else case active s of None \<Rightarrow> Ok (s, XENONE) | Some g \<Rightarrow>
        case find_handler hs (eapType s) of
          None \<Rightarrow> Ok (s, XENONE)
        | Some h \<Rightarrow> bindR (eap_auth_cleanup h g) (\<lambda>(g, rc). Ok (drop_active (s\<lparr>eapType := 0\<rparr>), XENONE)))"

definition eap_get_keying_material ::
  "env \<Rightarrow> eap_type_handler list \<Rightarrow> interface_data \<Rightarrow> (interface_data \<times> int) res" where
  "eap_get_keying_material env hs s =
     (if userdata s = None then Ok (s, XEMALLOC)
      else case active s of None \<Rightarrow> Ok (s, XENONE) | Some g \<Rightarrow>
        case find_handler hs (eapType s) of
          None \<Rightarrow> Ok (s, XENONE)
        | Some h \<Rightarrow> bindR (eap_auth_get_keys h env s) (\<lambda>(s, rc). Ok (s, XENONE)))"

definition eap_do_fail :: "eap_type_handler list \<Rightarrow> interface_data \<Rightarrow> (interface_data \<times> int) res" where
  "eap_do_fail hs s =
     (if userdata s = None then Ok (s, XEMALLOC)
      else case active s of None \<Rightarrow> Ok (s, XENONE) | Some g \<Rightarrow>
        case Option.bind (find_handler hs (eapType s)) eap_auth_failed of
          None \<Rightarrow> Ok (s, XENONE)
        | Some f \<Rightarrow> bindR (f g) (\<lambda>(g, rc). Ok (put_active (eapType s) g s, XENONE)))"

definition wpa_keying_material :: "env \<Rightarrow> interface_data \<Rightarrow> (interface_data \<times> int) res" where
  "wpa_keying_material env s =
     (if \<not> wpa_keying env then Ok (s, 0)
      else case keyingMaterial s of None \<Rightarrow> Ok (s, - 1) | Some k \<Rightarrow>
        if \<not> open_socket env (calls s) then Ok (next_call s, - 1)
        else bindR (rd_bytes k 0 32) (\<lambda>k. Ok (log_io (SendWpaKey k) (next_call s), 0)))"

section \<open>The header of an incoming packet\<close>

text \<open>\<open>strncpy\<close> fills its destination, a local array of 255 bytes, up to the count it is given; the text
  is then printed up to its terminator.\<close>

definition eap_do_notify :: "interface_data \<Rightarrow> bytes \<Rightarrow> interface_data res" where
  "eap_do_notify s inframe =
     bindR (view_eap_header inframe) (\<lambda>myeap.
     let n = eap_length myeap - 5; src = drop OFFSET_TO_DATA inframe in
     if n < 0 \<or> 255 < n then Fault Overflow
     else if int (length src) < n \<and> 0 \<notin> set src then Fault OutOfBounds
     else let myval = c_string (take (nat n) src) in
       if length myval = 255 then Fault OutOfBounds
       else Ok (log_io (ShowNotify myval) s))"

definition run_success_cmd :: "env \<Rightarrow> interface_data \<Rightarrow> interface_data" where
  "run_success_cmd env s =
     (if firstauth s = TRUE then (log_io (ExecCmd (first_auth_cmd env)) s)\<lparr>firstauth := FALSE\<rparr>
      else log_io (ExecCmd (reauth_cmd env)) s)"

definition eap_got_request :: "interface_data \<Rightarrow> bytes \<Rightarrow> eap_header \<Rightarrow> interface_data res" where
  "eap_got_request s inframe myeap =
     (let s = sm_upd (\<lambda>m. m\<lparr>previousId := receivedId m, receivedId := uint (eap_identifier myeap)\<rparr>) s in
      if eap_type myeap = EAP_TYPE_IDENTITY then Ok (sm_upd (reqId_update (\<lambda>_. TRUE)) s)
      else if eap_type myeap = EAP_TYPE_NOTIFY then eap_do_notify s inframe
      else if eap_length myeap \<le> 4 then Ok s
      else Ok (sm_upd (reqAuth_update (\<lambda>_. TRUE)) s))"

text \<open>The result is the interface and the frame: for LEAP, the type field of an EAP success, which has
  none, is written.\<close>

definition eap_got_success ::
  "env \<Rightarrow> eap_type_handler list \<Rightarrow> interface_data \<Rightarrow> bytes \<Rightarrow> (interface_data \<times> bytes) res" where
  "eap_got_success env hs s inframe =
     bindR (if eapType s = EAP_TYPE_LEAP then
              bindR (wr8 inframe 22 (of_int EAP_TYPE_LEAP)) (\<lambda>f. Ok (sm_upd (reqAuth_update (\<lambda>_. TRUE)) s, f))
            else Ok (sm_upd (eapSuccess_update (\<lambda>_. TRUE)) s, inframe)) (\<lambda>(s, inframe).
     bindR (eap_get_keying_material env hs (run_success_cmd env s)) (\<lambda>(s, rc).
     bindR (wpa_keying_material env s) (\<lambda>(s, rc).
     Ok (s, inframe))))"

definition eap_process_header ::
  "env \<Rightarrow> eap_type_handler list \<Rightarrow> interface_data \<Rightarrow> bytes \<Rightarrow> (interface_data \<times> bytes) res" where
  "eap_process_header env hs s inframe =
     (if statemachine s = None then Ok (s, inframe)
      else bindR (view_eap_header inframe) (\<lambda>myeap.
        if eap_code myeap = EAP_REQUEST then
          bindR (eap_got_request s inframe myeap) (\<lambda>s. Ok (s, inframe))
        else if eap_code myeap = EAP_RESPONSE then
          Ok (if uint (eap_type myeap) = EAP_TYPE_LEAP then sm_upd (reqAuth_update (\<lambda>_. TRUE)) s else s, inframe)
        else if eap_code myeap = EAP_SUCCESS then eap_got_success env hs s inframe
        else if eap_code myeap = EAP_FAILURE then
          bindR (eap_do_fail hs (sm_upd (eapFail_update (\<lambda>_. TRUE)) s)) (\<lambda>(s, rc). Ok (s, inframe))
        else Ok (s, inframe)))"

section \<open>Identity requests\<close>

text \<open>The result holds \<open>*outsize\<close> and \<open>*eapsize\<close>, or \<open>None\<close> where the function returns without storing
  them. SIM support, which can supply the identity, is not compiled in.\<close>

definition eap_request_id ::
  "interface_data \<Rightarrow> bytes \<Rightarrow> (bytes \<times> (int \<times> int) option) res" where
  "eap_request_id s outframe =
     (case (statemachine s, userdata s) of
        (Some sm, Some u) \<Rightarrow>
          if methods u = [] then Ok (outframe, None)
          else bindR (wr8 outframe 18 EAP_RESPONSE) (\<lambda>f.
            bindR (wr8 f 19 (word_of_int (receivedId sm))) (\<lambda>f.
            case net_identity u of None \<Rightarrow> Ok (f, None) | Some idt \<Rightarrow>
            let eapsize = int (length idt) + sizeof_eap_header - 1 in
            bindR (wr_u16 f 20 eapsize) (\<lambda>f.
            bindR (wr8 f 22 EAP_TYPE_IDENTITY) (\<lambda>f.
            bindR (wr_bytes f OFFSET_TO_DATA idt) (\<lambda>f.
            Ok (f, Some (int (length idt) - 1 + sizeof_eap_header + sizeof_eapol_header, eapsize)))))))
      | _ \<Rightarrow> Ok (outframe, None))"

section \<open>Authentication requests\<close>

text \<open>Return code, interface, output frame, \<open>*payloadsize\<close> if it is stored, and \<open>*eapsize\<close>.\<close>

type_synonym auth_result = "int \<times> interface_data \<times> bytes \<times> int option \<times> int"

definition working_type :: "interface_data \<Rightarrow> bytes option \<Rightarrow> int res" where
  "working_type s inframe =
     (case inframe of None \<Rightarrow> Ok (eapType s)
      | Some f \<Rightarrow> bindR (view_eap_header f) (\<lambda>h. Ok (uint (eap_type h))))"

definition wants_nak :: "config_eap_method option \<Rightarrow> bytes option \<Rightarrow> bool res" where
  "wants_nak newmethod inframe =
     (case (newmethod, inframe) of
        (None, Some f) \<Rightarrow> bindR (view_eap_header f) (\<lambda>h. Ok (4 < eap_length h))
      | _ \<Rightarrow> Ok False)"

definition eap_send_nak :: "interface_data \<Rightarrow> config_network \<Rightarrow> bytes \<Rightarrow> auth_result res" where
  "eap_send_nak s u outframe =
     bindR (deref (statemachine s)) (\<lambda>sm.
     bindR (wr8 outframe 18 EAP_RESPONSE) (\<lambda>f.
     bindR (wr8 f 19 (word_of_int (receivedId sm))) (\<lambda>f.
     bindR (wr_u16 f 20 6) (\<lambda>f.
     bindR (wr8 f 22 EAP_TYPE_NAK) (\<lambda>f.
     bindR (wr8 f OFFSET_TO_DATA (word_of_int (method_num (hd (methods u))))) (\<lambda>f.
     Ok (6 + sizeof_eapol_header, s, f, Some (6 + sizeof_eapol_header), 6)))))))"

text \<open>A change of type cleans up; a new type gets a fresh method. \<open>False\<close> means the method could not be
  allocated.\<close>

definition fresh_method :: "env \<Rightarrow> method_conf option \<Rightarrow> cstr \<Rightarrow> generic_eap_data" where
  "fresh_method env conf idt =
     \<lparr>eap_conf_data = conf, eap_data = None,
      identity = (if malloc_ok env AIdentity then Some idt else None), tempPwd = None,
      staleFrame = None, staleSize = 0, eapid = 0, need_password = 0, eaptype = None,
      eapchallenge = None\<rparr>"

definition eap_new_method ::
  "env \<Rightarrow> eap_type_handler \<Rightarrow> config_eap_method option \<Rightarrow> interface_data \<Rightarrow> (interface_data \<times> bool) res" where
  "eap_new_method env h newmethod s =
     (if \<not> malloc_ok env AActivemethod then Ok (drop_active s, False)
      else bindR (deref newmethod) (\<lambda>m.
      bindR (deref (userdata s)) (\<lambda>u.
      bindR (deref (net_identity u)) (\<lambda>idt.
      case eap_auth_setup h env (fresh_method env (method_data m) idt) of (g, rc) \<Rightarrow>
        Ok (put_active (eap_auth_type h) g (s\<lparr>eapType := eap_auth_type h\<rparr>), True)))))"

definition eap_switch_method ::
  "env \<Rightarrow> eap_type_handler list \<Rightarrow> eap_type_handler \<Rightarrow> config_eap_method option \<Rightarrow> interface_data \<Rightarrow>
     (interface_data \<times> bool) res" where
  "eap_switch_method env hs h newmethod s =
     bindR (if 0 < eapType s \<and> eapType s \<noteq> eap_auth_type h
            then bindR (eap_clear_active_method hs s) (\<lambda>(s, rc). Ok s) else Ok s) (\<lambda>s.
     if eapType s = 0 \<or> active s = None then eap_new_method env h newmethod s
     else Ok (s, True))"

text \<open>The request the method is to see, with its length: the frame's, or the one stored while the user
  was asked for a password; then \<open>eapinsize\<close> keeps its initial value 0. \<open>None\<close> is a failed
  allocation.\<close>

definition eap_note_request :: "generic_eap_data \<Rightarrow> bytes option \<Rightarrow> cstr option \<Rightarrow> generic_eap_data res" where
  "eap_note_request g inframe pwd =
     bindR (case inframe of None \<Rightarrow> Ok g
            | Some f \<Rightarrow> bindR (view_eap_header f) (\<lambda>h. Ok (g\<lparr>eapid := uint (eap_identifier h)\<rparr>))) (\<lambda>g.
     Ok (if pwd = None then g else g\<lparr>tempPwd := pwd\<rparr>))"

definition eap_pick_request ::
  "env \<Rightarrow> generic_eap_data \<Rightarrow> bytes option \<Rightarrow> (ptr option \<times> int) option res" where
  "eap_pick_request env g inframe =
     (case inframe of
        Some f \<Rightarrow> bindR (view_eap_header f) (\<lambda>h. Ok (Some (Some (f, OFFSET_TO_DATA), eap_length h - 5)))
      | None \<Rightarrow>
          case staleFrame g of None \<Rightarrow> Ok (Some (None, 0)) | Some st \<Rightarrow>
          if \<not> malloc_sz env AStaleCopy (staleSize g) then Ok None
          else bindR (rdp_int (st, 0) 0 (staleSize g)) (\<lambda>copy. Ok (Some (Some (copy, 0), 0))))"

text \<open>The method asks for a password: keep the request, tell the clients, and send nothing.\<close>

definition eap_prompt ::
  "env \<Rightarrow> int \<Rightarrow> interface_data \<Rightarrow> generic_eap_data \<Rightarrow> ptr option \<Rightarrow> int \<Rightarrow> bytes \<Rightarrow> auth_result res" where
  "eap_prompt env t s g tosend eapinsize outframe =
     bindR (interactive_store_frame env tosend eapinsize g) (\<lambda>(g, rc).
     case interactive_gui_prompt s (tempPwd g) (eaptype g) (eapchallenge g) of (s, rc) \<Rightarrow>
     Ok (XENONE, put_active t (g\<lparr>eaptype := None, eapchallenge := None, need_password := 0\<rparr>) s,
         outframe, None, 0))"

definition eap_used_request :: "generic_eap_data \<Rightarrow> generic_eap_data" where
  "eap_used_request g = (if staleFrame g = None then g else g\<lparr>staleFrame := None, staleSize := 0\<rparr>)"

text \<open>LEAP decides itself when the authentication has succeeded.\<close>

definition leap_extra :: "env \<Rightarrow> int \<Rightarrow> interface_data \<Rightarrow> interface_data res" where
  "leap_extra env t s =
     (if t \<noteq> EAP_TYPE_LEAP then Ok s
      else bindR (deref (active s)) (\<lambda>g.
      bindR (eapleap_done g) (\<lambda>ok.
      bindR (deref (statemachine s)) (\<lambda>sm.
      let s = sm_upd (eapSuccess_update (\<lambda>_. ok)) s in
      if ok = 1 then bindR (eapleap_get_keys env s) (\<lambda>(s, rc). Ok s) else Ok s))))"

definition eap_reply_header ::
  "interface_data \<Rightarrow> int \<Rightarrow> bytes option \<Rightarrow> bytes \<Rightarrow> int \<Rightarrow> auth_result res" where
  "eap_reply_header s t inframe outframe eapsize =
     (if eapsize \<le> 0 then Ok (0, s, outframe, Some 0, eapsize)
      else let eapsize = eapsize + (sizeof_eap_header - 1) in
      bindR (wr_u16 outframe 20 eapsize) (\<lambda>f.
      bindR (if t = EAP_TYPE_LEAP then
               bindR (deref inframe) (\<lambda>i. bindR (view_eap_header i) (\<lambda>h.
               Ok (if eap_code h = EAP_SUCCESS then Some (eap_identifier h) else None)))
             else Ok None) (\<lambda>own.
      bindR (case own of
               Some i \<Rightarrow> bindR (wr8 f 18 EAP_REQUEST) (\<lambda>f. wr8 f 19 i)
             | None \<Rightarrow> bindR (deref (statemachine s)) (\<lambda>sm.
                 bindR (wr8 f 18 EAP_RESPONSE) (\<lambda>f. wr8 f 19 (word_of_int (receivedId sm))))) (\<lambda>f.
      bindR (wr8 f 22 (word_of_int (eapType s))) (\<lambda>f.
      Ok (eapsize + sizeof_eapol_header, s, f, Some (eapsize + sizeof_eapol_header), eapsize))))))"

text \<open>The call of the method and what follows it.\<close>

definition eap_run_method ::
  "env \<Rightarrow> eap_type_handler \<Rightarrow> interface_data \<Rightarrow> generic_eap_data \<Rightarrow> bytes option \<Rightarrow> ptr \<Rightarrow> int \<Rightarrow> bytes \<Rightarrow>
     int \<Rightarrow> auth_result res" where
  "eap_run_method env h s g inframe tosend eapinsize outframe eapsize =
     bindR (eap_auth_handler h env (leap_glob s) g (Some tosend) eapinsize outframe OFFSET_TO_DATA eapsize)
       (\<lambda>(rc, G, g, outframe, eapsize).
     let s = s\<lparr>leap_glob := G\<rparr> in
     if need_password g = 1 then eap_prompt env (eap_auth_type h) s g (Some tosend) eapinsize outframe
     else bindR (leap_extra env (eap_auth_type h) (put_active (eap_auth_type h) (eap_used_request g) s)) (\<lambda>s.
       eap_reply_header s (eap_auth_type h) inframe outframe eapsize))"

definition eap_dispatch ::
  "env \<Rightarrow> eap_type_handler \<Rightarrow> interface_data \<Rightarrow> bytes option \<Rightarrow> bytes \<Rightarrow> int \<Rightarrow> auth_result res" where
  "eap_dispatch env h s inframe outframe eapsize =
     bindR (deref (active s)) (\<lambda>g.
     bindR (eap_note_request g inframe (tempPassword s)) (\<lambda>g.
     bindR (eap_pick_request env g inframe) (\<lambda>pick.
     let s = put_active (eap_auth_type h) g s in
     case pick of None \<Rightarrow> Ok (XEMALLOC, s, outframe, None, eapsize)
     | Some (None, n) \<Rightarrow> Ok (XENONE, s, outframe, Some 0, eapsize)
     | Some (Some tosend, n) \<Rightarrow> eap_run_method env h s g inframe tosend n outframe eapsize)))"

definition eap_request_auth ::
  "env \<Rightarrow> eap_type_handler list \<Rightarrow> interface_data \<Rightarrow> bytes option \<Rightarrow> bytes \<Rightarrow> int \<Rightarrow> auth_result res" where
  "eap_request_auth env hs s inframe outframe eapsize =
     bindR (working_type s inframe) (\<lambda>t.
     case userdata s of None \<Rightarrow> Ok (XEMALLOC, s, outframe, None, eapsize) | Some u \<Rightarrow>
     if methods u = [] then Ok (XEMALLOC, s, outframe, None, eapsize)
     else let newmethod = find_method (methods u) t in
     bindR (wants_nak newmethod inframe) (\<lambda>nak.
     if nak then eap_send_nak s u outframe
     else case find_handler hs t of None \<Rightarrow> Ok (- 1, s, outframe, None, eapsize) | Some h \<Rightarrow>
     bindR (eap_switch_method env hs h newmethod s) (\<lambda>(s, ok).
     if \<not> ok then Ok (- 1, s, outframe, None, eapsize)
     else eap_dispatch env h s inframe outframe eapsize)))"

section \<open>The table keeps the contract\<close>

lemma eaphandlers_ok:
  assumes "handler_ok tls" and "handler_ok ttls" and "handler_ok peap"
  shows "\<forall>h \<in> set (eaphandlers tls ttls peap). handler_ok h"
  using assms md5_keys.eap_keyed_method_axioms mschapv2_keys.eap_keyed_method_axioms
    leap_keys.eap_keyed_method_axioms otp_keys.eap_keyed_method_axioms
  by (simp add: eaphandlers_def handler_ok_def md5_handler_def mschapv2_handler_def leap_handler_def
      otp_handler_def)

lemma find_handler_Some: "find_handler hs t = Some h \<Longrightarrow> h \<in> set hs \<and> eap_auth_type h = t"
  by (induction hs) (auto split: if_splits)

section \<open>What an authentication request leaves alone\<close>

text \<open>Of the state machine's variables only \<open>eapSuccess\<close> may change, and that only for LEAP. Addresses and
  the wireless flag stay, and the only effect is a password prompt.\<close>

definition auth_frame :: "interface_data \<Rightarrow> interface_data \<Rightarrow> bool" where
  "auth_frame s s' \<longleftrightarrow>
     (\<exists>f. statemachine s' = map_option (\<lambda>m. m\<lparr>eapSuccess := f m\<rparr>) (statemachine s)) \<and>
     isWireless s' = isWireless s \<and> source_mac s' = source_mac s \<and> dest_mac s' = dest_mac s \<and>
     map_option net_dest_mac (userdata s') = map_option net_dest_mac (userdata s) \<and>
     calls s' = calls s \<and> wasDown s' = wasDown s \<and>
     (\<exists>l. io s' = l @ io s \<and> (\<forall>e \<in> set l. \<exists>n c. e = GuiPrompt n c))"

lemma auth_frame_trans:
  assumes "auth_frame s t" and "auth_frame t u"
  shows "auth_frame s u"
proof -
  from assms obtain f g where "statemachine t = map_option (\<lambda>m. m\<lparr>eapSuccess := f m\<rparr>) (statemachine s)"
    "statemachine u = map_option (\<lambda>m. m\<lparr>eapSuccess := g m\<rparr>) (statemachine t)"
    unfolding auth_frame_def by blast
  then have "statemachine u = map_option (\<lambda>m. m\<lparr>eapSuccess := g (m\<lparr>eapSuccess := f m\<rparr>)\<rparr>) (statemachine s)"
    by (cases "statemachine s") simp_all
  then have "\<exists>h. statemachine u = map_option (\<lambda>m. m\<lparr>eapSuccess := h m\<rparr>) (statemachine s)"
    by (rule exI [where x = "\<lambda>m. g (m\<lparr>eapSuccess := f m\<rparr>)"])
  moreover from assms obtain k l where "io t = k @ io s" "\<forall>e \<in> set k. \<exists>n c. e = GuiPrompt n c"
    "io u = l @ io t" "\<forall>e \<in> set l. \<exists>n c. e = GuiPrompt n c"
    unfolding auth_frame_def by blast
  then have "\<exists>l. io u = l @ io s \<and> (\<forall>e \<in> set l. \<exists>n c. e = GuiPrompt n c)"
    by (intro exI [of _ "l @ k"]) auto
  ultimately show ?thesis
    using assms unfolding auth_frame_def by simp
qed

lemma same_eapSuccess: "statemachine s = map_option (\<lambda>m. m\<lparr>eapSuccess := eapSuccess m\<rparr>) (statemachine s)"
  by (cases "statemachine s") simp_all

lemma auth_frameI:
  "statemachine s' = statemachine s \<Longrightarrow> isWireless s' = isWireless s \<Longrightarrow> source_mac s' = source_mac s \<Longrightarrow>
   dest_mac s' = dest_mac s \<Longrightarrow> map_option net_dest_mac (userdata s') = map_option net_dest_mac (userdata s) \<Longrightarrow>
   calls s' = calls s \<Longrightarrow> wasDown s' = wasDown s \<Longrightarrow>
   io s' = l @ io s \<Longrightarrow> \<forall>e \<in> set l. \<exists>n c. e = GuiPrompt n c \<Longrightarrow> auth_frame s s'"
  unfolding auth_frame_def
  by (intro conjI exI [of _ eapSuccess] exI [of _ l]) (simp_all add: option.map_ident)

lemma auth_frame_refl [simp]: "auth_frame s s"
  by (rule auth_frameI [where l = "[]"]) simp_all

lemma auth_frame_put_active [simp]: "auth_frame s (put_active t g s)"
  by (rule auth_frameI [where l = "[]"]) (simp_all add: put_active_def option.map_comp comp_def)

lemma auth_frame_drop_active [simp]: "auth_frame s (drop_active s)"
  by (rule auth_frameI [where l = "[]"]) (simp_all add: drop_active_def option.map_comp comp_def)

lemma auth_frame_prompt [simp]: "auth_frame s (log_io (GuiPrompt n c) s)"
  by (rule auth_frameI [where l = "[GuiPrompt n c]"]) simp_all

lemma auth_frame_eapType [simp]: "auth_frame s (s\<lparr>eapType := t\<rparr>)"
  by (rule auth_frameI [where l = "[]"]) simp_all

lemma auth_frame_leap_glob [simp]: "auth_frame s (s\<lparr>leap_glob := t\<rparr>)"
  by (rule auth_frameI [where l = "[]"]) simp_all

lemma auth_frame_keying [simp]: "auth_frame s (s\<lparr>keyingMaterial := t\<rparr>)"
  by (rule auth_frameI [where l = "[]"]) simp_all

lemma auth_frame_eapSuccess [simp]: "auth_frame s (sm_upd (eapSuccess_update (\<lambda>_. v)) s)"
  unfolding auth_frame_def by (intro conjI exI [of _ "\<lambda>_. v"] exI [of _ "[]"]) simp_all

lemma auth_frame_clear: "auth_frame s (drop_active (s\<lparr>eapType := t\<rparr>))"
  using auth_frame_trans [OF auth_frame_eapType auth_frame_drop_active] .

lemma eap_clear_active_method_frame:
  "eap_clear_active_method hs s = Inr (s', rc) \<Longrightarrow> auth_frame s s'"
  by (auto simp: eap_clear_active_method_def auth_frame_clear split: if_splits option.splits elim!: bindR_InrE)

lemma eap_new_method_frame: "eap_new_method env h m s = Inr (s', ok) \<Longrightarrow> auth_frame s s'"
  by (auto simp: eap_new_method_def split: if_splits prod.splits elim!: bindR_InrE
      intro: auth_frame_trans [OF auth_frame_eapType auth_frame_put_active])

lemma auth_frame_after:
  "auth_frame (put_active t g s) u \<Longrightarrow> auth_frame s u"
  "auth_frame (log_io (GuiPrompt n c) s) u \<Longrightarrow> auth_frame s u"
  "auth_frame (s\<lparr>leap_glob := G\<rparr>) u \<Longrightarrow> auth_frame s u"
  by (blast intro: auth_frame_trans auth_frame_put_active auth_frame_prompt auth_frame_leap_glob)+

lemma eap_switch_method_frame:
  assumes "eap_switch_method env hs h m s = Inr (s', ok)"
  shows "auth_frame s s'"
proof -
  from assms obtain t where
    "(if 0 < eapType s \<and> eapType s \<noteq> eap_auth_type h
      then bindR (eap_clear_active_method hs s) (\<lambda>(s, rc). Ok s) else Ok s) = Inr t"
    and t: "(if eapType t = 0 \<or> active t = None then eap_new_method env h m t else Ok (t, True)) = Inr (s', ok)"
    unfolding eap_switch_method_def by (elim bindR_InrE)
  then have "auth_frame s t"
    by (auto split: if_splits elim!: bindR_InrE dest: eap_clear_active_method_frame)
  with t show ?thesis
    by (auto split: if_splits dest: eap_new_method_frame intro: auth_frame_trans)
qed

lemma eapleap_get_keys_frame: "eapleap_get_keys env s = Inr (s', rc) \<Longrightarrow> auth_frame s s'"
  by (auto simp: eapleap_get_keys_def split: option.splits elim!: bindR_InrE)

lemma leap_extra_frame: "leap_extra env t s = Inr s' \<Longrightarrow> auth_frame s s'"
  unfolding leap_extra_def Let_def
  by (auto split: if_splits elim!: bindR_InrE dest!: eapleap_get_keys_frame
      intro: auth_frame_trans [OF auth_frame_eapSuccess])

lemma eap_reply_header_same:
  assumes "eap_reply_header s t inframe f n = Inr (rc, s', f', p', n')"
  shows "s' = s \<and> length f' = length f \<and> p' \<noteq> None \<and>
    (n \<le> 0 \<and> n' = n \<and> p' = Some 0 \<and> f' = f \<or> 0 < n \<and> n' = n + 5 \<and> p' = Some (n + 11))"
proof (cases "n \<le> 0")
  case True
  then show ?thesis using assms by (auto simp: eap_reply_header_def)
next
  case False
  then show ?thesis
    using assms unfolding eap_reply_header_def Let_def wr_u16_eq wr8_eq_Inr
    by (auto simp: wr8_eq_Inr split: if_splits option.splits elim!: bindR_InrE)
qed

lemma eap_prompt_frame:
  assumes "eap_prompt env t s g p k f = Inr (rc, s', f', p', n')"
  shows "auth_frame s s' \<and> f' = f \<and> n' = 0"
proof -
  have "auth_frame s (put_active t g' (fst (interactive_gui_prompt s a b c)))" for g' a b c
    using auth_frame_trans [OF auth_frame_prompt auth_frame_put_active]
    by (cases a) (simp_all add: interactive_gui_prompt_def)
  then show ?thesis
    using assms unfolding eap_prompt_def
    by (auto split: prod.splits elim!: bindR_InrE) (metis fst_conv)
qed

text \<open>The method's contract carries over: the frame keeps its length.\<close>

lemma handler_method: "handler_ok h \<Longrightarrow> eap_method (eap_auth_setup h) (eap_auth_handler h)"
  unfolding handler_ok_def by (rule eap_keyed_method.axioms(1))

lemma eap_run_method_InrE:
  assumes "eap_run_method env h s g inframe p k f n = Inr (rc, s', f', p', n')"
  obtains (prompt) rc1 G g1 f1 n1 where
      "eap_auth_handler h env (leap_glob s) g (Some p) k f OFFSET_TO_DATA n = Inr (rc1, G, g1, f1, n1)"
      "need_password g1 = 1"
      "eap_prompt env (eap_auth_type h) (s\<lparr>leap_glob := G\<rparr>) g1 (Some p) k f1 = Inr (rc, s', f', p', n')"
    | (reply) rc1 G g1 f1 n1 t where
      "eap_auth_handler h env (leap_glob s) g (Some p) k f OFFSET_TO_DATA n = Inr (rc1, G, g1, f1, n1)"
      "need_password g1 \<noteq> 1"
      "leap_extra env (eap_auth_type h) (put_active (eap_auth_type h) (eap_used_request g1) (s\<lparr>leap_glob := G\<rparr>)) = Inr t"
      "eap_reply_header t (eap_auth_type h) inframe f1 n1 = Inr (rc, s', f', p', n')"
  using assms unfolding eap_run_method_def Let_def
  by (elim bindR_InrE) (auto split: if_splits elim!: bindR_InrE)

lemma eap_run_method_frame:
  assumes h: "handler_ok h" and "eap_run_method env h s g inframe p k f n = Inr (rc, s', f', p', n')"
  shows "auth_frame s s' \<and> length f' = length f"
  using assms(2)
proof (cases rule: eap_run_method_InrE)
  case (prompt rc1 G g1 f1 n1)
  then show ?thesis
    using eap_method.process_length [OF handler_method [OF h] prompt(1)]
      eap_prompt_frame [OF prompt(3)] auth_frame_after(3) by auto
next
  case (reply rc1 G g1 f1 n1 t)
  have "auth_frame s t"
    using leap_extra_frame [OF reply(3)] auth_frame_after by blast
  then show ?thesis
    using eap_method.process_length [OF handler_method [OF h] reply(1)]
      eap_reply_header_same [OF reply(4)] by simp
qed

lemma eap_dispatch_frame:
  assumes h: "handler_ok h" and "eap_dispatch env h s inframe f n = Inr (rc, s', f', p', n')"
  shows "auth_frame s s' \<and> length f' = length f"
  using assms(2) unfolding eap_dispatch_def Let_def
  by (auto split: option.splits elim!: bindR_InrE dest!: eap_run_method_frame [OF h] auth_frame_after(1))

lemma eap_send_nak_frame:
  "eap_send_nak s u f = Inr (rc, s', f', p', n') \<Longrightarrow> s' = s \<and> length f' = length f \<and> n' = 6 \<and> p' = Some 12"
  by (auto simp: eap_send_nak_def wr8_eq_Inr wr_u16_eq split: if_splits elim!: bindR_InrE)

lemma eap_request_auth_frame:
  assumes hs: "\<forall>h \<in> set hs. handler_ok h"
    and "eap_request_auth env hs s inframe f n = Inr (rc, s', f', p', n')"
  shows "auth_frame s s' \<and> length f' = length f"
proof -
  have disp: "find_handler hs t = Some h \<Longrightarrow> eap_dispatch env h u inframe f n = Inr (rc, s', f', p', n') \<Longrightarrow>
      auth_frame u s' \<and> length f' = length f" for t h u
    using hs find_handler_Some eap_dispatch_frame by blast
  from assms(2) show ?thesis
    unfolding eap_request_auth_def Let_def
    by (auto split: option.splits if_splits elim!: bindR_InrE
        dest!: eap_switch_method_frame eap_send_nak_frame)
      (blast dest: disp intro: auth_frame_trans)+
qed

section \<open>What the header of a packet changes\<close>

lemma eap_get_keying_material_core:
  assumes hs: "\<forall>h \<in> set hs. handler_ok h" and "eap_get_keying_material env hs s = Inr (s', rc)"
  shows "s' = s\<lparr>keyingMaterial := keyingMaterial s'\<rparr>"
proof -
  have "find_handler hs t = Some h \<Longrightarrow> eap_auth_get_keys h env s = Inr (s', r) \<Longrightarrow>
      s' = s\<lparr>keyingMaterial := keyingMaterial s'\<rparr>" for t h r
    using hs find_handler_Some eap_keyed_method.get_keys_frame unfolding handler_ok_def by blast
  then show ?thesis
    using assms(2) unfolding eap_get_keying_material_def
    by (auto split: if_splits option.splits elim!: bindR_InrE)
qed

text \<open>What a packet means to the state machine, as a function of its header and the active type.\<close>

definition header_effect :: "int \<Rightarrow> eap_header \<Rightarrow> dot1x_state \<Rightarrow> dot1x_state" where
  "header_effect etype h m =
     (if eap_code h = EAP_REQUEST then
        (let m = m\<lparr>previousId := receivedId m, receivedId := uint (eap_identifier h)\<rparr> in
         if eap_type h = EAP_TYPE_IDENTITY then m\<lparr>reqId := TRUE\<rparr>
         else if eap_type h = EAP_TYPE_NOTIFY \<or> eap_length h \<le> 4 then m
         else m\<lparr>reqAuth := TRUE\<rparr>)
      else if eap_code h = EAP_RESPONSE then
        (if uint (eap_type h) = EAP_TYPE_LEAP then m\<lparr>reqAuth := TRUE\<rparr> else m)
      else if eap_code h = EAP_SUCCESS then
        (if etype = EAP_TYPE_LEAP then m\<lparr>reqAuth := TRUE\<rparr> else m\<lparr>eapSuccess := TRUE\<rparr>)
      else if eap_code h = EAP_FAILURE then m\<lparr>eapFail := TRUE\<rparr>
      else m)"

lemma eap_got_request_statemachine:
  assumes "eap_got_request s f h = Inr s'" and "eap_code h = EAP_REQUEST"
  shows "statemachine s' = map_option (header_effect t h) (statemachine s)"
  using assms unfolding eap_got_request_def eap_do_notify_def Let_def
  by (cases "statemachine s") (auto simp: header_effect_def Let_def split: if_splits elim!: bindR_InrE)

lemma eap_do_fail_statemachine: "eap_do_fail hs s = Inr (s', rc) \<Longrightarrow> statemachine s' = statemachine s"
  by (auto simp: eap_do_fail_def put_active_def split: if_splits option.splits elim!: bindR_InrE)

lemma wpa_keying_material_statemachine:
  "wpa_keying_material env s = Inr (s', rc) \<Longrightarrow> statemachine s' = statemachine s"
  by (auto simp: wpa_keying_material_def split: if_splits option.splits elim!: bindR_InrE)

lemma run_success_cmd_statemachine [simp]: "statemachine (run_success_cmd env s) = statemachine s"
  by (simp add: run_success_cmd_def)

lemma eap_got_success_statemachine:
  assumes hs: "\<forall>h \<in> set hs. handler_ok h" and "eap_got_success env hs s f = Inr (s', f')"
    and "eap_code h = EAP_SUCCESS"
  shows "statemachine s' = map_option (header_effect (eapType s) h) (statemachine s)"
proof -
  have k: "eap_get_keying_material env hs t = Inr (t', rc) \<Longrightarrow> statemachine t' = statemachine t" for t t' rc
  proof -
    assume "eap_get_keying_material env hs t = Inr (t', rc)"
    then obtain km where "t' = t\<lparr>keyingMaterial := km\<rparr>"
      using eap_get_keying_material_core [OF hs] by blast
    then show ?thesis by simp
  qed
  show ?thesis
    using assms(2,3) unfolding eap_got_success_def
    by (cases "statemachine s")
      (auto simp: header_effect_def split: if_splits elim!: bindR_InrE dest!: k wpa_keying_material_statemachine)
qed

lemma eap_process_header_effect_at:
  assumes "\<forall>h \<in> set hs. handler_ok h" and "view_eap_header f = Inr h"
    and "eap_process_header env hs s f = Inr (s', f')"
  shows "statemachine s' = map_option (header_effect (eapType s) h) (statemachine s)"
proof (cases "statemachine s")
  case None
  then show ?thesis using assms(3) by (simp add: eap_process_header_def)
next
  case (Some m)
  then show ?thesis
    using assms unfolding eap_process_header_def
    by (auto simp: header_effect_def [of _ _ m] split: if_splits elim!: bindR_InrE
        dest!: eap_do_fail_statemachine eap_got_success_statemachine [OF assms(1)]
          eap_got_request_statemachine [where t = "eapType s"])
qed

lemma eap_process_header_statemachine:
  assumes "\<forall>h \<in> set hs. handler_ok h" and "eap_process_header env hs s f = Inr (s', f')"
  shows "statemachine s = None \<and> statemachine s' = None \<or>
    (\<exists>m h e. statemachine s = Some m \<and> statemachine s' = Some (header_effect e h m))"
proof (cases "statemachine s")
  case None
  then show ?thesis using assms(2) by (simp add: eap_process_header_def)
next
  case (Some m)
  then obtain h where "view_eap_header f = Inr h"
    using assms(2) by (auto simp: eap_process_header_def elim!: bindR_InrE)
  from eap_process_header_effect_at [OF assms(1) this assms(2)] show ?thesis using Some by auto
qed


text \<open>The table with every parameter filled by a method of the development.\<close>

definition sample_handlers :: "eap_type_handler list" where
  "sample_handlers = eaphandlers md5_handler md5_handler md5_handler"

lemma md5_handler_ok: "handler_ok md5_handler"
  using md5_keys.eap_keyed_method_axioms by (simp add: handler_ok_def md5_handler_def)

lemma sample_handlers_ok: "\<forall>h \<in> set sample_handlers. handler_ok h"
  unfolding sample_handlers_def by (rule eaphandlers_ok; rule md5_handler_ok)

lemma view_eap_frame:
  "view_eap_header (eap_frame c i l t d) =
     Inr \<lparr>eap_code = c, eap_identifier = i, eap_length = uint l, eap_type = t\<rparr>"
  by (simp add: view_eap_header_def ntohs_bytes_def)


text \<open>C31: A request for a type that is not configured is answered with a NAK that offers the first
  configured type, carries the identifier of the request and is otherwise a well-formed response of 6
  bytes. No state changes.\<close>

theorem eap_request_auth_nak:
  assumes "userdata s = Some u" and "methods u = m # ms" and "statemachine s = Some sm"
    and "view_eap_header f = Inr h" and "4 < eap_length h"
    and "find_method (methods u) (uint (eap_type h)) = None" and "24 \<le> length out"
  shows "\<exists>out'. eap_request_auth env hs s (Some f) out n = Inr (12, s, out', Some 12, 6) \<and>
    view_eap_header out' = Inr \<lparr>eap_code = EAP_RESPONSE, eap_identifier = word_of_int (receivedId sm),
      eap_length = 6, eap_type = EAP_TYPE_NAK\<rparr> \<and>
    out' ! 23 = word_of_int (method_num m) \<and> length out' = length out \<and> (\<forall>i<18. out' ! i = out ! i)"
proof -
  have "wants_nak None (Some f) = Inr True" using assms by (simp add: wants_nak_def)
  then show ?thesis
    using assms
    by (simp add: eap_request_auth_def working_type_def eap_send_nak_def wr8_Ok wr_u16_Ok Let_def
        view_eap_header_def ntohs_bytes_def)
qed

theorem eap_request_auth_nak_witness:
  "\<exists>out'. eap_request_auth sample_env sample_handlers sample_if (Some (eap_frame 1 6 6 0x0d [0])) (replicate 30 0) 0 =
      Inr (12, sample_if, out', Some 12, 6) \<and> out' ! 23 = 4"
  using eap_request_auth_nak [of sample_if sample_network sample_method "[]" sample_sm "eap_frame 1 6 6 0x0d [0]",
      OF _ _ _ view_eap_frame, of "replicate 30 0" sample_env sample_handlers 0]
  by auto

text \<open>C39: A notification is displayed safely only if its length field is between 5 and 260: the code
  copies as many bytes as that field says, less five, into an array of 255 and never looks at the size
  of the frame. So of the frames of 1518 bytes, exactly those with another length field, and those that
  fill the array without a terminator, drive it out of its memory.\<close>

theorem eap_do_notify_overflow:
  assumes "length f = 1518" and "view_eap_header f = Inr h"
  shows "(\<exists>e. eap_do_notify s f = Inl e) \<longleftrightarrow>
    eap_length h < 5 \<or> 260 < eap_length h \<or> eap_length h = 260 \<and> 0 \<notin> set (take 255 (drop 23 f))"
proof -
  have full: "length (c_string (take 255 (drop 23 f))) = 255 \<longleftrightarrow> 0 \<notin> set (take 255 (drop 23 f))"
    using assms(1) length_c_string_full [of "take 255 (drop 23 f)"] by simp
  have short: "length (c_string (take (nat (eap_length h - 5)) (drop 23 f))) < 255" if "eap_length h < 260"
    using that length_c_string_le [of "take (nat (eap_length h - 5)) (drop 23 f)"]
    by (auto simp: min_def split: if_splits)
  show ?thesis
    using assms full short by (cases "eap_length h = 260") (auto simp: eap_do_notify_def Let_def)
qed

theorem eap_do_notify_overflow_witness:
  "\<exists>e. eap_do_notify sample_if (eap_frame 1 9 3 2 (replicate 1495 0)) = Inl e"
  using eap_do_notify_overflow [OF _ view_eap_frame, of 1 9 3 2 "replicate 1495 0" sample_if] by simp

text \<open>C40: An EAP success that arrives while EAP-MS-CHAPv2 is active but has not derived its keys yet
  stops the program: the keys are copied through a null pointer. The sender of the success needs no
  secret.\<close>

theorem premature_success_fault:
  assumes "statemachine s = Some sm" and "view_eap_header f = Inr h" and "eap_code h = EAP_SUCCESS"
    and "eapType s = EAP_TYPE_MSCHAPV2" and "active s = Some g"
    and "eap_data g = Some (Mschapv2Vars v)" and "mschap_keyingMaterial v = None"
    and "malloc_ok env AIfKeying"
  shows "eap_process_header env (eaphandlers tls ttls peap) s f = Inl NullDeref"
proof -
  obtain u where "userdata s = Some u" using assms(5) by (auto simp: active_def bind_eq_Some_conv)
  moreover have "active (run_success_cmd env (sm_upd k s)) = active s"
    "eapType (run_success_cmd env (sm_upd k s)) = eapType s"
    "userdata (run_success_cmd env (sm_upd k s)) = userdata s" for k
    by (simp_all add: active_def run_success_cmd_def)
  ultimately show ?thesis
    using assms
    by (simp add: eap_process_header_def eap_got_success_def eap_get_keying_material_def eaphandlers_def
        md5_handler_def mschapv2_handler_def eapmschapv2_get_keys_def active_def mschapv2_state_def)
qed

text \<open>C33: Switching methods: when a method has been selected for a request, the active method exists and
  is of the handler's type, whatever was active before - provided that was of a type in the table.\<close>

theorem eap_switch_method_type:
  assumes "eap_switch_method env hs h m s = Inr (s', True)" and "userdata s \<noteq> None"
    and "eapType s = 0 \<or> 0 < eapType s \<and> find_handler hs (eapType s) \<noteq> None"
  shows "eapType s' = eap_auth_type h \<and> active s' \<noteq> None"
proof -
  from assms(1) obtain t where
    c: "(if 0 < eapType s \<and> eapType s \<noteq> eap_auth_type h
      then bindR (eap_clear_active_method hs s) (\<lambda>(s, rc). Ok s) else Ok s) = Inr t"
    and t: "(if eapType t = 0 \<or> active t = None then eap_new_method env h m t else Ok (t, True)) = Inr (s', True)"
    unfolding eap_switch_method_def by (elim bindR_InrE)
  have new: "eap_new_method env h m t = Inr (s', True) \<Longrightarrow> eapType s' = eap_auth_type h \<and> active s' \<noteq> None"
    by (auto simp: eap_new_method_def put_active_def active_def split: if_splits prod.splits elim!: bindR_InrE)
  show ?thesis
  proof (cases "eapType t = 0 \<or> active t = None")
    case False
    then have "eapType t = eapType s" "eapType s = eap_auth_type h"
      using c assms(2,3)
      by (auto simp: eap_clear_active_method_def drop_active_def active_def
          split: if_splits option.splits elim!: bindR_InrE)
    with False t show ?thesis by auto
  qed (use t new in simp)
qed

theorem premature_success_fault_witness:
  "eap_process_header sample_env sample_handlers
     (sample_if\<lparr>eapType := EAP_TYPE_MSCHAPV2, userdata := Some (sample_network\<lparr>activemethod :=
        Some (sample_data\<lparr>eap_data := Some (Mschapv2Vars empty_vars)\<rparr>)\<rparr>)\<rparr>) (eap_frame 3 9 4 0 []) = Inl NullDeref"
  unfolding sample_handlers_def
  by (rule premature_success_fault [OF _ view_eap_frame, where v = empty_vars
        and g = "sample_data\<lparr>eap_data := Some (Mschapv2Vars empty_vars)\<rparr>"])
    (simp_all add: active_def, simp_all add: empty_vars_def)

theorem eap_switch_method_type_witness:
  "\<exists>s'. eap_switch_method sample_env sample_handlers md5_handler (Some sample_method) sample_if = Inr (s', True) \<and>
     eapType s' = EAP_TYPE_MD5 \<and> active s' \<noteq> None"
proof -
  obtain s' where r: "eap_switch_method sample_env sample_handlers md5_handler (Some sample_method) sample_if = Inr (s', True)"
    by (simp add: eap_switch_method_def eap_new_method_def md5_handler_def eapmd5_setup_def)
  then show ?thesis
    using eap_switch_method_type [OF r] by (simp add: md5_handler_def)
qed



text \<open>The header of a reply, read back.\<close>

definition reply_ok :: "interface_data \<Rightarrow> bytes \<Rightarrow> bytes \<Rightarrow> u8 \<Rightarrow> int \<Rightarrow> bool" where
  "reply_ok s out out' typ n \<longleftrightarrow>
     (\<exists>sm. statemachine s = Some sm \<and> view_eap_header out' = Inr \<lparr>eap_code = EAP_RESPONSE,
        eap_identifier = word_of_int (receivedId sm), eap_length = n mod 65536, eap_type = typ\<rparr>) \<and>
     length out' = length out \<and> (\<forall>i<18. out' ! i = out ! i)"

lemma eap_reply_header_ok:
  assumes "eap_reply_header s t inframe f n = Inr (rc, s', f', p', n')" and "t \<noteq> EAP_TYPE_LEAP"
    and "0 < n" and "23 \<le> length f"
  shows "s' = s \<and> p' = Some (n' + 6) \<and> n' = n + 5 \<and> reply_ok s f f' (word_of_int (eapType s)) n'"
proof (cases "statemachine s")
  case None
  with assms show ?thesis by (simp add: eap_reply_header_def Let_def wr_u16_Ok)
next
  case (Some sm)
  then have "f' = f[20 := word_of_int ((n + 5) div 256), 21 := word_of_int (n + 5), 18 := EAP_RESPONSE,
      19 := word_of_int (receivedId sm), 22 := word_of_int (eapType s)]"
    and "s' = s" "p' = Some (n' + 6)" "n' = n + 5"
    using assms by (auto simp: eap_reply_header_def Let_def wr_u16_Ok wr8_Ok)
  then show ?thesis
    using Some assms(4) ntohs_word_of_int [of "n + 5"] by (simp add: reply_ok_def view_eap_header_def)
qed

lemma reply_ok_frame: "auth_frame s t \<Longrightarrow> reply_ok t f f' typ n \<Longrightarrow> reply_ok s f f' typ n"
  by (cases "statemachine s") (auto simp: auth_frame_def reply_ok_def)

lemma reply_ok_old:
  "reply_ok s f f' typ n \<Longrightarrow> length f = length e \<Longrightarrow> \<forall>i<23. f ! i = e ! i \<Longrightarrow> reply_ok s e f' typ n"
  by (simp add: reply_ok_def)

lemma eap_run_method_reply:
  assumes h: "handler_ok h" and e: "env_ok env" and "eap_auth_type h \<noteq> EAP_TYPE_LEAP"
    and "eap_run_method env h s g inframe p k f 0 = Inr (rc, s', f', p', n')"
    and "0 < n'" and "23 \<le> length f"
  shows "p' = Some (n' + 6) \<and> n' + 18 \<le> int (length f) \<and> reply_ok s f f' (word_of_int (eapType s')) n'"
  using assms(4)
proof (cases rule: eap_run_method_InrE)
  case (prompt rc1 G g1 f1 n1)
  then show ?thesis using eap_prompt_frame [OF prompt(3)] assms(5) by simp
next
  case (reply rc1 G g1 f1 n1 t)
  have f1: "length f1 = length f" "\<forall>i<23. f1 ! i = f ! i" "n1 \<le> int (length f) - 23 \<or> n1 \<le> 0"
    using eap_method.process_length [OF handler_method [OF h] reply(1)]
      eap_method.process_header [OF handler_method [OF h] reply(1)]
      eap_method.process_size [OF handler_method [OF h] e reply(1)] by auto
  have "0 < n1" using eap_reply_header_same [OF reply(4)] assms(5) by auto
  then have r: "s' = t" "p' = Some (n' + 6)" "n' = n1 + 5" "reply_ok t f1 f' (word_of_int (eapType t)) n'"
    using eap_reply_header_ok [OF reply(4) assms(3)] assms(6) f1(1) by auto
  have "auth_frame s t"
    using leap_extra_frame [OF reply(3)] auth_frame_after by blast
  from reply_ok_frame [OF this reply_ok_old [OF r(4) f1(1,2)]] show ?thesis
    using f1(3) r(1-3) \<open>0 < n1\<close> by auto
qed

lemma eap_dispatch_reply:
  assumes h: "handler_ok h" and e: "env_ok env" and t: "eap_auth_type h \<noteq> EAP_TYPE_LEAP"
    and "eap_dispatch env h s inframe f 0 = Inr (rc, s', f', p', n')" and n: "0 < n'" and f: "23 \<le> length f"
  shows "p' = Some (n' + 6) \<and> n' + 18 \<le> int (length f) \<and> reply_ok s f f' (word_of_int (eapType s')) n'"
proof -
  have r: "reply_ok (put_active ty g s) f f' b n' \<Longrightarrow> reply_ok s f f' b n'" for ty g b
    using reply_ok_frame [OF auth_frame_put_active] .
  show ?thesis
    using assms(4,5) unfolding eap_dispatch_def Let_def
    by (auto split: option.splits elim!: bindR_InrE dest!: eap_run_method_reply [OF h e t _ n f] r)
qed

text \<open>LEAP included: what a reply takes fits into the output frame.\<close>

lemma eap_run_method_size:
  assumes h: "handler_ok h" and e: "env_ok env" and "23 \<le> length f"
    and "eap_run_method env h s g inframe p k f 0 = Inr (rc, s', f', p', n')" and "n' \<noteq> 0"
  shows "\<exists>q. p' = Some q \<and> 0 \<le> q \<and> q + 12 \<le> int (length f)"
  using assms(4)
proof (cases rule: eap_run_method_InrE)
  case (prompt rc1 G g1 f1 n1)
  then show ?thesis using eap_prompt_frame [OF prompt(3)] assms(5) by simp
next
  case (reply rc1 G g1 f1 n1 t)
  show ?thesis
    using eap_reply_header_same [OF reply(4)] assms(3,5)
      eap_method.process_length [OF handler_method [OF h] reply(1)]
      eap_method.process_size [OF handler_method [OF h] e reply(1)] by auto
qed

lemma eap_request_auth_size:
  assumes hs: "\<forall>h \<in> set hs. handler_ok h" and e: "env_ok env" and f: "24 \<le> length f"
    and "eap_request_auth env hs s inframe f 0 = Inr (rc, s', f', p', n')" and n: "n' \<noteq> 0"
  shows "\<exists>q. p' = Some q \<and> 0 \<le> q \<and> q + 12 \<le> int (length f)"
proof -
  have f23: "23 \<le> length f" using f by simp
  have disp: "find_handler hs t = Some h \<Longrightarrow> eap_dispatch env h u inframe f 0 = Inr (rc, s', f', p', n') \<Longrightarrow>
      \<exists>q. p' = Some q \<and> 0 \<le> q \<and> q + 12 \<le> int (length f)" for t h u
  proof -
    assume "find_handler hs t = Some h"
    then have h: "handler_ok h" using hs find_handler_Some by blast
    assume "eap_dispatch env h u inframe f 0 = Inr (rc, s', f', p', n')"
    then show ?thesis
      unfolding eap_dispatch_def Let_def
      using n by (auto split: option.splits elim!: bindR_InrE dest!: eap_run_method_size [OF h e f23 _ n])
  qed
  from assms(4) show ?thesis
    unfolding eap_request_auth_def Let_def
    using f n by (auto split: option.splits if_splits elim!: bindR_InrE dest!: eap_send_nak_frame)
      (blast dest: disp)+
qed


text \<open>The reply of EAP-MD5 to a challenge of the sample interface.\<close>

definition sample_challenge :: bytes where
  "sample_challenge = eap_frame 1 6 22 4 (16 # replicate 16 9)"

lemma sample_md5_reply:
  "\<exists>s' out'. eap_request_auth sample_env sample_handlers sample_if (Some sample_challenge) (replicate 60 0) 0 =
     Inr (31, s', out', Some 31, 25)"
  by (simp add: sample_challenge_def eap_request_auth_def working_type_def view_eap_frame wants_nak_def
      sample_handlers_def eaphandlers_def md5_handler_def eap_switch_method_def eap_new_method_def
      eapmd5_setup_def eap_dispatch_def put_active_def active_def fresh_method_def eap_note_request_def
      eap_pick_request_def eap_run_method_def no_glob_def eapmd5_process_def md5_conf_def adopt_password_def
      md5_answer_def rdp8_def rd8_def rdp_bytes_def rd_bytes_def md5_reply_def wr8_Ok wr_bytes_def
      sample_crypto_def leap_extra_def eap_reply_header_def wr_u16_Ok eap_used_request_def Let_def)


end
