(* ===== verification/KeyRx.thy ===== *)
theory KeyRx
  imports Cardif Samples
begin

text \<open>
  Reception of EAPOL-Key frames: \<open>key_statemachine.c\<close> and the RC4 key descriptor of
  \<open>eapol_key_type1.c\<close>. Functions that are given a pointer into the frame get the bytes from there on.
\<close>

section \<open>The key packet\<close>

abbreviation RC4_KEY_TYPE :: u8 where "RC4_KEY_TYPE \<equiv> 1"
abbreviation WPA_KEY_TYPE :: u8 where "WPA_KEY_TYPE \<equiv> 254"
abbreviation sizeof_key_packet :: nat where "sizeof_key_packet \<equiv> 44"

record key_packet =
  key_descr :: u8
  key_length :: int
  replay_counter :: bytes
  key_iv :: bytes
  key_index :: u8
  key_signature :: bytes

definition view_key_packet :: "bytes \<Rightarrow> key_packet res" where
  "view_key_packet p =
     (if length p < sizeof_key_packet then Fault OutOfBounds
      else Ok \<lparr>key_descr = p ! 0, key_length = ntohs_bytes (p ! 1) (p ! 2),
               replay_counter = take 8 (drop 3 p), key_iv = take 16 (drop 11 p),
               key_index = p ! 27, key_signature = take 16 (drop 28 p)\<rparr>)"

section \<open>Checking and decrypting\<close>

text \<open>Without keying material, and when an allocation fails, the result is an error code and not
  \<open>FALSE\<close>. \<open>inframe\<close> starts at the EAPOL header, so the key packet is at offset 4 of it.\<close>

definition eapol_key_type1_check_hmac :: "env \<Rightarrow> interface_data \<Rightarrow> bytes \<Rightarrow> int \<Rightarrow> int res" where
  "eapol_key_type1_check_hmac env s inframe framesize =
     (case keyingMaterial s of None \<Rightarrow> Ok XEMALLOC | Some km \<Rightarrow>
      if \<not> malloc_sz env AFrameCopy framesize then Ok XEMALLOC
      else bindR (rd_bytes inframe 0 (nat framesize)) (\<lambda>framecpy.
      bindR (wr_bytes framecpy 32 (replicate 16 0)) (\<lambda>framecpy.
      if \<not> malloc_ok env AHmac then Ok XEMALLOC
      else bindR (rd_bytes km 32 32) (\<lambda>hkey.
      bindR (view_key_packet (drop 4 inframe)) (\<lambda>keydata.
      Ok (if HMAC_MD5 (crypt env) hkey framecpy = key_signature keydata then TRUE else FALSE))))))"

definition eapol_key_type1_get_rc4 ::
  "env \<Rightarrow> interface_data \<Rightarrow> bytes \<Rightarrow> int \<Rightarrow> bytes \<Rightarrow> (int \<times> bytes) res" where
  "eapol_key_type1_get_rc4 env s enckey keylen iv =
     (if \<not> malloc_ok env AWholeKey then Ok (XEMALLOC, [])
      else bindR (deref (keyingMaterial s)) (\<lambda>km.
      bindR (rd_bytes km 0 32) (\<lambda>k.
      bindR (rd_bytes enckey 0 (nat keylen)) (\<lambda>enc.
      Ok (XENONE, RC4 (crypt env) (iv @ k) enc)))))"

text \<open>\<open>framesize - sizeof(*keydata)\<close> is computed in \<open>size_t\<close>, of 32 bits here, and wraps below zero.\<close>

definition key_fits :: "int \<Rightarrow> int \<Rightarrow> bool" where
  "key_fits framesize keylen \<longleftrightarrow>
     (word_of_int keylen :: 32 word) \<le> word_of_int framesize - word_of_int (int sizeof_key_packet)"

definition eapol_key_type1_decrypt ::
  "env \<Rightarrow> interface_data \<Rightarrow> bytes \<Rightarrow> int \<Rightarrow> (interface_data \<times> int) res" where
  "eapol_key_type1_decrypt env s inframe framesize =
     bindR (view_key_packet inframe) (\<lambda>keydata.
     let keylen = key_length keydata; idx = uint (key_index keydata) in
     if keylen \<noteq> 0 \<and> key_fits framesize keylen then
       if \<not> malloc_ok env ANewKey then Ok (s, XEMALLOC)
       else bindR (eapol_key_type1_get_rc4 env s (drop sizeof_key_packet inframe) keylen (key_iv keydata)) (\<lambda>(rc, newkey).
         if rc \<noteq> XENONE then Ok (s, XEBADKEY)
         else bindR (set_wireless_key env s (Some newkey) keylen idx) (\<lambda>(s, rc).
           Ok (s, if rc \<noteq> 0 then FALSE else TRUE)))
     else bindR (set_wireless_key env s (keyingMaterial s) keylen idx) (\<lambda>(s, rc).
           Ok (s, if rc \<noteq> 0 then FALSE else TRUE)))"

definition eapol_key_type1_process :: "env \<Rightarrow> interface_data \<Rightarrow> bytes \<Rightarrow> interface_data res" where
  "eapol_key_type1_process env s inframe =
     bindR (view_eapol_header inframe) (\<lambda>eapolheader.
     let framelen = eapol_length eapolheader in
     bindR (rd8 inframe (OFFSET_TO_EAPOL + 4)) (\<lambda>descr.
     if descr \<noteq> RC4_KEY_TYPE then Ok s
     else bindR (eapol_key_type1_check_hmac env s (drop OFFSET_TO_EAPOL inframe) (framelen + 4)) (\<lambda>ok.
     if ok = FALSE then Ok s
     else bindR (eapol_key_type1_decrypt env s (drop (OFFSET_TO_EAPOL + 4) inframe) framelen) (\<lambda>(s, rc).
       Ok s))))"

definition processKey :: "env \<Rightarrow> interface_data \<Rightarrow> bytes \<Rightarrow> interface_data res" where
  "processKey env s inframe =
     bindR (rd8 inframe OFFSET_TO_EAP) (\<lambda>descr.
     if descr = RC4_KEY_TYPE then eapol_key_type1_process env s inframe else Ok s)"

definition run_key_statemachine :: "env \<Rightarrow> interface_data \<Rightarrow> bytes \<Rightarrow> interface_data res" where
  "run_key_statemachine env s inframe =
     bindR (deref (statemachine s)) (\<lambda>m.
     if rxKey m = TRUE then
       bindR (processKey env s inframe) (\<lambda>s. Ok (sm_upd (rxKey_update (\<lambda>_. FALSE)) s))
     else Ok s)"

section \<open>What a key frame can change\<close>

lemma decrypt_core:
  assumes "eapol_key_type1_decrypt env s f n = Inr (s', rc)"
  shows "same_core s s'"
  using assms unfolding eapol_key_type1_decrypt_def Let_def
  by (elim bindR_InrE) (auto split: if_splits elim!: bindR_InrE dest!: set_wireless_key_core)

lemma processKey_core:
  assumes "processKey env s f = Inr s'"
  shows "same_core s s'"
  using assms unfolding processKey_def eapol_key_type1_process_def Let_def
  by (elim bindR_InrE) (auto split: if_splits elim!: bindR_InrE dest!: decrypt_core)

lemma run_key_statemachine_core:
  assumes "run_key_statemachine env s f = Inr s'"
  shows "\<exists>m r. statemachine s = Some m \<and> statemachine s' = Some (m\<lparr>rxKey := r\<rparr>) \<and>
    same_core (s\<lparr>statemachine := statemachine s'\<rparr>) s'"
proof -
  obtain m where m: "statemachine s = Some m"
    using assms by (auto simp: run_key_statemachine_def elim!: bindR_InrE)
  show ?thesis
  proof (cases "rxKey m = TRUE")
    case True
    then obtain t where t: "processKey env s f = Inr t" and "s' = sm_upd (rxKey_update (\<lambda>_. FALSE)) t"
      using assms m by (auto simp: run_key_statemachine_def elim!: bindR_InrE)
    with processKey_core [OF t] m show ?thesis
      by (intro exI [of _ m] exI [of _ FALSE]) (auto simp: same_core_def sm_upd_def)
  next
    case False
    then have "s' = s" using assms m by (auto simp: run_key_statemachine_def)
    with m show ?thesis by (intro exI [of _ m] exI [of _ "rxKey m"]) (simp add: same_core_def)
  qed
qed

section \<open>The length check\<close>

lemma key_fits_eq:
  assumes "0 \<le> framesize" and "framesize < 65536" and "0 \<le> keylen" and "keylen < 65536"
  shows "key_fits framesize keylen \<longleftrightarrow> framesize < 44 \<or> keylen \<le> framesize - 44"
proof -
  have k: "uint (word_of_int keylen :: u32) = keylen"
    unfolding uint_word_of_int using assms by (simp add: mod_pos_pos_trivial)
  have f: "uint (word_of_int framesize - word_of_int (int sizeof_key_packet) :: u32) =
      (if framesize < 44 then framesize - 44 + 4294967296 else framesize - 44)"
  proof (cases "framesize < 44")
    case True
    have "(framesize - 44 + 4294967296) mod 4294967296 = (framesize - 44) mod 4294967296"
      by (rule mod_add_self2)
    moreover have "(framesize - 44 + 4294967296) mod 4294967296 = framesize - 44 + 4294967296"
      by (rule mod_pos_pos_trivial) (use assms True in simp_all)
    ultimately show ?thesis
      unfolding wi_homs uint_word_of_int using True by simp
  next
    case False
    then show ?thesis
      unfolding wi_homs uint_word_of_int using assms by (simp add: mod_pos_pos_trivial)
  qed
  show ?thesis
    unfolding key_fits_def word_le_def k f using assms by auto
qed

text \<open>C28: The check that a key fits into its packet is \<open>keylen \<le> framesize - 44\<close>, as meant, only for packets of at
  least 44 bytes. A shorter one makes the unsigned difference wrap, and every key length passes.\<close>

theorem key_fits_iff:
  assumes "0 \<le> framesize" and "framesize < 65536" and "0 \<le> keylen" and "keylen < 65536"
  shows "key_fits framesize keylen \<longleftrightarrow> framesize < 44 \<or> keylen \<le> framesize - 44"
  by (rule key_fits_eq [OF assms])

theorem key_fits_iff_witness: "key_fits 10 1000 \<and> \<not> key_fits 60 1000 \<and> key_fits 60 16"
  using key_fits_iff [of 10 1000] key_fits_iff [of 60 1000] key_fits_iff [of 60 16] by simp

section \<open>Installing a key\<close>

text \<open>The packet behind the EAPOL header says what the frame buffer holds: its length, and the code that is due
  for it under a given key.\<close>

definition key_body_length :: "bytes \<Rightarrow> nat" where
  "key_body_length f = nat (ntohs_bytes (f ! 16) (f ! 17))"

definition key_mac :: "env \<Rightarrow> bytes \<Rightarrow> bytes \<Rightarrow> bytes" where
  "key_mac env km f =
     (let body = take (key_body_length f + 4) (drop OFFSET_TO_EAPOL f) in
      HMAC_MD5 (crypt env) (take 32 (drop 32 km)) (take 32 body @ replicate 16 0 @ drop 48 body))"

lemma key_body_length: "int (key_body_length f) = ntohs_bytes (f ! 16) (f ! 17)"
  by (simp add: key_body_length_def ntohs_bytes_bounds)

lemma check_hmac_Ok:
  assumes "\<forall>a. malloc_ok env a" and "keyingMaterial s = Some km" and "64 \<le> length km"
    and "44 \<le> key_body_length f" and "key_body_length f + 18 \<le> length f"
    and "view_key_packet (drop 18 f) = Inr kp"
  shows "eapol_key_type1_check_hmac env s (drop OFFSET_TO_EAPOL f) (int (key_body_length f) + 4) =
    Inr (if key_mac env km f = key_signature kp then TRUE else FALSE)"
proof -
  define n where "n = key_body_length f"
  let ?body = "take (n + 4) (drop 14 f)"
  have "length ?body = n + 4" using assms(5) by (simp add: n_def)
  moreover have "nat (int n + 4) = n + 4" by simp
  ultimately show ?thesis
    using assms
    by (simp add: eapol_key_type1_check_hmac_def malloc_sz_def rd_bytes_def wr_bytes_def key_mac_def
        n_def [symmetric] del: nat_add_distrib)
qed

lemma process_checked:
  assumes "18 \<le> length f" and "19 \<le> length f" and "f ! 18 = RC4_KEY_TYPE"
    and "eapol_key_type1_check_hmac env s (drop OFFSET_TO_EAPOL f) (int (key_body_length f) + 4) = Inr ok"
  shows "processKey env s f =
    (if ok = FALSE then Inr s
     else bindR (eapol_key_type1_decrypt env s (drop 18 f) (int (key_body_length f))) (\<lambda>(s, rc). Ok s))"
  using assms
  by (simp add: processKey_def eapol_key_type1_process_def view_eapol_header_def rd8_def key_body_length)

text \<open>What is logged when a wireless card takes a key.\<close>

definition key_events :: "int \<Rightarrow> bytes option \<Rightarrow> io_event list" where
  "key_events idx kb =
     (if idx AND 0x80 \<noteq> 0 then [SetTxKey (key_slot idx), SetKey (key_slot idx) kb] else [SetKey (key_slot idx) kb])"

lemma set_wireless_key_Ok:
  assumes "isWireless s \<noteq> FALSE" and "\<forall>n. open_socket env n" and "\<forall>n. set_encode env n"
    and "\<forall>k. key = Some k \<longrightarrow> nat keylen \<le> length k"
  shows "\<exists>s'. set_wireless_key env s key keylen idx = Inr (s', XENONE) \<and> same_core s s' \<and>
    io s' = key_events idx (map_option (take (nat keylen)) key) @ io s"
  using assms
  by (cases key) (auto simp: set_wireless_key_def wireless_guard_def rd_bytes_def Let_def transmit_ioctl_def key_events_def)

lemma key_slot_eq: "0 \<le> idx \<Longrightarrow> key_slot idx = idx mod 128 + 1"
proof -
  assume "0 \<le> idx"
  have "idx AND 0x7f = idx mod 128"
    using take_bit_eq_mask [of 7 idx] by (simp add: take_bit_eq_mod mask_eq_exp_minus_1)
  moreover have "x AND 0xff = x mod 256" for x :: int
    using take_bit_eq_mask [of 8 x] by (simp add: take_bit_eq_mod mask_eq_exp_minus_1)
  moreover have "0 \<le> idx mod 128" "idx mod 128 < 128" by simp_all
  ultimately show ?thesis
    by (simp add: key_slot_def mod_pos_pos_trivial)
qed

text \<open>A wireless card that takes keys, and enough memory.\<close>

definition card_takes_keys :: "env \<Rightarrow> interface_data \<Rightarrow> bool" where
  "card_takes_keys env s \<longleftrightarrow> isWireless s \<noteq> FALSE \<and> (\<forall>a. malloc_ok env a) \<and> (\<forall>n. open_socket env n) \<and> (\<forall>n. set_encode env n)"

lemma view_key_packet_bounds:
  "view_key_packet p = Inr kp \<Longrightarrow> 0 \<le> key_length kp \<and> key_length kp < 65536 \<and> key_descr kp = p ! 0 \<and> 44 \<le> length p"
  by (auto simp: view_key_packet_def ntohs_bytes_bounds split: if_splits)

lemma run_key_statemachine_rx:
  "statemachine s = Some m \<Longrightarrow> rxKey m = TRUE \<Longrightarrow> processKey env s f = Inr t \<Longrightarrow>
     run_key_statemachine env s f = Inr (sm_upd (rxKey_update (\<lambda>_. FALSE)) t)"
  by (simp add: run_key_statemachine_def)




text \<open>A key frame: EAPOL header, a packet of 44 bytes for index \<open>idx\<close>, and a key of 5 bytes.\<close>

definition key_frame :: "u8 \<Rightarrow> u8 \<Rightarrow> bytes" where
  "key_frame idx sig = replicate 12 0 @ [0x88, 0x8e, 1, 3, 0, 49] @ [1, 0, 5] @ replicate 8 0 @ replicate 16 2
     @ [idx] @ replicate 16 sig @ [1, 2, 3, 4, 5] @ replicate 40 0"

lemma key_frame_simps [simp]:
  "key_body_length (key_frame idx sig) = 49" "key_frame idx sig ! 18 = 1" "length (key_frame idx sig) = 107"
  "view_key_packet (drop 18 (key_frame idx sig)) = Inr \<lparr>key_descr = 1, key_length = 5, replay_counter = replicate 8 0,
     key_iv = replicate 16 2, key_index = idx, key_signature = replicate 16 sig\<rparr>"
  "take 5 (drop 62 (key_frame idx sig)) = [1, 2, 3, 4, 5]"
  by (simp_all add: key_frame_def key_body_length_def view_key_packet_def ntohs_bytes_def nth_append)

definition sample_wireless :: interface_data where
  "sample_wireless = sample_if\<lparr>isWireless := TRUE, statemachine := Some (sample_sm\<lparr>rxKey := TRUE\<rparr>)\<rparr>"

lemma sample_wireless_takes_keys: "card_takes_keys sample_env (sample_wireless\<lparr>keyingMaterial := k\<rparr>)"
  by (simp add: card_takes_keys_def sample_wireless_def)




end
