(* ===== verification/Statemachine.thy ===== *)
theory Statemachine
  imports Eap Cardif
begin

text \<open>
  The port access state machine of 802.1X, \<open>statemachine.c\<close>: its variables, the frames it builds and
  one run of it. The variables are the record \<open>dot1x_state\<close> inside the interface.
\<close>

section \<open>Setting up\<close>

text \<open>\<open>junk\<close> is what the allocated memory held: the fields that are not listed stay as they were.\<close>

definition statemachine_init :: "env \<Rightarrow> dot1x_state \<Rightarrow> interface_data \<Rightarrow> interface_data \<times> int" where
  "statemachine_init env junk s =
     (if \<not> malloc_ok env AStatemachine then (s\<lparr>statemachine := None\<rparr>, XEMALLOC)
      else (s\<lparr>statemachine := Some (junk\<lparr>
        initialize := 1, authPeriod := 30, authWhile := 30, heldPeriod := 60, heldWhile := 60,
        startPeriod := 30, startWhen := 0, maxStart := 3, reqId := FALSE, userLogoff := FALSE,
        logoffSent := FALSE, reqAuth := FALSE, eapSuccess := FALSE, eapFail := FALSE, startCount := 0,
        previousId := 0xff, receivedId := 0xff, suppStatus := UNAUTHORIZED, tick := FALSE\<rparr>)\<rparr>, XENONE))"

definition statemachine_cleanup :: "interface_data \<Rightarrow> interface_data" where
  "statemachine_cleanup s = s\<lparr>statemachine := None\<rparr>"

section \<open>Frames\<close>

definition txLogoff :: "bytes \<Rightarrow> (bytes \<times> int) res" where
  "txLogoff outframe =
     bindR (put_eapol_type outframe EAPOL_LOGOFF) (\<lambda>f.
     bindR (put_eapol_length f 0) (\<lambda>f.
     Ok (f, sizeof_eapol_header + int OFFSET_PAST_MAC)))"

definition txStart :: "bytes \<Rightarrow> (bytes \<times> int) res" where
  "txStart outframe =
     bindR (put_eapol_type outframe EAPOL_START) (\<lambda>f.
     bindR (put_eapol_length f 0) (\<lambda>f.
     Ok (f, sizeof_eapol_header + int OFFSET_PAST_MAC)))"

text \<open>\<open>outfsize\<close> and \<open>eapsize\<close> are read whether or not the identity was written.\<close>

definition txRspId :: "interface_data \<Rightarrow> bytes \<Rightarrow> (bytes \<times> int) res" where
  "txRspId s outframe =
     bindR (put_eapol_type outframe EAP_PACKET) (\<lambda>f.
     bindR (eap_request_id s f) (\<lambda>(f, sizes).
     bindR (init_val sizes) (\<lambda>(outfsize, eapsize).
     bindR (put_eapol_length f eapsize) (\<lambda>f.
     Ok (f, outfsize + int OFFSET_PAST_MAC)))))"

definition txRspAuth ::
  "env \<Rightarrow> eap_type_handler list \<Rightarrow> interface_data \<Rightarrow> bytes option \<Rightarrow> bytes \<Rightarrow>
     (interface_data \<times> bytes \<times> int) res" where
  "txRspAuth env hs s inframe outframe =
     bindR (eap_request_auth env hs s inframe outframe 0) (\<lambda>(rc, s, f, payloadsize, eapsize).
     if eapsize \<noteq> 0 then
       bindR (put_eapol_type f EAP_PACKET) (\<lambda>f.
       bindR (put_eapol_length f eapsize) (\<lambda>f.
       bindR (init_val payloadsize) (\<lambda>payloadsize.
       Ok (s, f, payloadsize + int OFFSET_PAST_MAC))))
     else Ok (s, f, 0))"

section \<open>Timers and global transitions\<close>

definition dec_if_nz :: "int \<Rightarrow> int" where
  "dec_if_nz decval = (if 0 < decval then decval - 1 else decval)"

definition sm_tick :: "dot1x_state \<Rightarrow> dot1x_state" where
  "sm_tick m =
     (if tick m = TRUE
      then m\<lparr>authWhile := dec_if_nz (authWhile m), heldWhile := dec_if_nz (heldWhile m),
             startWhen := dec_if_nz (startWhen m), tick := FALSE\<rparr>
      else m)"

definition port_down :: "dot1x_state \<Rightarrow> bool" where
  "port_down m \<longleftrightarrow> initialize m \<noteq> 0 \<or> portEnabled m = 0"

text \<open>The transition that is taken, and whether wireless keys are to be reset.\<close>

definition sm_global_step :: "dot1x_state \<Rightarrow> dot1x_state \<times> bool" where
  "sm_global_step m =
     (if initialize m = TRUE \<or> portEnabled m = FALSE then
        (m\<lparr>curState := DISCONNECTED, initialize := FALSE\<rparr>, True)
      else if eapFail m \<noteq> 0 \<and> \<not> port_down m \<and> userLogoff m = 0 \<and> logoffSent m = 0 then
        (m\<lparr>lastState := curState m, curState := HELD\<rparr>, True)
      else if userLogoff m \<noteq> 0 \<and> logoffSent m = 0 \<and> \<not> port_down m then
        (m\<lparr>lastState := curState m, curState := LOGOFF\<rparr>, True)
      else if eapSuccess m \<noteq> 0 \<and> \<not> port_down m \<and> userLogoff m = 0 \<and> logoffSent m = 0 then
        (m\<lparr>lastState := curState m, curState := AUTHENTICATED\<rparr>, False)
      else (m, False))"

definition sm_global :: "env \<Rightarrow> interface_data \<Rightarrow> interface_data res" where
  "sm_global env s =
     (case get_if_state env (sm_upd sm_tick s) of (s, up) \<Rightarrow>
      bindR (deref (statemachine s)) (\<lambda>m.
      case sm_global_step (m\<lparr>portEnabled := up\<rparr>) of (m, reset) \<Rightarrow>
      let s = s\<lparr>statemachine := Some m\<rparr> in
      if reset \<and> isWireless s = TRUE then cardif_reset_keys env s else Ok s))"

section \<open>The states\<close>

definition sm_disconnected :: "dot1x_state \<Rightarrow> dot1x_state" where
  "sm_disconnected m = m\<lparr>eapSuccess := FALSE, eapFail := FALSE, startCount := 0, logoffSent := FALSE,
     previousId := 256, suppStatus := UNAUTHORIZED, lastState := DISCONNECTED, curState := CONNECTING\<rparr>"

definition sm_held :: "dot1x_state \<Rightarrow> dot1x_state" where
  "sm_held m =
     (let m = (if eapFail m = TRUE \<and> \<not> (initialize m = TRUE \<or> portEnabled m = FALSE) \<and>
                  userLogoff m = FALSE \<and> logoffSent m = FALSE
               then m\<lparr>heldWhile := heldPeriod m, eapFail := FALSE, suppStatus := UNAUTHORIZED\<rparr> else m);
          m = (if heldWhile m = 0 then m\<lparr>lastState := HELD, curState := DISCONNECTED\<rparr> else m);
          m = (if reqId m = TRUE then m\<lparr>lastState := HELD, curState := ACQUIRED\<rparr> else m)
      in m\<lparr>lastState := HELD\<rparr>)"

definition sm_authenticated :: "dot1x_state \<Rightarrow> dot1x_state" where
  "sm_authenticated m =
     (let m = (if eapSuccess m = TRUE \<and> \<not> (initialize m = TRUE \<or> portEnabled m = FALSE)
               then m\<lparr>eapSuccess := FALSE, eapFail := FALSE, suppStatus := AUTHORIZED\<rparr> else m);
          m = (if reqId m = TRUE then m\<lparr>lastState := AUTHENTICATED, curState := ACQUIRED\<rparr> else m)
      in m\<lparr>lastState := AUTHENTICATED\<rparr>)"

text \<open>The result of a run: return value, interface, output frame, and \<open>*outsize\<close> if it has been stored.\<close>

type_synonym run_result = "int \<times> interface_data \<times> bytes \<times> int option"

definition sm_logoff_leave :: "dot1x_state \<Rightarrow> dot1x_state" where
  "sm_logoff_leave m =
     (if userLogoff m \<noteq> 1 then m\<lparr>curState := DISCONNECTED, lastState := LOGOFF\<rparr> else m\<lparr>lastState := LOGOFF\<rparr>)"

definition sm_logoff :: "interface_data \<Rightarrow> bytes \<Rightarrow> int option \<Rightarrow> run_result res" where
  "sm_logoff s out outsize =
     bindR (deref (statemachine s)) (\<lambda>m.
     if userLogoff m = TRUE \<and> logoffSent m = FALSE \<and> \<not> (initialize m = TRUE \<or> portEnabled m = FALSE) then
       bindR (txLogoff out) (\<lambda>(out, n).
       Ok (XDATA, sm_upd (\<lambda>m. sm_logoff_leave (m\<lparr>logoffSent := TRUE, suppStatus := UNAUTHORIZED\<rparr>)) s,
           out, Some n))
     else Ok (XENONE, sm_upd sm_logoff_leave s, out, outsize))"

definition sm_auth_leave :: "dot1x_state \<Rightarrow> dot1x_state" where
  "sm_auth_leave m =
     (let m = (if authWhile m = 0 then m\<lparr>lastState := AUTHENTICATING, curState := CONNECTING\<rparr> else m);
          m = (if reqId m = TRUE then m\<lparr>lastState := AUTHENTICATING, curState := ACQUIRED\<rparr> else m)
      in m\<lparr>lastState := AUTHENTICATING\<rparr>)"

definition sm_authenticating ::
  "env \<Rightarrow> eap_type_handler list \<Rightarrow> interface_data \<Rightarrow> bytes option \<Rightarrow> bytes \<Rightarrow> run_result res" where
  "sm_authenticating env hs s inframe out =
     bindR (deref (statemachine s)) (\<lambda>m.
     let req = (reqAuth m = TRUE);
         s = (if req then sm_upd (\<lambda>m. m\<lparr>authWhile := authPeriod m, reqAuth := FALSE\<rparr>) s else s) in
     bindR (txRspAuth env hs s inframe out) (\<lambda>(s, out, n).
     let s = (if req \<and> inframe \<noteq> None then sm_upd (\<lambda>m. m\<lparr>previousId := receivedId m\<rparr>) s else s) in
     Ok (if n \<noteq> 0 then XDATA else XENONE, sm_upd sm_auth_leave s, out, Some n)))"

definition sm_connect_leave :: "dot1x_state \<Rightarrow> dot1x_state" where
  "sm_connect_leave m =
     (let m = (if reqId m = TRUE then m\<lparr>lastState := CONNECTING, curState := ACQUIRED\<rparr> else m);
          m = (if startWhen m = 0 \<and> maxStart m \<le> startCount m
               then m\<lparr>lastState := CONNECTING, curState := AUTHENTICATED\<rparr> else m)
      in m\<lparr>lastState := CONNECTING\<rparr>)"

definition sm_connecting :: "interface_data \<Rightarrow> bytes \<Rightarrow> int option \<Rightarrow> run_result res" where
  "sm_connecting s out outsize =
     bindR (deref (statemachine s)) (\<lambda>m.
     if startWhen m = 0 \<and> startCount m < maxStart m then
       bindR (txStart out) (\<lambda>(out, n).
       Ok (XDATA, sm_upd (\<lambda>m. sm_connect_leave
             (m\<lparr>startWhen := startPeriod m, startCount := startCount m + 1, reqId := FALSE\<rparr>)) s, out, Some n))
     else Ok (XENONE, sm_upd sm_connect_leave s, out, outsize))"

text \<open>The first half of ACQUIRED, up to the test of \<open>reqAuth\<close>.\<close>

definition sm_acquired :: "interface_data \<Rightarrow> bytes \<Rightarrow> int option \<Rightarrow> run_result res" where
  "sm_acquired s out outsize =
     bindR (deref (statemachine s)) (\<lambda>m.
     if reqId m \<noteq> 0 then
       let s = sm_upd (\<lambda>m. m\<lparr>authWhile := authPeriod m, startCount := 0, reqId := FALSE, reqAuth := FALSE\<rparr>) s in
       bindR (txRspId s out) (\<lambda>(out, n).
       Ok (XDATA, sm_upd (\<lambda>m. m\<lparr>previousId := receivedId m\<rparr>) s, out, Some n))
     else Ok (XENONE, s, out, outsize))"

definition sm_other_state ::
  "env \<Rightarrow> eap_type_handler list \<Rightarrow> int \<Rightarrow> interface_data \<Rightarrow> bytes option \<Rightarrow> bytes \<Rightarrow> int option \<Rightarrow> run_result res" where
  "sm_other_state env hs st s inframe out outsize =
     (if st = DISCONNECTED then Ok (XENONE, sm_upd sm_disconnected s, out, outsize)
      else if st = LOGOFF then sm_logoff s out outsize
      else if st = HELD then Ok (XENONE, sm_upd sm_held s, out, outsize)
      else if st = AUTHENTICATED then Ok (XENONE, sm_upd sm_authenticated s, out, outsize)
      else if st = AUTHENTICATING then sm_authenticating env hs s inframe out
      else if st = CONNECTING then sm_connecting s out outsize
      else Ok (XENONE, s, out, outsize))"

section \<open>One run\<close>

definition cur :: "interface_data \<Rightarrow> int option" where
  "cur s = map_option curState (statemachine s)"

definition reqauth :: "interface_data \<Rightarrow> bool" where
  "reqauth s = (map_option reqAuth (statemachine s) = Some TRUE)"

text \<open>The global transitions only leave a state for DISCONNECTED, HELD, LOGOFF or AUTHENTICATED. So the
  call that ACQUIRED makes of the function itself, from AUTHENTICATING, does not come back to
  ACQUIRED, and the recursion ends.\<close>

lemma sm_global_step_cur:
  "sm_global_step m = (m', r) \<Longrightarrow> curState m' = curState m \<or> curState m' \<in> {DISCONNECTED, HELD, LOGOFF, AUTHENTICATED}"
  by (auto simp: sm_global_step_def split: if_splits)

lemma sm_tick_cur [simp]: "curState (sm_tick m) = curState m"
  by (simp add: sm_tick_def)

lemma sm_global_Inr:
  assumes "sm_global env s = Inr s1"
  obtains m m1 t up reset where "statemachine s = Some m"
    "get_if_state env (sm_upd sm_tick s) = (t, up)"
    "sm_global_step (sm_tick m\<lparr>portEnabled := up\<rparr>) = (m1, reset)"
    "statemachine s1 = Some m1" "same_core (t\<lparr>statemachine := Some m1\<rparr>) s1"
proof -
  obtain t up where g: "get_if_state env (sm_upd sm_tick s) = (t, up)" by fastforce
  then have t: "statemachine t = map_option sm_tick (statemachine s)"
    using get_if_state_core by (fastforce simp: same_core_def)
  with assms g obtain m where m: "statemachine s = Some m"
    by (cases "statemachine s") (auto simp: sm_global_def)
  obtain m1 reset where st: "sm_global_step (sm_tick m\<lparr>portEnabled := up\<rparr>) = (m1, reset)" by fastforce
  then have "(if reset \<and> isWireless t = TRUE then cardif_reset_keys env (t\<lparr>statemachine := Some m1\<rparr>)
      else Ok (t\<lparr>statemachine := Some m1\<rparr>)) = Inr s1"
    using assms g t m by (simp add: sm_global_def Let_def)
  then have c: "same_core (t\<lparr>statemachine := Some m1\<rparr>) s1"
    using cardif_reset_keys_core by (auto split: if_splits)
  then have "statemachine s1 = Some m1" by (simp add: same_core_def)
  with that m g st c show ?thesis by blast
qed

lemma sm_global_acquired:
  "sm_global env s = Inr s1 \<Longrightarrow> cur s1 = Some ACQUIRED \<Longrightarrow> cur s = Some ACQUIRED"
  by (erule sm_global_Inr) (auto simp: cur_def dest!: sm_global_step_cur)

function statemachine_run ::
  "env \<Rightarrow> eap_type_handler list \<Rightarrow> interface_data \<Rightarrow> bytes option \<Rightarrow> bytes \<Rightarrow> int option \<Rightarrow> run_result res" where
  "statemachine_run env hs s inframe out outsize =
     (if statemachine s = None then Ok (XEMALLOC, s, out, outsize)
      else bindR (sm_global env s) (\<lambda>s1.
        if cur s1 \<noteq> Some ACQUIRED then sm_other_state env hs (the (cur s1)) s1 inframe out outsize
        else bindR (sm_acquired s1 out outsize) (\<lambda>(rc, s2, out, outsize).
          bindR (if reqauth s2 then
                   statemachine_run env hs
                     (sm_upd (\<lambda>m. m\<lparr>lastState := ACQUIRED, curState := AUTHENTICATING\<rparr>) s2)
                     inframe out outsize
                 else Ok (rc, s2, out, outsize)) (\<lambda>(rc, s3, out, outsize).
          Ok (rc, sm_upd (lastState_update (\<lambda>_. ACQUIRED)) s3, out, outsize)))))"
  by pat_completeness auto
termination
proof (relation "measure (\<lambda>(env, hs, s, rest). if cur s = Some ACQUIRED then 1 else 0)")
qed (auto simp: cur_def dest: sm_global_acquired)

declare statemachine_run.simps [simp del]

section \<open>The link\<close>

definition link_up :: "env \<Rightarrow> interface_data \<Rightarrow> bool" where
  "link_up env s \<longleftrightarrow> (\<exists>fl. if_flags env (calls s) = Some fl \<and> fl AND IFF_UP = IFF_UP)"

lemma get_if_state_link: "get_if_state env s = (t, up) \<Longrightarrow> up = (if link_up env s then TRUE else FALSE)"
  by (auto simp: get_if_state_def link_up_def split: option.splits if_splits)

lemma link_up_sm_upd [simp]: "link_up env (sm_upd f s) = link_up env s"
  by (simp add: link_up_def)

text \<open>The variables after the global transitions.\<close>

definition after_global :: "env \<Rightarrow> interface_data \<Rightarrow> dot1x_state \<Rightarrow> dot1x_state" where
  "after_global env s m =
     fst (sm_global_step (sm_tick m\<lparr>portEnabled := if link_up env s then TRUE else FALSE\<rparr>))"

lemma sm_global_total:
  assumes "statemachine s = Some m"
  shows "\<exists>s1. sm_global env s = Inr s1 \<and> statemachine s1 = Some (after_global env s m) \<and>
    same_core (s\<lparr>statemachine := Some (after_global env s m)\<rparr>) s1"
proof -
  obtain t up where g: "get_if_state env (sm_upd sm_tick s) = (t, up)" by fastforce
  have up: "up = (if link_up env s then TRUE else FALSE)" using get_if_state_link [OF g] by simp
  have c: "same_core (sm_upd sm_tick s) t" using get_if_state_core [OF g] by simp
  then have t: "statemachine t = Some (sm_tick m)" using assms by (simp add: same_core_def)
  obtain m1 r where st: "sm_global_step (sm_tick m\<lparr>portEnabled := up\<rparr>) = (m1, r)" by fastforce
  then have m1: "after_global env s m = m1" by (simp add: after_global_def up)
  obtain s1 where s1: "(if r \<and> isWireless t = TRUE then cardif_reset_keys env (t\<lparr>statemachine := Some m1\<rparr>)
      else Ok (t\<lparr>statemachine := Some m1\<rparr>)) = Inr s1"
    using cardif_reset_keys_no_fault [of env "t\<lparr>statemachine := Some m1\<rparr>"]
    by (cases "r \<and> isWireless t = TRUE") auto
  then have "sm_global env s = Inr s1" by (simp add: sm_global_def g t st Let_def)
  moreover have "same_core (t\<lparr>statemachine := Some m1\<rparr>) s1"
    using s1 cardif_reset_keys_core by (auto split: if_splits)
  ultimately show ?thesis
    using c by (simp add: m1 same_core_def sm_upd_def)
qed

lemma sm_globalD:
  assumes "sm_global env s = Inr s1"
  shows "\<exists>m. statemachine s = Some m \<and> statemachine s1 = Some (after_global env s m) \<and>
    same_core (s\<lparr>statemachine := Some (after_global env s m)\<rparr>) s1"
proof -
  obtain m where "statemachine s = Some m" by (rule sm_global_Inr [OF assms])
  with sm_global_total [OF this, of env] assms show ?thesis by simp
qed

lemma after_global_down:
  "initialize m = TRUE \<or> \<not> link_up env s \<Longrightarrow>
     curState (after_global env s m) = DISCONNECTED \<and> initialize (after_global env s m) = FALSE"
  by (auto simp: after_global_def sm_global_step_def sm_tick_def)

section \<open>The machine without its surroundings\<close>

text \<open>The steps of the machine on its variables alone, one rule for each branch of the code: the
  packets, the methods and the kernel only decide which branch is taken, and in AUTHENTICATING what
  LEAP makes of \<open>eapSuccess\<close>.\<close>

definition global_at :: "int \<Rightarrow> dot1x_state \<Rightarrow> dot1x_state" where
  "global_at up m = fst (sm_global_step (sm_tick m\<lparr>portEnabled := up\<rparr>))"

inductive sm_step :: "dot1x_state \<Rightarrow> dot1x_state \<Rightarrow> bool" where
  Disconnected: "curState m = DISCONNECTED \<Longrightarrow> sm_step m (sm_disconnected m)"
| LogoffSend: "curState m = LOGOFF \<Longrightarrow> userLogoff m = TRUE \<Longrightarrow> logoffSent m = FALSE \<Longrightarrow>
    sm_step m (sm_logoff_leave (m\<lparr>logoffSent := TRUE, suppStatus := UNAUTHORIZED\<rparr>))"
| LogoffWait: "curState m = LOGOFF \<Longrightarrow> sm_step m (sm_logoff_leave m)"
| Held: "curState m = HELD \<Longrightarrow> sm_step m (sm_held m)"
| Authenticated: "curState m = AUTHENTICATED \<Longrightarrow> sm_step m (sm_authenticated m)"
| Authenticating: "curState m = AUTHENTICATING \<Longrightarrow> a = authWhile m \<or> a = authPeriod m \<Longrightarrow>
    r = reqAuth m \<or> r = FALSE \<Longrightarrow> p = previousId m \<or> p = receivedId m \<Longrightarrow>
    sm_step m (sm_auth_leave (m\<lparr>authWhile := a, reqAuth := r, eapSuccess := v, previousId := p\<rparr>))"
| ConnectStart: "curState m = CONNECTING \<Longrightarrow> startWhen m = 0 \<Longrightarrow> startCount m < maxStart m \<Longrightarrow>
    sm_step m (sm_connect_leave (m\<lparr>startWhen := startPeriod m, startCount := startCount m + 1, reqId := FALSE\<rparr>))"
| ConnectWait: "curState m = CONNECTING \<Longrightarrow> startWhen m \<noteq> 0 \<or> maxStart m \<le> startCount m \<Longrightarrow>
    sm_step m (sm_connect_leave m)"
| AcquiredId: "curState m = ACQUIRED \<Longrightarrow> reqId m \<noteq> 0 \<Longrightarrow>
    sm_step m (m\<lparr>authWhile := authPeriod m, startCount := 0, reqId := FALSE, reqAuth := FALSE,
      previousId := receivedId m, lastState := ACQUIRED\<rparr>)"
| AcquiredWait: "curState m = ACQUIRED \<Longrightarrow> reqId m = 0 \<Longrightarrow> reqAuth m \<noteq> TRUE \<Longrightarrow>
    sm_step m (m\<lparr>lastState := ACQUIRED\<rparr>)"
| AcquiredAuth: "curState m = ACQUIRED \<Longrightarrow> reqId m = 0 \<Longrightarrow> reqAuth m = TRUE \<Longrightarrow>
    up = TRUE \<or> up = FALSE \<Longrightarrow>
    sm_step (global_at up (m\<lparr>lastState := ACQUIRED, curState := AUTHENTICATING\<rparr>)) m' \<Longrightarrow>
    sm_step m (m'\<lparr>lastState := ACQUIRED\<rparr>)"
| Unknown: "curState m \<notin> {LOGOFF..AUTHENTICATED} \<Longrightarrow> sm_step m m"

lemma after_global_at:
  "after_global env s m = global_at (if link_up env s then TRUE else FALSE) m"
  by (simp add: after_global_def global_at_def)

lemma txRspAuth_frame:
  assumes "\<forall>h \<in> set hs. handler_ok h" and "txRspAuth env hs s inframe out = Inr (s', out', n)"
  shows "auth_frame s s' \<and> length out' = length out"
proof -
  have p: "put_eapol_type f t = Inr f' \<Longrightarrow> length f' = length f" for f f' t
    by (auto simp: put_eapol_type_def wr8_eq_Inr wr_u16_eq split: if_splits elim!: bindR_InrE)
  have q: "put_eapol_length f k = Inr f' \<Longrightarrow> length f' = length f" for f f' k
    by (auto simp: put_eapol_length_def wr_u16_eq split: if_splits)
  show ?thesis
    using assms(2) unfolding txRspAuth_def
    by (auto split: if_splits elim!: bindR_InrE dest!: eap_request_auth_frame [OF assms(1)] p q)
qed

lemma sm_authenticating_step:
  assumes hs: "\<forall>h \<in> set hs. handler_ok h" and m: "statemachine s = Some m" "curState m = AUTHENTICATING"
    and "sm_authenticating env hs s inframe out = Inr (rc, s', out', osz)"
  shows "\<exists>m'. statemachine s' = Some m' \<and> sm_step m m'"
proof -
  define t where "t = (if reqAuth m = TRUE then sm_upd (\<lambda>m. m\<lparr>authWhile := authPeriod m, reqAuth := FALSE\<rparr>) s else s)"
  obtain u n where u: "txRspAuth env hs t inframe out = Inr (u, out', n)"
    and s': "s' = sm_upd sm_auth_leave (if reqAuth m = TRUE \<and> inframe \<noteq> None
      then sm_upd (\<lambda>m. m\<lparr>previousId := receivedId m\<rparr>) u else u)"
    using assms(4) unfolding sm_authenticating_def
    by (auto simp: m(1) t_def Let_def elim!: bindR_InrE)
  obtain a r where t: "statemachine t = Some (m\<lparr>authWhile := a, reqAuth := r\<rparr>)"
    "a = authWhile m \<or> a = authPeriod m" "r = reqAuth m \<or> r = FALSE"
  proof (cases "reqAuth m = TRUE")
    case True
    show ?thesis by (rule that [of FALSE "authPeriod m"]) (use True m in \<open>simp_all add: t_def\<close>)
  next
    case False
    show ?thesis by (rule that [of "reqAuth m" "authWhile m"]) (use False m in \<open>simp_all add: t_def\<close>)
  qed
  obtain v where v: "statemachine u = Some (m\<lparr>authWhile := a, reqAuth := r, eapSuccess := v\<rparr>)"
    using txRspAuth_frame [OF hs u] t by (auto simp: auth_frame_def)
  have "\<exists>p. (p = previousId m \<or> p = receivedId m) \<and> statemachine s' =
      Some (sm_auth_leave (m\<lparr>authWhile := a, reqAuth := r, eapSuccess := v, previousId := p\<rparr>))"
    using v by (cases "reqAuth m = TRUE \<and> inframe \<noteq> None") (auto simp: s')
  then show ?thesis using sm_step.Authenticating [OF m(2) t(2,3)] by blast
qed

lemma sm_other_state_step:
  assumes hs: "\<forall>h \<in> set hs. handler_ok h" and m: "statemachine s = Some m" and "curState m \<noteq> ACQUIRED"
    and o: "sm_other_state env hs (curState m) s inframe out outsize = Inr (rc, s', out', osz)"
  shows "\<exists>m'. statemachine s' = Some m' \<and> sm_step m m'"
proof -
  consider "curState m = DISCONNECTED" | "curState m = LOGOFF" | "curState m = HELD" | "curState m = AUTHENTICATED"
    | "curState m = AUTHENTICATING" | "curState m = CONNECTING" | "curState m \<notin> {LOGOFF..AUTHENTICATED}"
    using assms(3) by fastforce
  then show ?thesis
  proof cases
    case 5
    then show ?thesis using o sm_authenticating_step [OF hs m] by (simp add: sm_other_state_def)
  next
    case 7
    then have "s' = s" using o by (auto simp: sm_other_state_def)
    then show ?thesis using m sm_step.Unknown [OF 7] by blast
  qed (use o m in \<open>auto simp: sm_other_state_def sm_logoff_def sm_connecting_def not_less
      split: if_splits elim!: bindR_InrE intro: sm_step.intros\<close>)
qed

lemma sm_acquired_cases:
  assumes "sm_acquired s out outsize = Inr (rc, s', out', osz)" and m: "statemachine s = Some m"
  obtains (id) "reqId m \<noteq> 0" "rc = XDATA" "txRspId (sm_upd (\<lambda>m. m\<lparr>authWhile := authPeriod m, startCount := 0,
        reqId := FALSE, reqAuth := FALSE\<rparr>) s) out = Inr (out', the osz)" "osz \<noteq> None"
      "statemachine s' = Some (m\<lparr>authWhile := authPeriod m, startCount := 0, reqId := FALSE,
        reqAuth := FALSE, previousId := receivedId m\<rparr>)"
    | (skip) "reqId m = 0" "rc = XENONE" "s' = s" "out' = out" "osz = outsize"
proof (cases "reqId m = 0")
  case True
  then have "rc = XENONE" "s' = s" "out' = out" "osz = outsize"
    using assms(1) m by (simp_all add: sm_acquired_def)
  then show thesis using True skip by blast
next
  case False
  let ?s = "sm_upd (\<lambda>m. m\<lparr>authWhile := authPeriod m, startCount := 0, reqId := FALSE, reqAuth := FALSE\<rparr>) s"
  obtain g n where g: "txRspId ?s out = Inr (g, n)"
    using assms(1) m False by (auto simp: sm_acquired_def Let_def elim!: bindR_InrE)
  then have "rc = XDATA" "s' = sm_upd (\<lambda>m. m\<lparr>previousId := receivedId m\<rparr>) ?s" "out' = g" "osz = Some n"
    using assms(1) m False by (simp_all add: sm_acquired_def)
  with id [OF False] g m show thesis by simp
qed

lemma statemachine_run_step:
  assumes "\<forall>h \<in> set hs. handler_ok h" and "statemachine s = Some m"
    and "statemachine_run env hs s inframe out outsize = Inr (rc, s', out', osz)"
  shows "\<exists>m'. statemachine s' = Some m' \<and> sm_step (after_global env s m) m'"
  using assms
proof (induction env hs s inframe out outsize arbitrary: m rc s' out' osz rule: statemachine_run.induct)
  case (1 env hs s inframe out outsize)
  obtain s1 where g: "sm_global env s = Inr s1" and s1: "statemachine s1 = Some (after_global env s m)"
    using sm_global_total [OF 1(3), of env] by blast
  let ?m = "after_global env s m"
  show ?case
  proof (cases "curState ?m = ACQUIRED")
    case False
    then have "sm_other_state env hs (curState ?m) s1 inframe out outsize = Inr (rc, s', out', osz)"
      using 1(4) by (subst (asm) statemachine_run.simps) (simp add: 1(3) g cur_def s1)
    from sm_other_state_step [OF 1(2) s1 False this] show ?thesis .
  next
    case True
    then obtain rc2 s2 out2 osz2 s3 where a: "sm_acquired s1 out outsize = Inr (rc2, s2, out2, osz2)"
      and r: "(if reqauth s2 then statemachine_run env hs
            (sm_upd (\<lambda>m. m\<lparr>lastState := ACQUIRED, curState := AUTHENTICATING\<rparr>) s2) inframe out2 osz2
          else Ok (rc2, s2, out2, osz2)) = Inr (rc, s3, out', osz)"
      and s': "s' = sm_upd (lastState_update (\<lambda>_. ACQUIRED)) s3"
      using 1(4) by (subst (asm) statemachine_run.simps) (auto simp: 1(3) g cur_def s1 elim!: bindR_InrE)
    from a s1 show ?thesis
    proof (cases rule: sm_acquired_cases)
      case id
      then have "s3 = s2" using r by (simp add: reqauth_def)
      then show ?thesis using sm_step.AcquiredId [OF True id(1)] id(5) s' by simp
    next
      case skip
      show ?thesis
      proof (cases "reqAuth ?m = TRUE")
        case False
        then have "s3 = s1" using r skip s1 by (simp add: reqauth_def)
        then show ?thesis using sm_step.AcquiredWait [OF True skip(1) False] s1 s' by simp
      next
        case ra: True
        let ?s = "sm_upd (\<lambda>m. m\<lparr>lastState := ACQUIRED, curState := AUTHENTICATING\<rparr>) s2"
        let ?n = "?m\<lparr>lastState := ACQUIRED, curState := AUTHENTICATING\<rparr>"
        have n: "statemachine ?s = Some ?n" using s1 skip by simp
        have rq: "reqauth s2" using ra skip s1 by (simp add: reqauth_def)
        with r have "statemachine_run env hs ?s inframe out2 osz2 = Inr (rc, s3, out', osz)" by simp
        from "1.IH" [OF _ g _ a refl refl refl rq 1(2) n this] obtain m3 where
          "statemachine s3 = Some m3" "sm_step (after_global env ?s ?n) m3"
          using True 1(3) s1 by (auto simp: cur_def)
        then show ?thesis
          using sm_step.AcquiredAuth [OF True skip(1) ra, of "if link_up env ?s then TRUE else FALSE"] s'
          by (auto simp: after_global_at)
      qed
    qed
  qed
qed

text \<open>A run of the sample interface, which is connecting: it sends its first EAPOL-Start.\<close>

lemma sample_link [simp]: "link_up sample_env s"
  by (simp add: link_up_def)

lemma sample_run_start:
  assumes "18 \<le> length f"
  shows "\<exists>s' out'. statemachine_run sample_env sample_handlers sample_if None f None = Inr (XDATA, s', out', Some 18)"
proof -
  obtain s1 where g: "sm_global sample_env sample_if = Inr s1" "statemachine s1 = Some (after_global sample_env sample_if sample_sm)"
    using sm_global_total [of sample_if sample_sm sample_env] by auto
  have a: "after_global sample_env sample_if sample_sm = sample_sm"
    by (simp add: after_global_def sm_tick_def sm_global_step_def sample_sm_def)
  show ?thesis
    by (subst statemachine_run.simps)
      (simp add: g a cur_def sm_other_state_def sm_connecting_def txStart_def put_eapol_type_Ok put_eapol_length_Ok assms)
qed

lemma sample_run:
  "\<exists>s' out'. statemachine_run sample_env sample_handlers sample_if None (replicate 18 0) None = Inr (XDATA, s', out', Some 18)"
  by (rule sample_run_start) simp



section \<open>Consequences for the machine on its variables\<close>

lemma global_at_authenticated:
  "curState (global_at up m) = AUTHENTICATED \<Longrightarrow> curState m \<noteq> AUTHENTICATED \<Longrightarrow>
     initialize m = 0 \<and> up \<noteq> FALSE \<and> userLogoff m = 0 \<and> logoffSent m = 0 \<and> eapFail m = 0 \<and> eapSuccess m \<noteq> 0"
  by (auto simp: global_at_def sm_global_step_def sm_tick_def port_down_def split: if_splits)

lemma global_at_success:
  "eapSuccess m \<noteq> 0 \<Longrightarrow> eapFail m = 0 \<Longrightarrow> userLogoff m = 0 \<Longrightarrow> logoffSent m = 0 \<Longrightarrow> up \<noteq> FALSE \<Longrightarrow>
     initialize (global_at up m) = 0 \<Longrightarrow> curState (global_at up m) = DISCONNECTED \<or> curState (global_at up m) = AUTHENTICATED"
  by (auto simp: global_at_def sm_global_step_def sm_tick_def port_down_def split: if_splits)

lemma global_at_fields [simp]:
  "suppStatus (global_at up m) = suppStatus m" "eapSuccess (global_at up m) = eapSuccess m"
  "eapFail (global_at up m) = eapFail m" "userLogoff (global_at up m) = userLogoff m"
  "logoffSent (global_at up m) = logoffSent m" "reqId (global_at up m) = reqId m"
  "reqAuth (global_at up m) = reqAuth m" "startCount (global_at up m) = startCount m"
  "maxStart (global_at up m) = maxStart m" "authPeriod (global_at up m) = authPeriod m"
  "heldPeriod (global_at up m) = heldPeriod m" "startPeriod (global_at up m) = startPeriod m"
  by (auto simp: global_at_def sm_global_step_def sm_tick_def)

lemma global_at_port [simp]: "portEnabled (global_at up m) = up"
  by (auto simp: global_at_def sm_global_step_def sm_tick_def)

lemma sm_leave_fields [simp]:
  "suppStatus (sm_auth_leave m) = suppStatus m" "suppStatus (sm_connect_leave m) = suppStatus m"
  "suppStatus (sm_logoff_leave m) = suppStatus m"
  by (simp_all add: sm_auth_leave_def sm_connect_leave_def sm_logoff_leave_def Let_def)

text \<open>Only the step of AUTHENTICATED raises the status, and only on a success.\<close>

lemma sm_step_authorized:
  assumes "sm_step m m'" and "suppStatus m' = AUTHORIZED" and "suppStatus m \<noteq> AUTHORIZED"
  shows "eapSuccess m = TRUE \<and> (curState m = AUTHENTICATED \<or>
    curState m = ACQUIRED \<and> initialize m = 0 \<and> userLogoff m = 0 \<and> logoffSent m = 0 \<and> eapFail m = 0)"
  using assms
proof (induction rule: sm_step.induct)
  case (AcquiredAuth m up m')
  let ?n = "m\<lparr>lastState := ACQUIRED, curState := AUTHENTICATING\<rparr>"
  from AcquiredAuth have s: "eapSuccess m = TRUE" and c: "curState (global_at up ?n) = AUTHENTICATED \<or>
      curState (global_at up ?n) = ACQUIRED"
    by auto
  have "curState (global_at up ?n) \<noteq> ACQUIRED"
    by (auto simp: global_at_def sm_global_step_def sm_tick_def)
  with c have "curState (global_at up ?n) = AUTHENTICATED" by blast
  from global_at_authenticated [OF this] show ?case using s AcquiredAuth(1) by simp
qed (auto simp: sm_disconnected_def sm_held_def sm_authenticated_def Let_def split: if_splits)

text \<open>The bounds that the variables keep: the state is one of the seven, a timer never exceeds its period,
  and no more starts are counted than allowed.\<close>

definition sm_wf :: "dot1x_state \<Rightarrow> bool" where
  "sm_wf m \<longleftrightarrow>
     (initialize m = TRUE \<or> curState m \<in> {LOGOFF..AUTHENTICATED}) \<and>
     (suppStatus m = AUTHORIZED \<or> suppStatus m = UNAUTHORIZED) \<and>
     0 \<le> authWhile m \<and> authWhile m \<le> authPeriod m \<and>
     0 \<le> heldWhile m \<and> heldWhile m \<le> heldPeriod m \<and>
     0 \<le> startWhen m \<and> startWhen m \<le> startPeriod m \<and>
     0 \<le> startCount m \<and> startCount m \<le> maxStart m"

lemma sm_tick_wf: "sm_wf m \<Longrightarrow> sm_wf (sm_tick m)"
  by (auto simp: sm_wf_def sm_tick_def dec_if_nz_def)

lemma sm_global_step_wf:
  "sm_wf m \<Longrightarrow> sm_wf (fst (sm_global_step m)) \<and> curState (fst (sm_global_step m)) \<in> {LOGOFF..AUTHENTICATED}"
  unfolding sm_global_step_def by (auto simp: sm_wf_def)

lemma global_at_wf: "sm_wf m \<Longrightarrow> sm_wf (global_at up m) \<and> curState (global_at up m) \<in> {LOGOFF..AUTHENTICATED}"
proof -
  assume "sm_wf m"
  then have "sm_wf (sm_tick m\<lparr>portEnabled := up\<rparr>)"
    using sm_tick_wf [of m] by (simp add: sm_wf_def)
  then show ?thesis unfolding global_at_def by (rule sm_global_step_wf)
qed

lemma sm_auth_leave_wf [simp]: "sm_wf m \<Longrightarrow> sm_wf (sm_auth_leave m)"
  unfolding sm_auth_leave_def Let_def by (auto simp: sm_wf_def)

lemma sm_connect_leave_wf [simp]: "sm_wf m \<Longrightarrow> sm_wf (sm_connect_leave m)"
  unfolding sm_connect_leave_def Let_def by (auto simp: sm_wf_def)

lemma sm_logoff_leave_wf [simp]: "sm_wf m \<Longrightarrow> sm_wf (sm_logoff_leave m)"
  unfolding sm_logoff_leave_def Let_def by (auto simp: sm_wf_def)

lemma sm_disconnected_wf [simp]: "sm_wf m \<Longrightarrow> sm_wf (sm_disconnected m)"
  unfolding sm_disconnected_def Let_def by (auto simp: sm_wf_def)

lemma sm_held_wf [simp]: "sm_wf m \<Longrightarrow> sm_wf (sm_held m)"
  unfolding sm_held_def Let_def by (auto simp: sm_wf_def)

lemma sm_authenticated_wf [simp]: "sm_wf m \<Longrightarrow> sm_wf (sm_authenticated m)"
  unfolding sm_authenticated_def Let_def by (auto simp: sm_wf_def)

lemma sm_step_wf: "sm_step m m' \<Longrightarrow> sm_wf m \<Longrightarrow> sm_wf m'"
proof (induction rule: sm_step.induct)
  case (AcquiredAuth m up m')
  have "sm_wf (m\<lparr>lastState := ACQUIRED, curState := AUTHENTICATING\<rparr>)"
    using AcquiredAuth.prems by (simp add: sm_wf_def)
  with AcquiredAuth.IH global_at_wf have "sm_wf m'" by blast
  then show ?case by (simp add: sm_wf_def)
next
  case (Authenticating m a r p v)
  then show ?case by (intro sm_auth_leave_wf) (auto simp: sm_wf_def)
next
  case (ConnectStart m)
  then show ?case by (intro sm_connect_leave_wf) (auto simp: sm_wf_def)
next
  case (LogoffSend m)
  then show ?case by (intro sm_logoff_leave_wf) (auto simp: sm_wf_def)
qed (simp_all, simp_all add: sm_wf_def)

section \<open>Properties of a run\<close>

text \<open>C17: When the port is down or the machine is to be initialised, one run takes it from any state, with
  any timers, flags and pending events, to CONNECTING: unauthorised, all results forgotten, no start
  sent. The run never faults, and sends nothing.\<close>

theorem statemachine_run_port_down:
  assumes "statemachine s = Some m" and "initialize m = TRUE \<or> \<not> link_up env s"
  shows "\<exists>s' m'. statemachine_run env hs s inframe out outsize = Inr (XENONE, s', out, outsize) \<and>
    statemachine s' = Some m' \<and> curState m' = CONNECTING \<and> suppStatus m' = UNAUTHORIZED \<and>
    eapSuccess m' = FALSE \<and> eapFail m' = FALSE \<and> startCount m' = 0 \<and> logoffSent m' = FALSE \<and>
    initialize m' = FALSE"
proof -
  from sm_global_total [OF assms(1), of env] obtain s1 where
    g: "sm_global env s = Inr s1" and s1: "statemachine s1 = Some (after_global env s m)" by blast
  have d: "curState (after_global env s m) = DISCONNECTED" "initialize (after_global env s m) = FALSE"
    using after_global_down [OF assms(2)] by simp_all
  then have "statemachine_run env hs s inframe out outsize = Inr (XENONE, sm_upd sm_disconnected s1, out, outsize)"
    by (subst statemachine_run.simps) (simp add: assms(1) g cur_def s1 sm_other_state_def)
  then show ?thesis
    using s1 d by (simp add: sm_disconnected_def)
qed

theorem statemachine_run_port_down_witness:
  "\<exists>s' m'. statemachine_run sample_env sample_handlers
      (sample_if\<lparr>statemachine := Some (sample_sm\<lparr>initialize := 1, curState := AUTHENTICATED, suppStatus := AUTHORIZED\<rparr>)\<rparr>)
      None [] None = Inr (XENONE, s', [], None) \<and>
    statemachine s' = Some m' \<and> curState m' = CONNECTING \<and> suppStatus m' = UNAUTHORIZED"
  using statemachine_run_port_down [where s = "sample_if\<lparr>statemachine := Some (sample_sm\<lparr>initialize := 1,
      curState := AUTHENTICATED, suppStatus := AUTHORIZED\<rparr>)\<rparr>" and env = sample_env and hs = sample_handlers
      and inframe = None and out = "[]" and outsize = None]
  by fastforce

text \<open>C1: The port becomes authorised in one way only: by an EAP success, at a run with the link up, no
  initialisation pending and, unless it already is in the state AUTHENTICATED, no failure and no logoff
  by the user. No packet, method or sequence of events authorises it otherwise; in particular not the
  default transition to AUTHENTICATED after unanswered starts.\<close>

theorem authorized_only_by_success:
  assumes "\<forall>h \<in> set hs. handler_ok h" and "statemachine s = Some m"
    and "statemachine_run env hs s inframe out outsize = Inr (rc, s', out', osz)"
    and "statemachine s' = Some m'" and "suppStatus m' = AUTHORIZED" and "suppStatus m \<noteq> AUTHORIZED"
  shows "eapSuccess m = TRUE \<and> link_up env s \<and> initialize m \<noteq> TRUE \<and>
    (curState m = AUTHENTICATED \<or> initialize m = 0 \<and> eapFail m = 0 \<and> userLogoff m = 0 \<and> logoffSent m = 0)"
proof -
  obtain n where "statemachine s' = Some n" "sm_step (after_global env s m) n"
    using statemachine_run_step [OF assms(1-3)] by blast
  then have st: "sm_step (after_global env s m) m'" using assms(4) by simp
  have "curState (after_global env s m) \<noteq> DISCONNECTED"
    using sm_step_authorized [OF st assms(5)] assms(6) by (auto simp: after_global_at)
  then have "link_up env s" "initialize m \<noteq> TRUE"
    using after_global_down by blast+
  moreover have "eapSuccess m = TRUE" "curState (global_at TRUE m) = AUTHENTICATED"
    using sm_step_authorized [OF st assms(5)] assms(6) global_at_success [of m TRUE]
      \<open>curState (after_global env s m) \<noteq> DISCONNECTED\<close> \<open>link_up env s\<close>
    by (auto simp: after_global_at)
  ultimately show ?thesis
    using global_at_authenticated [of TRUE m] by blast
qed

text \<open>The sample interface after an EAP success: its next run authorises the port.\<close>

definition sample_success :: interface_data where
  "sample_success = sample_if\<lparr>statemachine := Some (sample_sm\<lparr>eapSuccess := TRUE\<rparr>)\<rparr>"

lemma sample_success_run:
  "\<exists>s' m'. statemachine_run sample_env sample_handlers sample_success None [] None = Inr (XENONE, s', [], None) \<and>
     statemachine s' = Some m' \<and> suppStatus m' = AUTHORIZED"
proof -
  let ?m = "sample_sm\<lparr>eapSuccess := TRUE\<rparr>"
  obtain s1 where g: "sm_global sample_env sample_success = Inr s1"
    "statemachine s1 = Some (after_global sample_env sample_success ?m)"
    using sm_global_total [of sample_success ?m sample_env] by (auto simp: sample_success_def)
  have a: "after_global sample_env sample_success ?m =
      sample_sm\<lparr>eapSuccess := TRUE, lastState := CONNECTING, curState := AUTHENTICATED\<rparr>"
    by (simp add: after_global_def sm_tick_def sm_global_step_def port_down_def sample_sm_def)
  show ?thesis
    by (subst statemachine_run.simps)
      (simp add: g a cur_def sm_other_state_def sm_authenticated_def, simp add: sample_success_def)
qed

theorem authorized_only_by_success_witness:
  "\<exists>s' m'. statemachine_run sample_env sample_handlers sample_success None [] None = Inr (XENONE, s', [], None) \<and>
     statemachine s' = Some m' \<and> suppStatus m' = AUTHORIZED \<and> link_up sample_env sample_success"
proof -
  obtain s' m' where r: "statemachine_run sample_env sample_handlers sample_success None [] None = Inr (XENONE, s', [], None)"
    "statemachine s' = Some m'" "suppStatus m' = AUTHORIZED"
    using sample_success_run by blast
  have "statemachine sample_success = Some (sample_sm\<lparr>eapSuccess := TRUE\<rparr>)" by (simp add: sample_success_def)
  from authorized_only_by_success [OF sample_handlers_ok this r] r show ?thesis by simp
qed

text \<open>C8: A run preserves the well-formedness of the machine's variables: the state stays one of the
  seven of 802.1X, every timer between zero and its period, the count of starts between zero and the
  maximum, whatever frame comes in and whatever the methods do.\<close>

theorem statemachine_run_wf:
  assumes "\<forall>h \<in> set hs. handler_ok h" and "statemachine s = Some m" and "sm_wf m"
    and "statemachine_run env hs s inframe out outsize = Inr (rc, s', out', osz)"
  shows "\<exists>m'. statemachine s' = Some m' \<and> sm_wf m'"
proof -
  obtain m' where "statemachine s' = Some m'" "sm_step (after_global env s m) m'"
    using statemachine_run_step [OF assms(1,2,4)] by blast
  then show ?thesis
    using sm_step_wf global_at_wf [OF assms(3)] by (auto simp: after_global_at)
qed

lemma sample_sm_wf: "sm_wf sample_sm"
  by (simp add: sm_wf_def)

theorem statemachine_run_wf_witness:
  "\<exists>s' out' m'. statemachine_run sample_env sample_handlers sample_if None (replicate 18 0) None =
     Inr (XDATA, s', out', Some 18) \<and> statemachine s' = Some m' \<and> sm_wf m'"
proof -
  obtain s' out' where r: "statemachine_run sample_env sample_handlers sample_if None (replicate 18 0) None =
      Inr (XDATA, s', out', Some 18)" using sample_run by blast
  from statemachine_run_wf [OF sample_handlers_ok _ sample_sm_wf r] r show ?thesis by auto
qed

section \<open>The frames\<close>

text \<open>EAPOL-Start and EAPOL-Logoff, built and read back: the header says EtherType 888e, version 1, the
  right packet type and an empty body; 18 bytes are sent; the address fields and everything behind the
  header stay as they were.\<close>

theorem tx_start_logoff_roundtrip:
  assumes "18 \<le> length f" and "t = EAPOL_START \<and> tx = txStart \<or> t = EAPOL_LOGOFF \<and> tx = txLogoff"
  shows "\<exists>f'. tx f = Inr (f', 18) \<and> view_eapol_header f' = Inr \<lparr>frame_type = EAPOL_FRAME,
      eapol_version = MAX_EAPOL_VER, eapol_type = t, eapol_length = 0\<rparr> \<and>
    take 12 f' = take 12 f \<and> drop 18 f' = drop 18 f \<and> length f' = length f"
  using assms(2) view_put_eapol [OF assms(1), of t 0] assms(1)
  by (auto simp: txStart_def txLogoff_def put_eapol_type_Ok put_eapol_length_Ok eapol_prefix_def
      take_update_cancel drop_update_cancel)

theorem tx_start_logoff_roundtrip_witness:
  "\<exists>f'. txLogoff (replicate 20 9) = Inr (f', 18) \<and> view_eapol_header f' = Inr \<lparr>frame_type = EAPOL_FRAME,
      eapol_version = MAX_EAPOL_VER, eapol_type = EAPOL_LOGOFF, eapol_length = 0\<rparr>"
  using tx_start_logoff_roundtrip [of "replicate 20 9" EAPOL_LOGOFF txLogoff] by auto

text \<open>C25: The identity response, built and read back: EAPOL and EAP headers agree on the length, the
  identifier is that of the last request, and the data is the configured identity, neither cut nor
  terminated. The size handed to the card covers exactly the frame.\<close>

theorem txRspId_roundtrip:
  assumes "statemachine s = Some sm" and "userdata s = Some u" and "methods u \<noteq> []"
    and "net_identity u = Some idt" and "23 + length idt \<le> length f" and "length idt < 65531"
  shows "\<exists>f'. txRspId s f = Inr (f', 23 + int (length idt)) \<and>
    view_eapol_header f' = Inr \<lparr>frame_type = EAPOL_FRAME, eapol_version = MAX_EAPOL_VER,
      eapol_type = EAP_PACKET, eapol_length = 5 + int (length idt)\<rparr> \<and>
    view_eap_header f' = Inr \<lparr>eap_code = EAP_RESPONSE, eap_identifier = word_of_int (receivedId sm),
      eap_length = 5 + int (length idt), eap_type = EAP_TYPE_IDENTITY\<rparr> \<and>
    take (length idt) (drop 23 f') = idt"
proof -
  define n where "n = 5 + int (length idt)"
  define g where "g = (eapol_prefix f EAP_PACKET)[18 := EAP_RESPONSE, 19 := word_of_int (receivedId sm),
      20 := word_of_int (n div 256), 21 := word_of_int n, 22 := EAP_TYPE_IDENTITY]"
  define h where "h = take 23 g @ idt @ drop (23 + length idt) g"
  define f' where "f' = h[16 := word_of_int (n div 256), 17 := word_of_int n]"
  have g: "length g = length f" by (simp add: g_def)
  then have h: "length h = length f" "\<And>i. i < 23 \<Longrightarrow> h ! i = g ! i" "take (length idt) (drop 23 h) = idt"
    using assms(5) by (auto simp: h_def nth_append)
  have n: "0 \<le> n" "n < 65536" using assms(6) by (simp_all add: n_def)
  then have nn: "ntohs_bytes (word_of_int (n div 256)) (word_of_int n) = n"
    by (simp add: ntohs_word_of_int)
  have "txRspId s f = Inr (f', int (length idt) + 23)"
    using assms g h(1) unfolding txRspId_def eap_request_id_def
    by (simp add: put_eapol_type_Ok wr8_Ok wr_u16_Ok wr_bytes_Ok put_eapol_length_Ok f'_def h_def g_def n_def Let_def)
  moreover have "view_eapol_header f' = Inr \<lparr>frame_type = EAPOL_FRAME, eapol_version = MAX_EAPOL_VER,
      eapol_type = EAP_PACKET, eapol_length = n\<rparr>"
    using assms(5) g h nn by (simp add: view_eapol_header_def f'_def g_def eapol_prefix_def ntohs_bytes_def)
  moreover have "view_eap_header f' = Inr \<lparr>eap_code = EAP_RESPONSE, eap_identifier = word_of_int (receivedId sm),
      eap_length = n, eap_type = EAP_TYPE_IDENTITY\<rparr>"
    using assms(5) g h nn by (simp add: view_eap_header_def f'_def g_def)
  moreover have "take (length idt) (drop 23 f') = idt"
    using h(3) by (simp add: f'_def)
  ultimately show ?thesis by (simp add: n_def add.commute [of 23])
qed

theorem txRspId_roundtrip_witness:
  "\<exists>f'. txRspId sample_if (replicate 40 0) = Inr (f', 26) \<and>
     view_eap_header f' = Inr \<lparr>eap_code = EAP_RESPONSE, eap_identifier = 6, eap_length = 8, eap_type = EAP_TYPE_IDENTITY\<rparr>"
  using txRspId_roundtrip [of sample_if sample_sm sample_network "[0x62, 0x6f, 0x62]" "replicate 40 0"] by auto

text \<open>C38: Without a configured identity, and without configured methods, the answer to an identity request is
  not defined: \<open>eap_request_id\<close> returns without storing the two sizes, and \<open>txRspId\<close> uses them.\<close>

theorem txRspId_uninitialised:
  assumes "24 \<le> length f"
    and "statemachine s = None \<or> userdata s = None \<or>
      (\<exists>u. userdata s = Some u \<and> (methods u = [] \<or> net_identity u = None))"
  shows "txRspId s f = Inl Uninit"
  using assms
  by (auto simp: txRspId_def eap_request_id_def put_eapol_type_Ok wr8_Ok split: option.splits)

theorem txRspId_uninitialised_witness:
  "txRspId (sample_if\<lparr>userdata := Some (sample_network\<lparr>net_identity := None\<rparr>)\<rparr>) (replicate 30 0) = Inl Uninit"
  by (rule txRspId_uninitialised) simp_all

section \<open>What a run hands to the card\<close>

text \<open>A frame to be sent: inside the buffer, and EAPOL of version 1 of a type a supplicant sends.\<close>

definition frame_ok :: "bytes \<Rightarrow> int option \<Rightarrow> bool" where
  "frame_ok f osz \<longleftrightarrow>
     (\<exists>n. osz = Some n \<and> 0 < n \<and> n \<le> int (length f)) \<and>
     f ! 12 = 0x88 \<and> f ! 13 = 0x8e \<and> f ! 14 = 1 \<and> f ! 15 \<in> {EAP_PACKET, EAPOL_START, EAPOL_LOGOFF}"

lemma eapol_prefix_nth:
  "18 \<le> length f \<Longrightarrow> eapol_prefix f t ! 12 = 0x88 \<and> eapol_prefix f t ! 13 = 0x8e \<and>
     eapol_prefix f t ! 14 = 1 \<and> eapol_prefix f t ! 15 = t"
  by (simp add: eapol_prefix_def)

lemma tx_frame_ok:
  assumes "18 \<le> length f"
  shows "txStart f = Inr (f', n) \<Longrightarrow> frame_ok f' (Some n) \<and> length f' = length f"
    and "txLogoff f = Inr (f', n) \<Longrightarrow> frame_ok f' (Some n) \<and> length f' = length f"
  using assms eapol_prefix_nth [OF assms]
  by (auto simp: txStart_def txLogoff_def put_eapol_type_Ok put_eapol_length_Ok frame_ok_def)

lemma txRspId_frame_ok:
  assumes "24 \<le> length f" and "txRspId s f = Inr (f', n)"
  shows "frame_ok f' (Some n) \<and> length f' = length f"
proof -
  let ?g = "eapol_prefix f EAP_PACKET"
  from assms obtain sm u idt h1 h2 where e: "statemachine s = Some sm" "userdata s = Some u" "net_identity u = Some idt"
    and h1: "h1 = ?g[18 := EAP_RESPONSE, 19 := word_of_int (receivedId sm),
      20 := word_of_int ((5 + int (length idt)) div 256), 21 := word_of_int (5 + int (length idt)), 22 := EAP_TYPE_IDENTITY]"
    and h2: "wr_bytes h1 23 idt = Inr h2"
    and f': "f' = h2[16 := word_of_int ((5 + int (length idt)) div 256), 17 := word_of_int (5 + int (length idt))]"
    and n: "n = 23 + int (length idt)"
    by (auto simp: txRspId_def eap_request_id_def put_eapol_type_Ok wr8_Ok wr_u16_Ok wr_u16_eq put_eapol_length_def Let_def
        split: option.splits if_splits elim!: bindR_InrE)
  have h1l: "length h1 = length f" by (simp add: h1)
  have l: "length h2 = length f" "23 + length idt \<le> length f"
    using h2 wr_bytes_length [OF h2] by (simp_all add: h1l wr_bytes_eq_Inr)
  have "h2 ! i = ?g ! i" if "i < 16" for i
    using wr_bytes_nth_other [OF h2, of i] that assms(1) h1l by (simp add: h1)
  then show ?thesis
    using l n assms(1) eapol_prefix_nth [of f EAP_PACKET] by (simp add: frame_ok_def f')
qed

lemma txRspAuth_frame_ok:
  assumes hs: "\<forall>h \<in> set hs. handler_ok h" and e: "env_ok env" and f: "24 \<le> length f"
    and t: "txRspAuth env hs s inframe f = Inr (s', f', n)" and "n \<noteq> 0"
  shows "frame_ok f' (Some n)"
proof -
  obtain rc g p k where a: "eap_request_auth env hs s inframe f 0 = Inr (rc, s', g, p, k)" and k: "k \<noteq> 0"
    and r: "bindR (put_eapol_type g EAP_PACKET) (\<lambda>f. bindR (put_eapol_length f k) (\<lambda>f.
      bindR (init_val p) (\<lambda>p. Ok (s', f, p + 12)))) = Inr (s', f', n)"
    using t assms(5) unfolding txRspAuth_def by (auto split: if_splits elim!: bindR_InrE)
  have g: "length g = length f" using eap_request_auth_frame [OF hs a] by simp
  obtain q where q: "p = Some q" "0 \<le> q" "q + 12 \<le> int (length f)"
    using eap_request_auth_size [OF hs e f a k] by blast
  have "f' = (eapol_prefix g EAP_PACKET)[16 := word_of_int (k div 256), 17 := word_of_int k]" "n = q + 12"
    using r q f g by (simp_all add: put_eapol_type_Ok put_eapol_length_Ok)
  then show ?thesis
    using q f g eapol_prefix_nth [of g EAP_PACKET] by (simp add: frame_ok_def)
qed

lemma sm_logoff_frame_ok:
  assumes f: "18 \<le> length out" and o: "sm_logoff s out osz0 = Inr (XDATA, s', out', osz)"
  shows "frame_ok out' osz"
proof -
  from o obtain n where "txLogoff out = Inr (out', n)" "osz = Some n"
    unfolding sm_logoff_def by (elim bindR_InrE) (auto split: if_splits elim!: bindR_InrE)
  with tx_frame_ok(2) [OF f] show ?thesis by blast
qed

lemma sm_connecting_frame_ok:
  assumes f: "18 \<le> length out" and o: "sm_connecting s out osz0 = Inr (XDATA, s', out', osz)"
  shows "frame_ok out' osz"
proof -
  from o obtain n where "txStart out = Inr (out', n)" "osz = Some n"
    unfolding sm_connecting_def by (elim bindR_InrE) (auto split: if_splits elim!: bindR_InrE)
  with tx_frame_ok(1) [OF f] show ?thesis by blast
qed

lemma sm_authenticating_frame_ok:
  assumes hs: "\<forall>h \<in> set hs. handler_ok h" and e: "env_ok env" and f: "24 \<le> length out"
    and o: "sm_authenticating env hs s inframe out = Inr (XDATA, s', out', osz)"
  shows "frame_ok out' osz"
proof -
  from o obtain t u n where "txRspAuth env hs t inframe out = Inr (u, out', n)" "n \<noteq> 0" "osz = Some n"
    unfolding sm_authenticating_def Let_def by (elim bindR_InrE) (auto split: if_splits)
  with txRspAuth_frame_ok [OF hs e f] show ?thesis by blast
qed

lemma sm_other_state_frame_ok:
  assumes hs: "\<forall>h \<in> set hs. handler_ok h" and e: "env_ok env" and f: "24 \<le> length out"
    and o: "sm_other_state env hs st s inframe out osz0 = Inr (XDATA, s', out', osz)"
  shows "frame_ok out' osz"
proof -
  from o consider "sm_logoff s out osz0 = Inr (XDATA, s', out', osz)"
    | "sm_connecting s out osz0 = Inr (XDATA, s', out', osz)"
    | "sm_authenticating env hs s inframe out = Inr (XDATA, s', out', osz)"
    unfolding sm_other_state_def by (simp split: if_splits)
  moreover have "18 \<le> length out" using f by simp
  ultimately show ?thesis
    using sm_logoff_frame_ok sm_connecting_frame_ok sm_authenticating_frame_ok [OF hs e f] by cases blast+
qed

lemma statemachine_run_frame:
  assumes "\<forall>h \<in> set hs. handler_ok h" and "env_ok env" and "24 \<le> length out"
    and "statemachine_run env hs s inframe out osz0 = Inr (XDATA, s', out', osz)"
  shows "frame_ok out' osz"
  using assms
proof (induction env hs s inframe out osz0 arbitrary: s' out' osz rule: statemachine_run.induct)
  case (1 env hs s inframe out osz0)
  obtain m where m: "statemachine s = Some m"
    using 1(5) by (subst (asm) statemachine_run.simps) (auto split: if_splits)
  obtain s1 where g: "sm_global env s = Inr s1" and s1: "statemachine s1 = Some (after_global env s m)"
    using sm_global_total [OF m, of env] by blast
  show ?case
  proof (cases "cur s1 = Some ACQUIRED")
    case False
    then have "sm_other_state env hs (the (cur s1)) s1 inframe out osz0 = Inr (XDATA, s', out', osz)"
      using 1(5) by (subst (asm) statemachine_run.simps) (simp add: m g)
    from sm_other_state_frame_ok [OF 1(2,3,4) this] show ?thesis .
  next
    case True
    then obtain rc2 s2 out2 osz2 s3 where a: "sm_acquired s1 out osz0 = Inr (rc2, s2, out2, osz2)"
      and r: "(if reqauth s2 then statemachine_run env hs
            (sm_upd (\<lambda>m. m\<lparr>lastState := ACQUIRED, curState := AUTHENTICATING\<rparr>) s2) inframe out2 osz2
          else Ok (rc2, s2, out2, osz2)) = Inr (XDATA, s3, out', osz)"
      using 1(5) by (subst (asm) statemachine_run.simps) (auto simp: m g elim!: bindR_InrE)
    from a s1 show ?thesis
    proof (cases rule: sm_acquired_cases)
      case id
      then have "out' = out2" "osz = osz2" using r by (simp_all add: reqauth_def)
      then show ?thesis using txRspId_frame_ok [OF 1(4) id(3)] id(4) by auto
    next
      case skip
      then have rq: "reqauth s2" using r by (auto split: if_splits)
      from r rq skip have "statemachine_run env hs
          (sm_upd (\<lambda>m. m\<lparr>lastState := ACQUIRED, curState := AUTHENTICATING\<rparr>) s2) inframe out osz2 = Inr (XDATA, s3, out', osz)"
        by simp
      from "1.IH" [OF _ g _ a refl refl refl rq 1(2,3)] this skip True m 1(4) show ?thesis by simp
    qed
  qed
qed

lemma put_eapol_length_of:
  "put_eapol_type f t = Inr f' \<Longrightarrow> length f' = length f" "put_eapol_length f n = Inr f' \<Longrightarrow> length f' = length f"
  by (auto simp: put_eapol_type_def put_eapol_length_def wr8_eq_Inr wr_u16_eq split: if_splits elim!: bindR_InrE)

lemma eap_request_id_length: "eap_request_id s f = Inr (f', sizes) \<Longrightarrow> length f' = length f"
  by (auto simp: eap_request_id_def wr8_eq_Inr wr_u16_eq Let_def split: option.splits if_splits elim!: bindR_InrE
      dest!: wr_bytes_length)

lemma tx_length:
  "txRspId s f = Inr (f', n) \<Longrightarrow> length f' = length f"
  "txStart f = Inr (f', n) \<Longrightarrow> length f' = length f"
  "txLogoff f = Inr (f', n) \<Longrightarrow> length f' = length f"
  unfolding txRspId_def txStart_def txLogoff_def
  by (auto elim!: bindR_InrE dest!: put_eapol_length_of eap_request_id_length)

lemma sm_other_state_length:
  assumes hs: "\<forall>h \<in> set hs. handler_ok h"
    and o: "sm_other_state env hs st s inframe out osz0 = Inr (rc, s', out', osz)"
  shows "length out' = length out"
  using o unfolding sm_other_state_def sm_logoff_def sm_connecting_def sm_authenticating_def Let_def
  by (auto split: if_splits elim!: bindR_InrE dest!: tx_length txRspAuth_frame [OF hs])

lemma statemachine_run_length:
  assumes "\<forall>h \<in> set hs. handler_ok h" and "statemachine_run env hs s inframe out osz0 = Inr (rc, s', out', osz)"
  shows "length out' = length out"
  using assms
proof (induction env hs s inframe out osz0 arbitrary: rc s' out' osz rule: statemachine_run.induct)
  case (1 env hs s inframe out osz0)
  show ?case
  proof (cases "statemachine s = None")
    case True
    then show ?thesis using 1(3) by (subst (asm) statemachine_run.simps) simp
  next
    case False
    then obtain s1 where g: "sm_global env s = Inr s1"
      using sm_global_total [of s _ env] by blast
    show ?thesis
    proof (cases "cur s1 = Some ACQUIRED")
      case c: False
      then have "sm_other_state env hs (the (cur s1)) s1 inframe out osz0 = Inr (rc, s', out', osz)"
        using 1(3) False by (subst (asm) statemachine_run.simps) (auto simp: g)
      then show ?thesis by (rule sm_other_state_length [OF 1(2)])
    next
      case True
      then obtain rc2 s2 out2 osz2 s3 where a: "sm_acquired s1 out osz0 = Inr (rc2, s2, out2, osz2)"
        and r: "(if reqauth s2 then statemachine_run env hs
              (sm_upd (\<lambda>m. m\<lparr>lastState := ACQUIRED, curState := AUTHENTICATING\<rparr>) s2) inframe out2 osz2
            else Ok (rc2, s2, out2, osz2)) = Inr (rc, s3, out', osz)"
        using 1(3) False by (subst (asm) statemachine_run.simps) (auto simp: g elim!: bindR_InrE)
      have "length out2 = length out"
        using a unfolding sm_acquired_def Let_def
        by (auto split: if_splits elim!: bindR_InrE dest!: tx_length)
      moreover have "length out' = length out2"
      proof (cases "reqauth s2")
        case rq: True
        with r have "statemachine_run env hs
            (sm_upd (\<lambda>m. m\<lparr>lastState := ACQUIRED, curState := AUTHENTICATING\<rparr>) s2) inframe out2 osz2 = Inr (rc, s3, out', osz)"
          by simp
        from "1.IH" [OF _ g _ a refl refl refl rq 1(2) this] False True show ?thesis by simp
      qed (use r in simp)
      ultimately show ?thesis by simp
    qed
  qed
qed



end
