(* ===== verification/Eapol.thy ===== *)
theory Eapol
  imports Statemachine KeyRx
begin

text \<open>
  \<open>eapol.c\<close>: one round on an interface - take a frame, note what it means, run the state machine, send
  its frame - and the setting up of an interface (\<open>profile.c\<close>) and its clock (\<open>xsup_driver.c\<close>).
\<close>

definition eapol_init :: "env \<Rightarrow> dot1x_state \<Rightarrow> interface_data \<Rightarrow> interface_data \<times> int" where
  "eapol_init env junk s = (case statemachine_init env junk s of (s, rc) \<Rightarrow> (s, XENONE))"

definition eapol_cleanup :: "eap_type_handler list \<Rightarrow> interface_data \<Rightarrow> (interface_data \<times> int) res" where
  "eapol_cleanup hs s = bindR (eap_cleanup hs (statemachine_cleanup s)) (\<lambda>s. Ok (s, XENONE))"

text \<open>\<open>work\<close> is the caller's memory; \<open>bzero\<close> of the unchecked allocation of the name is a fault when it
  failed.\<close>

definition init_interface_struct ::
  "env \<Rightarrow> dot1x_state \<Rightarrow> interface_data \<Rightarrow> cstr \<Rightarrow> (interface_data \<times> int) res" where
  "init_interface_struct env junk work intname =
     (if \<not> malloc_ok env AIntName then Fault NullDeref
      else let s = work\<lparr>intName := intname, sockInt := - 1, source_mac := replicate 6 0,
             eapType := 0, keyingMaterial := None, firstauth := TRUE, dest_mac := dot1x_default_dest,
             cur_essid := None, isWireless := - 1, wasDown := TRUE\<rparr>;
           (s, rc) = eapol_init env junk s
      in Ok (s\<lparr>userdata := None, tempPassword := None\<rparr>, XENONE))"

text \<open>The clock signal, on all interfaces.\<close>

fun alrmclock :: "interface_data list \<Rightarrow> interface_data list res" where
  "alrmclock [] = Ok []"
| "alrmclock (s # ss) =
     bindR (deref (statemachine s)) (\<lambda>m.
     bindR (alrmclock ss) (\<lambda>ss. Ok (sm_upd (tick_update (\<lambda>_. TRUE)) s # ss)))"

text \<open>Run the state machine and send the frame it returns.\<close>

definition run_and_send ::
  "env \<Rightarrow> eap_type_handler list \<Rightarrow> interface_data \<Rightarrow> bytes option \<Rightarrow> (interface_data \<times> int) res" where
  "run_and_send env hs s inframe =
     bindR (statemachine_run env hs s inframe (stack_junk env) None) (\<lambda>(rc, s, respframe, respsize).
     if rc = XDATA then
       bindR (init_val respsize) (\<lambda>respsize.
       bindR (sendframe s respframe respsize) (\<lambda>(s, f). Ok (s, XENONE)))
     else Ok (s, XENONE))"

definition eapol_execute ::
  "env \<Rightarrow> eap_type_handler list \<Rightarrow> interface_data \<Rightarrow> (interface_data \<times> int) res" where
  "eapol_execute env hs s =
     bindR (getframe env s (replicate 1518 0)) (\<lambda>(s, newframe, n).
     if n < 0 then run_and_send env hs s None
     else if userdata s = None then Ok (s, XEMALLOC)
     else bindR (view_eapol_header newframe) (\<lambda>temp.
     if frame_type temp \<noteq> EAPOL_FRAME \<or> MAX_EAPOL_VER < eapol_version temp then
       run_and_send env hs s (Some newframe)
     else if eapol_type temp = EAP_PACKET then
       bindR (eap_process_header env hs s newframe) (\<lambda>(s, newframe). run_and_send env hs s (Some newframe))
     else if eapol_type temp = EAPOL_KEY then
       bindR (deref (statemachine s)) (\<lambda>m.
       bindR (run_key_statemachine env (sm_upd (rxKey_update (\<lambda>_. TRUE)) s) newframe) (\<lambda>s.
       Ok (s, XGOODKEYFRAME)))
     else Ok (s, XEIGNOREDFRAME)))"

section \<open>What a round sends\<close>

text \<open>The frames that have been sent, newest first.\<close>

fun sent_of :: "io_event list \<Rightarrow> bytes list" where
  "sent_of (SendFrame f # es) = f # sent_of es"
| "sent_of (e # es) = sent_of es"
| "sent_of [] = []"

abbreviation sent :: "interface_data \<Rightarrow> bytes list" where "sent s \<equiv> sent_of (io s)"

text \<open>A step that sends nothing and keeps the addresses.\<close>

definition quiet_step :: "interface_data \<Rightarrow> interface_data \<Rightarrow> bool" where
  "quiet_step s s' \<longleftrightarrow> sent s' = sent s \<and> source_mac s' = source_mac s \<and> dest_mac s' = dest_mac s \<and>
     map_option net_dest_mac (userdata s') = map_option net_dest_mac (userdata s)"

lemma quiet_step_refl [simp]: "quiet_step s s"
  by (simp add: quiet_step_def)

lemma quiet_step_trans: "quiet_step s t \<Longrightarrow> quiet_step t u \<Longrightarrow> quiet_step s u"
  by (simp add: quiet_step_def)

lemma quiet_step_sm_upd [simp]:
  "quiet_step s (sm_upd f t) = quiet_step s t" "quiet_step (sm_upd f s) t = quiet_step s t"
  by (simp_all add: quiet_step_def)

lemma quiet_step_statemachine [simp]:
  "quiet_step (s\<lparr>statemachine := m\<rparr>) t = quiet_step s t"
  by (simp add: quiet_step_def)

lemma sent_of_append: "sent_of (k @ l) = sent_of k @ sent_of l"
  by (induction k rule: sent_of.induct) simp_all

lemma sent_of_prompts: "\<forall>e \<in> set l. \<exists>n c. e = GuiPrompt n c \<Longrightarrow> sent_of l = []"
  by (induction l rule: sent_of.induct) auto

lemma auth_frame_quiet: "auth_frame s s' \<Longrightarrow> quiet_step s s'"
  unfolding auth_frame_def quiet_step_def by (auto simp: sent_of_append sent_of_prompts)

lemma same_core_quiet: "same_core s s' \<Longrightarrow> sent s' = sent s \<Longrightarrow> quiet_step s s'"
  by (simp add: same_core_def quiet_step_def)

lemma set_wireless_key_sent:
  assumes "set_wireless_key env s key keylen index = Inr (s', rc)"
  shows "sent s' = sent s"
proof -
  have t: "transmit_ioctl env u i = (u', r) \<Longrightarrow> sent u' = sent u" for u u' i r
    by (auto simp: transmit_ioctl_def split: if_splits)
  show ?thesis
    using assms unfolding set_wireless_key_def
    by (elim bindR_InrE)
      (auto simp: Let_def split: option.splits if_splits elim!: bindR_InrE dest!: t wireless_guard_core)
qed

lemma cardif_reset_keys_quiet: "cardif_reset_keys env s = Inr s' \<Longrightarrow> quiet_step s s'"
proof -
  assume a: "cardif_reset_keys env s = Inr s'"
  have "sent s' = sent s"
    using a unfolding cardif_reset_keys_def
    by (auto simp: Let_def split: option.splits if_splits prod.splits elim!: bindR_InrE
        dest!: set_wireless_key_sent cardif_enc_enabled_core)
  with cardif_reset_keys_core [OF a] show ?thesis by (rule same_core_quiet)
qed

lemma sm_global_quiet:
  assumes "sm_global env s = Inr s1"
  shows "quiet_step s s1"
proof -
  obtain t up where g: "get_if_state env (sm_upd sm_tick s) = (t, up)" by fastforce
  then have "quiet_step s t"
    using same_core_quiet [of "sm_upd sm_tick s" t] get_if_state_core [OF g] by simp
  moreover have "\<exists>m. s1 = t\<lparr>statemachine := m\<rparr> \<or> cardif_reset_keys env (t\<lparr>statemachine := m\<rparr>) = Inr s1"
    using assms by (auto simp: sm_global_def g Let_def split: prod.splits if_splits elim!: bindR_InrE)
  then have "quiet_step t s1"
    using cardif_reset_keys_quiet by (auto simp: quiet_step_def)
  ultimately show ?thesis by (rule quiet_step_trans)
qed

lemma txRspAuth_quiet:
  "\<forall>h \<in> set hs. handler_ok h \<Longrightarrow> txRspAuth env hs s inframe out = Inr (s', out', n) \<Longrightarrow> quiet_step s s'"
  using txRspAuth_frame auth_frame_quiet by blast

lemma sm_other_state_quiet:
  assumes hs: "\<forall>h \<in> set hs. handler_ok h"
    and o: "sm_other_state env hs st s inframe out osz = Inr (rc, s', out', osz')"
  shows "quiet_step s s'"
proof -
  have a: "sm_authenticating env hs s inframe out = Inr (rc, s', out', osz') \<Longrightarrow> quiet_step s s'"
    unfolding sm_authenticating_def Let_def
    by (auto split: if_splits elim!: bindR_InrE dest!: txRspAuth_quiet [OF hs])
  show ?thesis
    using o unfolding sm_other_state_def sm_logoff_def sm_connecting_def
    by (auto split: if_splits elim!: bindR_InrE dest: a)
qed

lemma statemachine_run_quiet:
  assumes "\<forall>h \<in> set hs. handler_ok h" and "statemachine_run env hs s inframe out osz = Inr (rc, s', out', osz')"
  shows "quiet_step s s'"
  using assms
proof (induction env hs s inframe out osz arbitrary: rc s' out' osz' rule: statemachine_run.induct)
  case (1 env hs s inframe out osz)
  show ?case
  proof (cases "statemachine s")
    case None
    then show ?thesis using 1(3) by (subst (asm) statemachine_run.simps) simp
  next
    case m: (Some m)
    obtain s1 where g: "sm_global env s = Inr s1" and s1: "statemachine s1 = Some (after_global env s m)"
      using sm_global_total [OF m, of env] by blast
    have q: "quiet_step s s1" by (rule sm_global_quiet [OF g])
    show ?thesis
    proof (cases "cur s1 = Some ACQUIRED")
      case False
      then have "sm_other_state env hs (the (cur s1)) s1 inframe out osz = Inr (rc, s', out', osz')"
        using 1(3) by (subst (asm) statemachine_run.simps) (simp add: m g)
      from sm_other_state_quiet [OF 1(2) this] q show ?thesis by (blast intro: quiet_step_trans)
    next
      case True
      then obtain rc2 s2 out2 osz2 s3 where a: "sm_acquired s1 out osz = Inr (rc2, s2, out2, osz2)"
        and r: "(if reqauth s2 then statemachine_run env hs
              (sm_upd (\<lambda>m. m\<lparr>lastState := ACQUIRED, curState := AUTHENTICATING\<rparr>) s2) inframe out2 osz2
            else Ok (rc2, s2, out2, osz2)) = Inr (rc, s3, out', osz')"
        and s': "s' = sm_upd (lastState_update (\<lambda>_. ACQUIRED)) s3"
        using 1(3) by (subst (asm) statemachine_run.simps) (auto simp: m g elim!: bindR_InrE)
      have "quiet_step s1 s2"
        using a unfolding sm_acquired_def Let_def by (auto split: if_splits elim!: bindR_InrE)
      moreover have "quiet_step s2 s3"
      proof (cases "reqauth s2")
        case rq: True
        with r have "statemachine_run env hs
            (sm_upd (\<lambda>m. m\<lparr>lastState := ACQUIRED, curState := AUTHENTICATING\<rparr>) s2) inframe out2 osz2 = Inr (rc, s3, out', osz')"
          by simp
        from "1.IH" [OF _ g _ a refl refl refl rq 1(2) this] m True show ?thesis by simp
      next
        case False
        then show ?thesis using r by simp
      qed
      ultimately show ?thesis using q s' by (auto intro: quiet_step_trans)
    qed
  qed
qed

lemma eap_got_success_quiet:
  assumes hs: "\<forall>h \<in> set hs. handler_ok h" and "eap_got_success env hs s f = Inr (s', f')"
  shows "quiet_step s s'"
proof -
  have k: "eap_get_keying_material env hs t = Inr (t', rc) \<Longrightarrow> quiet_step t t'" for t t' rc
  proof -
    assume "eap_get_keying_material env hs t = Inr (t', rc)"
    then obtain km where "t' = t\<lparr>keyingMaterial := km\<rparr>"
      using eap_get_keying_material_core [OF hs] by blast
    then show ?thesis by (simp add: quiet_step_def)
  qed
  have w: "wpa_keying_material env t = Inr (t', rc) \<Longrightarrow> quiet_step t t'" for t t' rc
    by (auto simp: wpa_keying_material_def quiet_step_def split: if_splits option.splits elim!: bindR_InrE)
  have r: "quiet_step t (run_success_cmd env t)" for t
    by (simp add: run_success_cmd_def quiet_step_def)
  from assms(2) obtain t u where "t = sm_upd (reqAuth_update (\<lambda>_. TRUE)) s \<or> t = sm_upd (eapSuccess_update (\<lambda>_. TRUE)) s"
    "quiet_step (run_success_cmd env t) u" "quiet_step u s'"
    unfolding eap_got_success_def by (auto split: if_splits elim!: bindR_InrE dest!: k w)
  then show ?thesis using r [of t] by (auto intro: quiet_step_trans)
qed

lemma eap_process_header_quiet:
  assumes hs: "\<forall>h \<in> set hs. handler_ok h" and "eap_process_header env hs s f = Inr (s', f')"
  shows "quiet_step s s'"
proof -
  have a: "eap_got_request t g h = Inr t' \<Longrightarrow> quiet_step t t'" for t g h t'
    by (auto simp: eap_got_request_def eap_do_notify_def quiet_step_def Let_def split: if_splits elim!: bindR_InrE)
  have b: "eap_do_fail hs t = Inr (t', rc) \<Longrightarrow> quiet_step t t'" for t t' rc
    by (auto simp: eap_do_fail_def put_active_def quiet_step_def option.map_comp comp_def
        split: if_splits option.splits elim!: bindR_InrE)
  show ?thesis
    using assms(2) unfolding eap_process_header_def
    by (auto split: if_splits elim!: bindR_InrE dest!: a b eap_got_success_quiet [OF hs])
qed

section \<open>Properties of a round\<close>

text \<open>The addresses are six bytes each.\<close>

definition macs_ok :: "interface_data \<Rightarrow> bool" where
  "macs_ok s \<longleftrightarrow> length (source_mac s) = 6 \<and> length (dest_mac s) = 6 \<and>
     (\<forall>u. userdata s = Some u \<longrightarrow> length (net_dest_mac u) = 6)"

text \<open>Where frames go: the configured address of the network, or that of the interface.\<close>

definition link_dest :: "interface_data \<Rightarrow> bytes" where
  "link_dest s = (case userdata s of
      None \<Rightarrow> dest_mac s | Some u \<Rightarrow> if net_dest_mac u \<noteq> nomac then net_dest_mac u else dest_mac s)"

lemma quiet_step_macs: "quiet_step s s' \<Longrightarrow> macs_ok s \<Longrightarrow> macs_ok s'"
  by (cases "userdata s"; cases "userdata s'") (auto simp: quiet_step_def macs_ok_def)

lemma quiet_step_link: "quiet_step s s' \<Longrightarrow> link_dest s' = link_dest s \<and> source_mac s' = source_mac s"
  by (cases "userdata s"; cases "userdata s'") (auto simp: quiet_step_def link_dest_def)

lemma put_macs:
  assumes "length d = 6" "length e = 6" "12 \<le> length f"
  shows "wr_bytes f 0 d = Inr (d @ drop 6 f)" and "wr_bytes (d @ drop 6 f) 6 e = Inr (d @ e @ drop 12 f)"
  using assms by (simp_all add: wr_bytes_def)

lemma sendframe_content:
  assumes "macs_ok s" and "12 \<le> length f" and "sendframe s f n = Inr (s', f')" and "0 < n"
  shows "io s' = SendFrame (take (nat n) (link_dest s @ source_mac s @ drop 12 f)) # io s"
proof -
  have m: "length (source_mac s) = 6" "length (dest_mac s) = 6" using assms(1) by (simp_all add: macs_ok_def)
  let ?f = "dest_mac s @ source_mac s @ drop 12 f"
  have "(case userdata s of None \<Rightarrow> Ok ?f
       | Some u \<Rightarrow> if net_dest_mac u \<noteq> nomac then wr_bytes ?f 0 (net_dest_mac u) else Ok ?f) =
      Inr (link_dest s @ source_mac s @ drop 12 f)"
    using assms(1) m by (auto simp: link_dest_def macs_ok_def wr_bytes_def split: option.split)
  then show ?thesis
    using assms(3,4) put_macs [OF m(2,1) assms(2)]
    by (auto simp: sendframe_def rd_bytes_def split: if_splits elim!: bindR_InrE)
qed

text \<open>A frame that a supplicant may send: the addresses, EAPOL version 1, and one of three types.\<close>

definition supplicant_frame :: "interface_data \<Rightarrow> bytes \<Rightarrow> bool" where
  "supplicant_frame s f \<longleftrightarrow> (\<exists>t n rest. t \<in> {EAP_PACKET, EAPOL_START, EAPOL_LOGOFF} \<and> 0 < n \<and> n \<le> 1518 \<and>
     f = take n (link_dest s @ source_mac s @ [0x88, 0x8e, 1, t] @ rest))"

lemma frame_ok_drop:
  assumes "frame_ok f (Some n)" and "18 \<le> length f"
  shows "\<exists>t rest. t \<in> {EAP_PACKET, EAPOL_START, EAPOL_LOGOFF} \<and> drop 12 f = [0x88, 0x8e, 1, t] @ rest"
proof -
  have "drop 12 f = f ! 12 # f ! 13 # f ! 14 # f ! 15 # drop 16 f"
    using assms(2) Cons_nth_drop_Suc [of 12 f] Cons_nth_drop_Suc [of 13 f] Cons_nth_drop_Suc [of 14 f]
      Cons_nth_drop_Suc [of 15 f] by simp
  then show ?thesis using assms(1) by (auto simp: frame_ok_def)
qed

text \<open>The run's frame has the length of the buffer it was given.\<close>

lemma run_and_send_sends:
  assumes hs: "\<forall>h \<in> set hs. handler_ok h" and e: "env_ok env" and m: "macs_ok s"
    and r: "run_and_send env hs s inframe = Inr (s', rc)"
  shows "sent s' = sent s \<or> (\<exists>f. sent s' = f # sent s \<and> supplicant_frame s f)"
proof -
  have j: "length (stack_junk env) = 1518" using e by (simp add: env_ok_def)
  obtain rc1 t f osz where t: "statemachine_run env hs s inframe (stack_junk env) None = Inr (rc1, t, f, osz)"
    and k: "(if rc1 = XDATA then bindR (init_val osz) (\<lambda>n. bindR (sendframe t f n) (\<lambda>(s, f). Ok (s, XENONE)))
       else Ok (t, XENONE)) = Inr (s', rc)"
    using r unfolding run_and_send_def by (auto elim!: bindR_InrE)
  have q: "quiet_step s t" by (rule statemachine_run_quiet [OF hs t])
  show ?thesis
  proof (cases "rc1 = XDATA")
    case True
    have ok: "frame_ok f osz"
      using statemachine_run_frame [OF hs e _ t [unfolded True]] j by simp
    then obtain n where n: "osz = Some n" "0 < n" "n \<le> int (length f)" by (auto simp: frame_ok_def)
    obtain g where g: "sendframe t f n = Inr (s', g)" using k True n(1) by (auto elim!: bindR_InrE)
    have l: "length f = 1518" using statemachine_run_length [OF hs t] j by simp
    have s': "io s' = SendFrame (take (nat n) (link_dest s @ source_mac s @ drop 12 f)) # io t"
      using sendframe_content [OF quiet_step_macs [OF q m] _ g n(2)] quiet_step_link [OF q] l by simp
    obtain ty rest where d: "ty \<in> {EAP_PACKET, EAPOL_START, EAPOL_LOGOFF}" "drop 12 f = [0x88, 0x8e, 1, ty] @ rest"
      using frame_ok_drop [of f n] ok n(1) l by auto
    have "supplicant_frame s (take (nat n) (link_dest s @ source_mac s @ drop 12 f))"
      unfolding supplicant_frame_def using d n l by (intro exI [of _ ty] exI [of _ "nat n"] exI [of _ rest]) auto
    then show ?thesis using s' q by (auto simp: quiet_step_def)
  next
    case False
    then show ?thesis using k q by (auto simp: quiet_step_def)
  qed
qed

lemma run_key_statemachine_sent:
  assumes "run_key_statemachine env s f = Inr s'"
  shows "sent s' = sent s"
proof -
  have d: "eapol_key_type1_decrypt env t g n = Inr (t', rc) \<Longrightarrow> sent t' = sent t" for t g n t' rc
    unfolding eapol_key_type1_decrypt_def Let_def
    by (auto split: if_splits elim!: bindR_InrE dest!: set_wireless_key_sent)
  show ?thesis
    using assms unfolding run_key_statemachine_def processKey_def eapol_key_type1_process_def Let_def
    by (auto split: if_splits elim!: bindR_InrE dest!: d)
qed

lemma header_effect_wf: "sm_wf m \<Longrightarrow> sm_wf (header_effect e h m)"
  by (simp add: header_effect_def sm_wf_def Let_def)

lemma eapol_execute_cases:
  assumes hs: "\<forall>h \<in> set hs. handler_ok h" and r: "eapol_execute env hs s = Inr (s', rc)"
  obtains (run) t inframe where "quiet_step s t" "run_and_send env hs t inframe = Inr (s', rc)"
      "statemachine s = None \<and> statemachine t = None \<or>
       (\<exists>m. statemachine s = Some m \<and> statemachine t = Some m) \<or>
       (\<exists>m h e. statemachine s = Some m \<and> statemachine t = Some (header_effect e h m))"
    | (key) f u where "same_core s u" "io u = io s" "run_key_statemachine env (sm_upd (rxKey_update (\<lambda>_. TRUE)) u) f = Inr s'"
    | (none) "same_core s s'" "io s' = io s"
proof -
  obtain u f n where u: "getframe env s (replicate 1518 0) = Inr (u, f, n)"
    using r by (auto simp: eapol_execute_def elim!: bindR_InrE)
  have c: "same_core s u" "io u = io s" using getframe_core [OF u] by simp_all
  then have q: "quiet_step s u" by (intro same_core_quiet) simp_all
  have sm: "statemachine u = statemachine s" using c by (simp add: same_core_def)
  have plain: thesis if "run_and_send env hs u i = Inr (s', rc)" for i
    using run [OF q that] sm by (cases "statemachine s") auto
  show ?thesis
  proof (cases "n < 0 \<or> userdata u = None")
    case True
    then show ?thesis using r u c plain none by (auto simp: eapol_execute_def split: if_splits)
  next
    case False
    then obtain h where h: "view_eapol_header f = Inr h"
      using r u by (auto simp: eapol_execute_def elim!: bindR_InrE)
    show ?thesis
    proof (cases "\<not> (frame_type h \<noteq> EAPOL_FRAME \<or> MAX_EAPOL_VER < eapol_version h) \<and> eapol_type h = EAP_PACKET")
      case True
      then obtain t g where t: "eap_process_header env hs u f = Inr (t, g)" and k: "run_and_send env hs t (Some g) = Inr (s', rc)"
        using r u h False by (auto simp: eapol_execute_def elim!: bindR_InrE)
      have "quiet_step s t" using q eap_process_header_quiet [OF hs t] by (rule quiet_step_trans)
      moreover have "statemachine s = None \<and> statemachine t = None \<or>
         (\<exists>m h e. statemachine s = Some m \<and> statemachine t = Some (header_effect e h m))"
        using eap_process_header_statemachine [OF hs t] sm by (cases "statemachine s") auto
      ultimately show ?thesis using run [OF _ k] by blast
    next
      case other: False
      then show ?thesis
        using r u h False c plain none key by (auto simp: eapol_execute_def split: if_splits elim!: bindR_InrE)
    qed
  qed
qed


text \<open>C15: A round keeps the machine's variables well formed, whatever arrives: no frame, one for another
  station, a malformed one, an EAP packet or a key.\<close>

theorem eapol_execute_wf:
  assumes "\<forall>h \<in> set hs. handler_ok h" and "statemachine s = Some m" and "sm_wf m"
    and "eapol_execute env hs s = Inr (s', rc)"
  shows "\<exists>m'. statemachine s' = Some m' \<and> sm_wf m'"
  using assms(1,4)
proof (cases rule: eapol_execute_cases)
  case (run t inframe)
  then obtain n where n: "statemachine t = Some n" "sm_wf n"
    using assms(2,3) header_effect_wf by fastforce
  obtain rc1 t' f osz where t': "statemachine_run env hs t inframe (stack_junk env) None = Inr (rc1, t', f, osz)"
    and k: "statemachine s' = statemachine t'"
    using run(2) unfolding run_and_send_def
    by (auto split: if_splits elim!: bindR_InrE dest!: sendframe_core simp: same_core_def)
  obtain n' where "statemachine t' = Some n'" "sm_step (after_global env t n) n'"
    using statemachine_run_step [OF assms(1) n(1) t'] by blast
  then show ?thesis
    using sm_step_wf global_at_wf [OF n(2)] k by (auto simp: after_global_at)
next
  case (key f u)
  then show ?thesis
    using run_key_statemachine_core [OF key(3)] assms(2,3) by (auto simp: same_core_def sm_wf_def)
next
  case none
  then show ?thesis using assms(2,3) by (simp add: same_core_def)
qed

lemma sendframe_total:
  assumes "macs_ok s" and "12 \<le> length f" and "n \<le> int (length f)"
  shows "\<exists>s' f'. sendframe s f n = Inr (s', f')"
proof -
  have m: "length (source_mac s) = 6" "length (dest_mac s) = 6" using assms(1) by (simp_all add: macs_ok_def)
  let ?f = "dest_mac s @ source_mac s @ drop 12 f"
  have "\<exists>g. (case userdata s of None \<Rightarrow> Ok ?f
       | Some u \<Rightarrow> if net_dest_mac u \<noteq> nomac then wr_bytes ?f 0 (net_dest_mac u) else Ok ?f) = Inr g \<and> length g = length f"
    using assms(1,2) m by (auto simp: macs_ok_def wr_bytes_def split: option.split)
  then show ?thesis
    using assms(3) put_macs [OF m(2,1) assms(2)] by (auto simp: sendframe_def rd_bytes_def)
qed

section \<open>Rounds without a frame\<close>

definition start_frame :: "interface_data \<Rightarrow> bytes" where
  "start_frame s = link_dest s @ source_mac s @ [0x88, 0x8e, 1, 1, 0, 0]"

text \<open>What one run makes of a machine that is connecting, and whether it sends a start.\<close>

definition connect_next :: "dot1x_state \<Rightarrow> dot1x_state \<times> bool" where
  "connect_next n =
     (if startWhen n = 0 \<and> startCount n < maxStart n
      then (sm_connect_leave (n\<lparr>startWhen := startPeriod n, startCount := startCount n + 1, reqId := FALSE\<rparr>), True)
      else (sm_connect_leave n, False))"

lemma run_other:
  assumes "statemachine s = Some m" and "curState (after_global env s m) \<noteq> ACQUIRED"
  shows "\<exists>s1. statemachine s1 = Some (after_global env s m) \<and>
    same_core (s\<lparr>statemachine := Some (after_global env s m)\<rparr>) s1 \<and>
    statemachine_run env hs s inframe out osz =
      sm_other_state env hs (curState (after_global env s m)) s1 inframe out osz"
proof -
  obtain s1 where "sm_global env s = Inr s1" "statemachine s1 = Some (after_global env s m)"
    "same_core (s\<lparr>statemachine := Some (after_global env s m)\<rparr>) s1"
    using sm_global_total [OF assms(1), of env] by blast
  then show ?thesis
    using assms by (subst statemachine_run.simps) (auto simp: cur_def)
qed

lemma txStart_frame:
  assumes "18 \<le> length out"
  shows "\<exists>f. txStart out = Inr (f, 18) \<and> length f = length out \<and> take 6 (drop 12 f) = [0x88, 0x8e, 1, 1, 0, 0]"
proof -
  let ?f = "(eapol_prefix out EAPOL_START)[16 := 0, 17 := 0]"
  have "take 6 (drop 12 ?f) = map (\<lambda>i. ?f ! (12 + i)) [0..<6]"
    using assms by (intro nth_equalityI) simp_all
  also have "\<dots> = [0x88, 0x8e, 1, 1, 0, 0]"
    using assms by (simp add: upt_rec eapol_prefix_def)
  finally have "take 6 (drop 12 ?f) = [0x88, 0x8e, 1, 1, 0, 0]" .
  moreover have "txStart out = Inr (?f, 18)"
    using assms by (simp add: txStart_def put_eapol_type_Ok put_eapol_length_Ok)
  ultimately show ?thesis using assms by (intro exI [of _ ?f]) simp
qed

lemma connecting_round:
  assumes hs: "\<forall>h \<in> set hs. handler_ok h" and e: "length (stack_junk env) = 1518" "recv env (calls s) = []"
    and m: "statemachine s = Some m" and mac: "macs_ok s"
    and n: "after_global env (next_call s) m = n" "curState n = CONNECTING"
  shows "\<exists>s'. eapol_execute env hs s = Inr (s', XENONE) \<and> statemachine s' = Some (fst (connect_next n)) \<and>
    sent s' = (if snd (connect_next n) then [start_frame s] else []) @ sent s \<and>
    macs_ok s' \<and> start_frame s' = start_frame s"
proof -
  define out where "out = stack_junk env"
  have l: "18 \<le> length out" using e(1) by (simp add: out_def)
  have g: "getframe env s (replicate 1518 0) = Inr (next_call s, replicate 1518 0, XENOFRAMES)"
    using e(2) by (simp add: getframe_def Let_def)
  then have x: "eapol_execute env hs s = run_and_send env hs (next_call s) None"
    by (simp add: eapol_execute_def)
  have mac': "macs_ok (next_call s)" "start_frame (next_call s) = start_frame s" "sent (next_call s) = sent s"
    using mac by (simp_all add: macs_ok_def start_frame_def link_dest_def split: option.split)
  obtain s1 where s1: "statemachine s1 = Some n"
    "statemachine_run env hs (next_call s) None out None = sm_connecting s1 out None"
    using run_other [of "next_call s" m env hs None out None] m n by (auto simp: sm_other_state_def)
  show ?thesis
  proof (cases "startWhen n = 0 \<and> startCount n < maxStart n")
    case False
    then have r: "statemachine_run env hs (next_call s) None out None = Inr (XENONE, sm_upd sm_connect_leave s1, out, None)"
      using s1 by (auto simp: sm_connecting_def)
    have q: "quiet_step (next_call s) (sm_upd sm_connect_leave s1)" by (rule statemachine_run_quiet [OF hs r])
    have "eapol_execute env hs s = Inr (sm_upd sm_connect_leave s1, XENONE)"
      using r by (simp add: x run_and_send_def out_def)
    moreover have "start_frame (sm_upd sm_connect_leave s1) = start_frame s"
      using quiet_step_link [OF q] mac'(2) by (simp add: start_frame_def)
    moreover have "macs_ok (sm_upd sm_connect_leave s1)" by (rule quiet_step_macs [OF q mac'(1)])
    moreover have "sent (sm_upd sm_connect_leave s1) = sent s" using q mac'(3) by (simp add: quiet_step_def)
    moreover have "connect_next n = (sm_connect_leave n, False)" using False by (auto simp: connect_next_def)
    ultimately show ?thesis
      using s1(1) by (intro exI [of _ "sm_upd sm_connect_leave s1"]) simp
  next
    case True
    let ?s2 = "sm_upd (\<lambda>m. sm_connect_leave
        (m\<lparr>startWhen := startPeriod m, startCount := startCount m + 1, reqId := FALSE\<rparr>)) s1"
    obtain f where f: "txStart out = Inr (f, 18)" "length f = length out" "take 6 (drop 12 f) = [0x88, 0x8e, 1, 1, 0, 0]"
      using txStart_frame [OF l] by blast
    then have r: "statemachine_run env hs (next_call s) None out None = Inr (XDATA, ?s2, f, Some 18)"
      using s1 True by (simp add: sm_connecting_def)
    then have q: "quiet_step (next_call s) ?s2" by (rule statemachine_run_quiet [OF hs])
    have qm: "macs_ok ?s2" by (rule quiet_step_macs [OF q mac'(1)])
    obtain s' f' where sf: "sendframe ?s2 f 18 = Inr (s', f')"
      using sendframe_total [OF qm, of f 18] f(2) l by auto
    have c: "same_core ?s2 s'" by (rule sendframe_core [OF sf])
    have "io s' = SendFrame (take 18 (link_dest ?s2 @ source_mac ?s2 @ drop 12 f)) # io ?s2"
      using sendframe_content [OF qm _ sf] f(2) l by simp
    moreover have "take 18 (link_dest ?s2 @ source_mac ?s2 @ drop 12 f) = start_frame s"
    proof -
      have "length (link_dest ?s2) = 6" "length (source_mac ?s2) = 6"
        using qm by (auto simp: macs_ok_def link_dest_def nomac_def split: option.splits)
      then show ?thesis using f(3) quiet_step_link [OF q] mac'(2) by (simp add: start_frame_def)
    qed
    moreover have "sent ?s2 = sent s" using q mac'(3) by (simp add: quiet_step_def)
    ultimately have s': "sent s' = start_frame s # sent s" by simp
    have "start_frame s' = start_frame ?s2" "macs_ok s' = macs_ok ?s2"
      using c by (simp_all add: start_frame_def link_dest_def same_core_def macs_ok_def split: option.split)
    moreover have "start_frame ?s2 = start_frame s"
      using quiet_step_link [OF q] mac'(2) by (simp add: start_frame_def)
    moreover have "eapol_execute env hs s = Inr (s', XENONE)"
      using r sf by (simp add: x run_and_send_def out_def)
    moreover have "statemachine s' = Some (fst (connect_next n))"
      using c s1(1) True by (simp add: connect_next_def same_core_def)
    moreover have "snd (connect_next n)" using True by (simp add: connect_next_def)
    ultimately show ?thesis using s' qm by (intro exI [of _ s']) simp
  qed
qed

section \<open>Frames that are not acted upon\<close>

text \<open>A frame that the card accepts: it is for us, or for the group address and not our own.\<close>

definition arrives :: "env \<Rightarrow> interface_data \<Rightarrow> bytes \<Rightarrow> bool" where
  "arrives env s f \<longleftrightarrow> recv env (calls s) = f \<and> 18 \<le> length f \<and> length f \<le> 1518 \<and>
     (take 6 f = source_mac s \<or> take 6 f = dot1x_default_dest \<and> take 6 (drop 6 f) \<noteq> source_mac s)"

lemma getframe_arrives:
  assumes "arrives env s f"
  shows "getframe env s (replicate 1518 0) = Inr (next_call s, f @ replicate (1518 - length f) 0, int (length f))"
proof -
  have "take 1550 f = f" "f \<noteq> []" using assms by (auto simp: arrives_def)
  then show ?thesis
    using assms by (auto simp: getframe_def Let_def arrives_def wr_bytes_def)
qed


text \<open>C35: A datagram longer than the frame buffer of 1518 bytes is written past its end, before anything in it has
  been looked at: the card is asked for up to 1550 bytes.\<close>

theorem eapol_execute_overflow:
  assumes "1518 < length (recv env (calls s))"
  shows "eapol_execute env hs s = Inl Overflow"
proof -
  have "take 1550 (recv env (calls s)) \<noteq> []" "1518 < length (take 1550 (recv env (calls s)))"
    using assms by auto
  then have "wr_bytes (replicate 1518 0) 0 (take 1550 (recv env (calls s))) = Inl Overflow"
    by (simp add: wr_bytes_def del: length_take)
  with \<open>take 1550 (recv env (calls s)) \<noteq> []\<close> have "getframe env s (replicate 1518 0) = Inl Overflow"
    by (simp only: getframe_def Let_def if_False bindR_Inl)
  then show ?thesis by (simp add: eapol_execute_def)
qed

section \<open>Witnesses\<close>

lemma sample_macs_ok: "macs_ok sample_if"
  by (simp add: macs_ok_def)

lemma sample_after_global: "after_global sample_env (next_call sample_if) sample_sm = sample_sm"
  by (simp add: after_global_def sm_tick_def sm_global_step_def link_up_def sample_sm_def)

lemma sample_round:
  "\<exists>s'. eapol_execute sample_env sample_handlers sample_if = Inr (s', XENONE) \<and> sent s' = [start_frame sample_if]"
  using connecting_round [OF sample_handlers_ok _ _ _ sample_macs_ok sample_after_global]
  by (auto simp: connect_next_def)


theorem eapol_execute_wf_witness:
  "\<exists>s' m'. eapol_execute sample_env sample_handlers sample_if = Inr (s', XENONE) \<and> statemachine s' = Some m' \<and> sm_wf m'"
proof -
  obtain s' where s': "eapol_execute sample_env sample_handlers sample_if = Inr (s', XENONE)"
    using sample_round by blast
  from eapol_execute_wf [OF sample_handlers_ok _ sample_sm_wf s'] s' show ?thesis by simp
qed


theorem eapol_execute_overflow_witness:
  "eapol_execute (sample_env\<lparr>recv := \<lambda>_. replicate 1519 0\<rparr>) sample_handlers sample_if = Inl Overflow"
  by (rule eapol_execute_overflow) simp

end
