(* ===== verification/PortAccess.thy ===== *)
theory PortAccess
  imports Eapol
begin

text \<open>
  Runs of the state machine over time: what a failure, a logoff and a silent network do to the port.
  The rounds are those of \<open>eapol_execute\<close>, and the clock is \<open>alrmclock\<close>.
\<close>

section \<open>Failure and logoff\<close>

text \<open>The machine with the port enabled and nothing that overrides the authentication.\<close>

definition port_open :: "env \<Rightarrow> interface_data \<Rightarrow> dot1x_state \<Rightarrow> bool" where
  "port_open env s m \<longleftrightarrow> statemachine s = Some m \<and> initialize m = 0 \<and> link_up env s"

lemma after_global_failed:
  assumes "port_open env s m" and "eapFail m = TRUE" and "userLogoff m = 0" and "logoffSent m = 0"
  shows "after_global env s m = sm_tick m\<lparr>portEnabled := TRUE, lastState := curState m, curState := HELD\<rparr>"
  using assms by (simp add: after_global_def port_open_def sm_global_step_def port_down_def sm_tick_def)



definition always_up :: "env \<Rightarrow> bool" where
  "always_up env \<longleftrightarrow> (\<forall>n. \<exists>fl. if_flags env n = Some fl \<and> fl AND IFF_UP = IFF_UP)"

lemma after_global_logoff:
  assumes "port_open env s m" and "userLogoff m = TRUE" and "logoffSent m = 0"
  shows "after_global env s m = sm_tick m\<lparr>portEnabled := TRUE, lastState := curState m, curState := LOGOFF\<rparr>"
  using assms by (simp add: after_global_def port_open_def sm_global_step_def port_down_def sm_tick_def)

lemma after_global_logged_off:
  assumes "port_open env s m" and "userLogoff m = TRUE" and "logoffSent m = TRUE"
  shows "after_global env s m = sm_tick m\<lparr>portEnabled := TRUE\<rparr>"
  using assms by (simp add: after_global_def port_open_def sm_global_step_def port_down_def sm_tick_def)

text \<open>Once the logoff is out, a run does nothing while the request stands.\<close>

lemma logged_off_run:
  assumes p: "port_open env s m" "userLogoff m = TRUE" "logoffSent m = TRUE" and c: "curState m = LOGOFF"
  shows "\<exists>s' m'. statemachine_run env hs s inframe out osz = Inr (XENONE, s', out, osz) \<and>
    statemachine s' = Some m' \<and> curState m' = LOGOFF \<and> suppStatus m' = suppStatus m"
proof -
  define n where "n = after_global env s m"
  have n: "curState n = LOGOFF" "userLogoff n = TRUE" "logoffSent n = TRUE" "suppStatus n = suppStatus m"
    using p(2,3) c by (simp_all add: n_def after_global_logged_off [OF p] sm_tick_def)
  have m: "statemachine s = Some m" using p(1) by (simp add: port_open_def)
  obtain s1 where s1: "statemachine s1 = Some n"
    "statemachine_run env hs s inframe out osz = sm_logoff s1 out osz"
    using run_other [OF m, of env hs inframe out osz] n(1) by (auto simp: sm_other_state_def n_def)
  moreover have "sm_logoff s1 out osz = Inr (XENONE, sm_upd sm_logoff_leave s1, out, osz)"
    using s1(1) n by (simp add: sm_logoff_def)
  ultimately show ?thesis
    using n by (simp add: sm_logoff_leave_def)
qed

text \<open>The run that sends it.\<close>

lemma logoff_run:
  assumes p: "port_open env s m" "userLogoff m = TRUE" "logoffSent m = 0" and f: "18 \<le> length out"
  shows "\<exists>s' out' m'. statemachine_run env hs s inframe out osz = Inr (XDATA, s', out', Some 18) \<and>
    out' ! 15 = EAPOL_LOGOFF \<and> statemachine s' = Some m' \<and> curState m' = LOGOFF \<and> suppStatus m' = UNAUTHORIZED \<and>
    logoffSent m' = TRUE \<and> userLogoff m' = TRUE \<and> initialize m' = 0"
proof -
  define n where "n = after_global env s m"
  have n: "curState n = LOGOFF" "userLogoff n = TRUE" "logoffSent n = 0" "initialize n = 0" "portEnabled n = TRUE"
    using p by (simp_all add: n_def after_global_logoff [OF p] sm_tick_def port_open_def)
  have m: "statemachine s = Some m" using p(1) by (simp add: port_open_def)
  obtain s1 where s1: "statemachine s1 = Some n"
    "statemachine_run env hs s inframe out osz = sm_logoff s1 out osz"
    using run_other [OF m, of env hs inframe out osz] n(1) by (auto simp: sm_other_state_def n_def)
  obtain out' where o: "txLogoff out = Inr (out', 18)" "out' ! 15 = EAPOL_LOGOFF"
    using f eapol_prefix_nth [OF f, of EAPOL_LOGOFF]
    by (simp add: txLogoff_def put_eapol_type_Ok put_eapol_length_Ok)
  have "sm_logoff s1 out osz = Inr (XDATA, sm_upd (\<lambda>m. sm_logoff_leave (m\<lparr>logoffSent := TRUE,
      suppStatus := UNAUTHORIZED\<rparr>)) s1, out', Some 18)"
    using s1(1) n by (simp add: sm_logoff_def o)
  then show ?thesis
    using s1 n o(2) by (simp add: sm_logoff_leave_def)
qed



section \<open>A silent network\<close>

text \<open>One second after the other: the clock signal, then a round.\<close>

fun rounds :: "env \<Rightarrow> eap_type_handler list \<Rightarrow> nat \<Rightarrow> interface_data \<Rightarrow> interface_data res" where
  "rounds env hs 0 s = Ok s"
| "rounds env hs (Suc k) s =
     bindR (alrmclock [s]) (\<lambda>ss. bindR (eapol_execute env hs (hd ss)) (\<lambda>(s, rc). rounds env hs k s))"

lemma rounds_add: "rounds env hs (a + b) s = bindR (rounds env hs a s) (rounds env hs b)"
proof (induction a arbitrary: s)
  case (Suc a)
  then show ?case
    by (cases "statemachine s"; cases "eapol_execute env hs (sm_upd (tick_update (\<lambda>_. TRUE)) s)") auto
qed simp

text \<open>Nothing arrives, and the link stays up.\<close>

definition silent :: "env \<Rightarrow> bool" where
  "silent env \<longleftrightarrow> always_up env \<and> (\<forall>n. recv env n = []) \<and> length (stack_junk env) = 1518"

text \<open>The machine waits for an answer: \<open>c\<close> starts are out, the next is due in \<open>w\<close> seconds.\<close>

definition waiting :: "bytes \<Rightarrow> nat \<Rightarrow> nat \<Rightarrow> nat \<Rightarrow> nat \<Rightarrow> interface_data \<Rightarrow> bool" where
  "waiting frame M P c w s \<longleftrightarrow> macs_ok s \<and> start_frame s = frame \<and>
     (\<exists>m. statemachine s = Some m \<and> curState m = CONNECTING \<and> initialize m = 0 \<and> userLogoff m = 0 \<and>
       eapFail m = 0 \<and> eapSuccess m = 0 \<and> reqId m = 0 \<and> suppStatus m = UNAUTHORIZED \<and>
       maxStart m = int M \<and> startPeriod m = int P \<and> startCount m = int c \<and> startWhen m = int w)"

definition default_authenticated :: "interface_data \<Rightarrow> bool" where
  "default_authenticated s \<longleftrightarrow>
     (\<exists>m. statemachine s = Some m \<and> curState m = AUTHENTICATED \<and> suppStatus m = UNAUTHORIZED)"

lemma addresses_sm_upd [simp]:
  "macs_ok (sm_upd f s) = macs_ok s" "start_frame (sm_upd f s) = start_frame s"
  by (cases "userdata s"; simp add: macs_ok_def start_frame_def link_dest_def)+

lemma silent_round:
  assumes hs: "\<forall>h \<in> set hs. handler_ok h" and e: "silent env" and s: "waiting F M P c w s" and "0 < P"
  shows "\<exists>s'. rounds env hs 1 s = Inr s' \<and>
    (if 2 \<le> w then waiting F M P c (w - 1) s' \<and> sent s' = sent s
     else if c < M then waiting F M P (Suc c) P s' \<and> sent s' = F # sent s
     else default_authenticated s' \<and> sent s' = sent s)"
proof -
  obtain m where m: "statemachine s = Some m" "curState m = CONNECTING" "initialize m = 0" "userLogoff m = 0"
      "eapFail m = 0" "eapSuccess m = 0" "reqId m = 0" "suppStatus m = UNAUTHORIZED"
      "maxStart m = int M" "startPeriod m = int P" "startCount m = int c" "startWhen m = int w"
    and mac: "macs_ok s" "start_frame s = F"
    using s unfolding waiting_def by blast
  let ?t = "sm_upd (tick_update (\<lambda>_. TRUE)) s" and ?m = "m\<lparr>tick := TRUE\<rparr>"
  define n where "n = after_global env (next_call ?t) ?m"
  have up: "link_up env (next_call ?t)" using e by (simp add: silent_def always_up_def link_up_def)
  have n: "curState n = CONNECTING" "initialize n = 0" "userLogoff n = 0" "eapFail n = 0" "eapSuccess n = 0"
      "reqId n = 0" "suppStatus n = UNAUTHORIZED" "maxStart n = int M" "startPeriod n = int P" "startCount n = int c"
      "startWhen n = int (w - 1)"
    using m(2-12) up by (simp_all add: n_def after_global_def sm_tick_def sm_global_step_def dec_if_nz_def of_nat_diff)
  have t: "macs_ok ?t" "start_frame ?t = F" "sent ?t = sent s" "statemachine ?t = Some ?m"
    using mac m(1) by simp_all
  have env: "length (stack_junk env) = 1518" "recv env (calls ?t) = []" using e by (simp_all add: silent_def)
  obtain s' where s': "eapol_execute env hs ?t = Inr (s', XENONE)" "statemachine s' = Some (fst (connect_next n))"
    "sent s' = (if snd (connect_next n) then [F] else []) @ sent s" "macs_ok s'" "start_frame s' = F"
    using connecting_round [OF hs env t(4,1) n_def [symmetric] n(1)] t(2,3) by auto
  have r: "rounds env hs 1 s = Inr s'" using m(1) s'(1) by simp
  consider "2 \<le> w" | "w < 2" "c < M" | "w < 2" "M \<le> c" by linarith
  then show ?thesis
  proof cases
    case 1
    then have "connect_next n = (n\<lparr>lastState := CONNECTING\<rparr>, False)"
      using n by (simp add: connect_next_def sm_connect_leave_def Let_def)
    then have "waiting F M P c (w - 1) s'" "sent s' = sent s"
      using n s' by (simp_all add: waiting_def)
    then show ?thesis using r 1 by auto
  next
    case 2
    then have "connect_next n = (n\<lparr>startWhen := int P, startCount := int c + 1, reqId := FALSE, lastState := CONNECTING\<rparr>, True)"
      using n assms(4) by (simp add: connect_next_def sm_connect_leave_def Let_def)
    then have "waiting F M P (Suc c) P s'" "sent s' = F # sent s"
      using n s' by (simp_all add: waiting_def)
    then show ?thesis using r 2 by auto
  next
    case 3
    then have "connect_next n = (n\<lparr>lastState := CONNECTING, curState := AUTHENTICATED\<rparr>, False)"
      using n by (simp add: connect_next_def sm_connect_leave_def Let_def)
    then have "default_authenticated s'" "sent s' = sent s"
      using n s' by (simp_all add: default_authenticated_def)
    then show ?thesis using r 3 by auto
  qed
qed

lemma silent_wait:
  assumes "\<forall>h \<in> set hs. handler_ok h" and "silent env" and "0 < P"
  shows "waiting F M P c (Suc k) s \<Longrightarrow> \<exists>s'. rounds env hs k s = Inr s' \<and> waiting F M P c 1 s' \<and> sent s' = sent s"
proof (induction k arbitrary: s)
  case (Suc k)
  obtain t where t: "rounds env hs 1 s = Inr t" "waiting F M P c (Suc k) t" "sent t = sent s"
    using silent_round [OF assms(1,2) Suc.prems assms(3)] by auto
  obtain s' where "rounds env hs k t = Inr s'" "waiting F M P c 1 s'" "sent s' = sent t"
    using Suc.IH [OF t(2)] by blast
  then show ?case using rounds_add [of env hs 1 k s] t by (intro exI [of _ s']) simp
qed simp

lemma silent_period:
  assumes "\<forall>h \<in> set hs. handler_ok h" and "silent env" and "0 < P" and "waiting F M P c P s"
  shows "\<exists>s'. rounds env hs P s = Inr s' \<and>
    (if c < M then waiting F M P (Suc c) P s' \<and> sent s' = F # sent s
     else default_authenticated s' \<and> sent s' = sent s)"
proof -
  obtain k where k: "P = Suc k" using assms(3) by (cases P) simp_all
  obtain t where t: "rounds env hs k s = Inr t" "waiting F M P c 1 t" "sent t = sent s"
    using silent_wait [OF assms(1-3)] assms(4) by (metis k)
  obtain s' where "rounds env hs 1 t = Inr s'" "if c < M then waiting F M P (Suc c) P s' \<and> sent s' = F # sent t
     else default_authenticated s' \<and> sent s' = sent t"
    using silent_round [OF assms(1,2) t(2) assms(3)] by auto
  then show ?thesis
    using rounds_add [of env hs k 1 s] t(1,3) k by (intro exI [of _ s']) (auto simp del: rounds.simps)
qed

lemma silent_periods:
  assumes "\<forall>h \<in> set hs. handler_ok h" and "silent env" and "0 < P"
  shows "waiting F M P c P s \<Longrightarrow> c + d = M \<Longrightarrow>
    \<exists>s'. rounds env hs (d * P + P) s = Inr s' \<and> default_authenticated s' \<and> sent s' = replicate d F @ sent s"
proof (induction d arbitrary: c s)
  case 0
  then show ?case using silent_period [OF assms 0(1)] by auto
next
  case (Suc d)
  obtain t where t: "rounds env hs P s = Inr t" "waiting F M P (Suc c) P t" "sent t = F # sent s"
    using silent_period [OF assms Suc.prems(1)] Suc.prems(2) by auto
  obtain s' where "rounds env hs (d * P + P) t = Inr s'" "default_authenticated s'" "sent s' = replicate d F @ sent t"
    using Suc.IH [OF t(2)] Suc.prems(2) by auto
  then show ?case
    using rounds_add [of env hs P "d * P + P" s] t(1,3)
    by (intro exI [of _ s']) (simp add: replicate_app_Cons_same add.commute add.left_commute)
qed


lemma sample_waiting: "waiting (start_frame sample_if) 3 30 0 0 sample_if"
  using sample_macs_ok by (simp add: waiting_def sample_sm_def)


end
