(* ===== verification/CmdHandler.thy ===== *)
theory CmdHandler
  imports Samples
begin

text \<open>
  \<open>cmd_handler.c\<close>: the commands of the configuration file, with \<open>%i\<close> replaced by the interface's name,
  split at spaces into an argument vector.
\<close>

abbreviation percent :: u8 where "percent \<equiv> 0x25"
abbreviation letter_i :: u8 where "letter_i \<equiv> 0x69"
abbreviation space :: u8 where "space \<equiv> 0x20"

text \<open>\<open>strstr(s, "%i")\<close>: the text before the first occurrence and the text behind it.\<close>

fun split_percent_i :: "cstr \<Rightarrow> (cstr \<times> cstr) option" where
  "split_percent_i (a # b # s) =
     (if a = percent \<and> b = letter_i then Some ([], s)
      else map_option (\<lambda>(pre, post). (a # pre, post)) (split_percent_i (b # s)))"
| "split_percent_i _ = None"

text \<open>The loop runs while there is an occurrence, so a name that holds \<open>%i\<close> itself would keep it going;
  its result is \<open>None\<close> when it does not return. \<open>intname\<close> is an array of 16 bytes and the result goes to a
  buffer of \<open>cap\<close> bytes. The value is the return code and what the buffer holds; when the allocation of
  the intermediate copy fails, that is the text as far as it has been replaced.\<close>

partial_function (option) cmd_handler_do_int_loop ::
  "env \<Rightarrow> nat \<Rightarrow> cstr \<Rightarrow> cstr \<Rightarrow> (int \<times> cstr) res option" where
  "cmd_handler_do_int_loop env cap intname cmdout =
     (case split_percent_i cmdout of
        None \<Rightarrow> Some (Ok (XENONE, cmdout))
      | Some (pre, post) \<Rightarrow>
          if \<not> malloc_ok env ACmdCopy then Some (Ok (XEMALLOC, cmdout))
          else if 16 \<le> length intname \<or> cap \<le> length (pre @ intname @ post) then Some (Fault Overflow)
          else cmd_handler_do_int_loop env cap intname (pre @ intname @ post))"

definition cmd_handler_do_int :: "env \<Rightarrow> nat \<Rightarrow> interface_data \<Rightarrow> cstr \<Rightarrow> (int \<times> cstr) res option" where
  "cmd_handler_do_int env cap s cmdin =
     (if cap \<le> length cmdin then Some (Fault Overflow)
      else cmd_handler_do_int_loop env cap (intName s) cmdin)"

definition cmd_handler_subst :: "env \<Rightarrow> nat \<Rightarrow> interface_data \<Rightarrow> cstr \<Rightarrow> (int \<times> cstr) res option" where
  "cmd_handler_subst env cap s cmd = cmd_handler_do_int env cap s cmd"

text \<open>\<open>strtok\<close> with a single space: leading separators are skipped, empty tokens do not occur.\<close>

fun strtok_all :: "cstr \<Rightarrow> cstr \<Rightarrow> cstr list" where
  "strtok_all [] cur = (if cur = [] then [] else [rev cur])"
| "strtok_all (c # s) cur =
     (if c = space then (if cur = [] then strtok_all s [] else rev cur # strtok_all s [])
      else strtok_all s (c # cur))"

text \<open>\<open>args\<close> has ten entries. The first token is duplicated without a check, up to nine more are taken,
  and the terminator is stored behind them.\<close>

definition build_args :: "cstr \<Rightarrow> cstr list res" where
  "build_args execme =
     (let toks = strtok_all execme [] in
      if toks = [] then Fault NullDeref
      else let args = take 10 toks in
        if length args < 10 then Ok args else Fault Overflow)"

text \<open>The result is the argument vector the child is started with, or \<open>None\<close> inside for no command. The
  return code of the substitution is not looked at.\<close>

definition cmd_handler_exec :: "env \<Rightarrow> interface_data \<Rightarrow> cstr option \<Rightarrow> cstr list option res option" where
  "cmd_handler_exec env s cmd =
     (case cmd of None \<Rightarrow> Some (Ok None)
      | Some c \<Rightarrow> map_option (\<lambda>r. bindR r (\<lambda>(rc, execme). bindR (build_args execme) (\<lambda>args. Ok (Some args))))
                   (cmd_handler_subst env 256 s c))"

section \<open>What the substitution yields\<close>

text \<open>All occurrences replaced in one pass from left to right.\<close>

fun expand :: "cstr \<Rightarrow> cstr \<Rightarrow> cstr" where
  "expand name (a # b # s) =
     (if a = percent \<and> b = letter_i then name @ expand name s else a # expand name (b # s))"
| "expand name s = s"

text \<open>A name that can make no new occurrence, neither alone nor with a percent sign before it.\<close>

definition plain_name :: "cstr \<Rightarrow> bool" where
  "plain_name name \<longleftrightarrow> name \<noteq> [] \<and> hd name \<noteq> letter_i \<and> percent \<notin> set name \<and> length name < 16"

lemma split_percent_i_Some:
  "split_percent_i c = Some (pre, post) \<Longrightarrow>
     c = pre @ percent # letter_i # post \<and> split_percent_i pre = None \<and> expand name c = pre @ name @ expand name post"
proof (induction c arbitrary: pre rule: split_percent_i.induct)
  case (1 a b s)
  show ?case
  proof (cases "a = percent \<and> b = letter_i")
    case False
    with 1 obtain pre' where p: "split_percent_i (b # s) = Some (pre', post)" "pre = a # pre'"
      by auto
    from 1(1) [OF False p(1)] show ?thesis using False p(2) by (cases pre') auto
  qed (use 1 in simp)
qed simp_all

lemma split_percent_i_None: "split_percent_i c = None \<Longrightarrow> expand name c = c"
  by (induction c rule: split_percent_i.induct) (auto split: if_splits)

lemma expand_behind:
  "split_percent_i pre = None \<Longrightarrow> b \<noteq> letter_i \<Longrightarrow> expand name (pre @ b # s) = pre @ expand name (b # s)"
proof (induction pre rule: split_percent_i.induct)
  case (1 a c p)
  then show ?case by (auto split: if_splits)
qed auto

lemma expand_plain: "percent \<notin> set w \<Longrightarrow> expand name (w @ s) = w @ expand name s"
proof (induction w)
  case (Cons a w)
  then show ?case by (cases "w @ s") auto
qed simp

lemma expand_replaced:
  assumes "split_percent_i c = Some (pre, post)" and "plain_name name"
  shows "expand name (pre @ name @ post) = expand name c"
proof -
  from assms(2) obtain b n where n: "name = b # n" "b \<noteq> letter_i" "percent \<notin> set name"
    by (cases name) (auto simp: plain_name_def)
  have "expand name (pre @ name @ post) = pre @ expand name (name @ post)"
    using expand_behind [of pre b name "n @ post"] split_percent_i_Some [OF assms(1)] n(1,2) by simp
  then show ?thesis
    using expand_plain [OF n(3), of name post] split_percent_i_Some [OF assms(1), of name] by metis
qed

lemma expand_grows: "2 \<le> length name \<Longrightarrow> length s \<le> length (expand name s)"
  by (induction name s rule: expand.induct) auto

lemma loop_done: "split_percent_i c = None \<Longrightarrow> cmd_handler_do_int_loop env cap name c = Some (Ok (XENONE, c))"
  by (subst cmd_handler_do_int_loop.simps) simp

lemma count_percent_replaced:
  "split_percent_i c = Some (pre, post) \<Longrightarrow> percent \<notin> set name \<Longrightarrow>
     count_list (pre @ name @ post) percent < count_list c percent"
  using split_percent_i_Some [of c pre post name] by (auto simp: count_notin)

lemma loop_expands:
  assumes "plain_name name" and "malloc_ok env ACmdCopy" and "length c < cap" and "length (expand name c) < cap"
  shows "cmd_handler_do_int_loop env cap name c = Some (Ok (XENONE, expand name c))"
  using assms(3,4)
proof (induction "count_list c percent" arbitrary: c rule: less_induct)
  case less
  show ?case
  proof (cases "split_percent_i c")
    case None
    then show ?thesis by (simp add: loop_done split_percent_i_None)
  next
    case (Some p)
    obtain pre post where p: "p = (pre, post)" by (cases p)
    let ?c = "pre @ name @ post"
    have s: "split_percent_i c = Some (pre, post)" using Some p by simp
    have e: "expand name ?c = expand name c" by (rule expand_replaced [OF s assms(1)])
    have "length ?c \<le> length c \<or> length ?c \<le> length (expand name c)"
      using expand_grows [of name ?c] split_percent_i_Some [OF s] e by (cases "2 \<le> length name") auto
    then have l: "length ?c < cap" using less.prems by linarith
    have "count_list ?c percent < count_list c percent"
      using count_percent_replaced [OF s, of name] assms(1) by (simp add: plain_name_def)
    from less.hyps [OF this l] have "cmd_handler_do_int_loop env cap name ?c = Some (Ok (XENONE, expand name c))"
      using less.prems e by simp
    then show ?thesis
      by (subst cmd_handler_do_int_loop.simps) (use s l assms(1,2) in \<open>simp add: plain_name_def\<close>)
  qed
qed

lemma loop_returns:
  assumes "percent \<notin> set name"
  shows "\<exists>r. cmd_handler_do_int_loop env cap name c = Some r"
proof (induction "count_list c percent" arbitrary: c rule: less_induct)
  case less
  show ?case
  proof (cases "split_percent_i c")
    case (Some p)
    obtain pre post where s: "split_percent_i c = Some (pre, post)" using Some by (cases p) simp
    from less [OF count_percent_replaced [OF this assms]] show ?thesis
      by (subst cmd_handler_do_int_loop.simps) (simp add: s)
  qed (auto simp: loop_done)
qed

text \<open>With the name \<open>%i\<close> the text does not change from one round to the next.\<close>

lemma loop_stuck:
  assumes "cmd_handler_do_int_loop env cap name c = Some r"
  shows "name = [percent, letter_i] \<longrightarrow> malloc_ok env ACmdCopy \<longrightarrow> length c < cap \<longrightarrow> split_percent_i c = None"
proof (rule cmd_handler_do_int_loop.raw_induct [OF _ assms], intro impI)
  fix loop env cap name c r
  assume IH: "\<And>env cap name c r. loop env cap name c = Some r \<Longrightarrow>
      name = [percent, letter_i] \<longrightarrow> malloc_ok env ACmdCopy \<longrightarrow> length c < cap \<longrightarrow> split_percent_i c = None"
    and r: "(case split_percent_i c of None \<Rightarrow> Some (Ok (XENONE, c))
      | Some (pre, post) \<Rightarrow>
          if \<not> malloc_ok env ACmdCopy then Some (Ok (XEMALLOC, c))
          else if 16 \<le> length name \<or> cap \<le> length (pre @ name @ post) then Some (Fault Overflow)
          else loop env cap name (pre @ name @ post)) = Some r"
    and n: "name = [percent, letter_i]" and m: "malloc_ok env ACmdCopy" "length c < cap"
  show "split_percent_i c = None"
  proof (cases "split_percent_i c")
    case (Some p)
    obtain pre post where s: "split_percent_i c = Some (pre, post)" using Some by (cases p) simp
    then have c: "c = pre @ name @ post" using split_percent_i_Some [OF s] n by simp
    with r s m have "loop env cap name c = Some r" by (simp add: n)
    with IH n m show ?thesis by blast
  qed
qed

text \<open>C24: The loop that replaces \<open>%i\<close> ends for every interface name without a percent sign, whatever the
  command is; for the interface name \<open>%i\<close> it never returns once there is an occurrence to replace.\<close>

theorem cmd_handler_do_int_returns:
  assumes "malloc_ok env ACmdCopy"
  shows "(percent \<notin> set (intName s) \<longrightarrow> (\<exists>r. cmd_handler_do_int env cap s c = Some r)) \<and>
    (intName s = [percent, letter_i] \<and> split_percent_i c \<noteq> None \<and> length c < cap \<longrightarrow>
      cmd_handler_do_int env cap s c = None)"
proof (intro conjI impI)
  assume "percent \<notin> set (intName s)"
  from loop_returns [OF this] show "\<exists>r. cmd_handler_do_int env cap s c = Some r"
    by (simp add: cmd_handler_do_int_def)
next
  assume a: "intName s = [percent, letter_i] \<and> split_percent_i c \<noteq> None \<and> length c < cap"
  show "cmd_handler_do_int env cap s c = None"
  proof (rule ccontr)
    assume "cmd_handler_do_int env cap s c \<noteq> None"
    then obtain r where "cmd_handler_do_int_loop env cap (intName s) c = Some r"
      using a by (auto simp: cmd_handler_do_int_def)
    from loop_stuck [OF this] a assms show False by blast
  qed
qed

section \<open>The argument vector\<close>

lemma strtok_word: "space \<notin> set w \<Longrightarrow> strtok_all (w @ s) cur = strtok_all s (rev w @ cur)"
  by (induction w arbitrary: cur) auto

text \<open>A command line: words with single spaces between them.\<close>

fun command_line :: "cstr list \<Rightarrow> cstr" where
  "command_line [] = []"
| "command_line [w] = w"
| "command_line (w # ws) = w @ space # command_line ws"

definition word_ok :: "cstr \<Rightarrow> bool" where
  "word_ok w \<longleftrightarrow> w \<noteq> [] \<and> space \<notin> set w"

lemma strtok_command_line: "\<forall>w \<in> set ws. word_ok w \<Longrightarrow> strtok_all (command_line ws) [] = ws"
  by (induction ws rule: command_line.induct)
    (auto simp: word_ok_def strtok_word strtok_word [where s = "[]", simplified])

lemma expand_Cons_space: "expand name (space # s) = space # expand name s"
  by (cases s) simp_all

lemma expand_space: "expand name (w @ space # s) = expand name w @ space # expand name s"
  by (induction name w rule: expand.induct) (simp_all add: expand_Cons_space)

lemma expand_command_line: "expand name (command_line ws) = command_line (map (expand name) ws)"
  by (induction ws rule: command_line.induct) (auto simp: expand_space)

lemma expand_no_space: "space \<notin> set name \<Longrightarrow> space \<notin> set w \<Longrightarrow> space \<notin> set (expand name w)"
  by (induction name w rule: expand.induct) auto

lemma expand_Nil_iff: "name \<noteq> [] \<Longrightarrow> expand name w = [] \<longleftrightarrow> w = []"
  by (cases "(name, w)" rule: expand.cases) auto

lemma expand_word_ok: "space \<notin> set name \<Longrightarrow> name \<noteq> [] \<Longrightarrow> word_ok w \<Longrightarrow> word_ok (expand name w)"
  by (simp add: word_ok_def expand_no_space expand_Nil_iff)


theorem cmd_handler_do_int_returns_witness:
  "(\<exists>r. cmd_handler_do_int sample_env 256 sample_if [percent, letter_i] = Some r) \<and>
   cmd_handler_do_int sample_env 256 (sample_if\<lparr>intName := [percent, letter_i]\<rparr>) [percent, letter_i] = None"
  using cmd_handler_do_int_returns [of sample_env sample_if 256 "[percent, letter_i]"]
    cmd_handler_do_int_returns [of sample_env "sample_if\<lparr>intName := [percent, letter_i]\<rparr>" 256 "[percent, letter_i]"]
  by simp


end
