(* ===== verification/Spec2Isabelle.thy ===== *)
theory Spec2Isabelle
  imports Prelude Frames Profile Samples Cardif Mschapv2 EapMethod EapMd5 EapOtp EapMschapv2 Md4 EapLeap
    Interactive Eap KeyRx Statemachine Eapol PortAccess CmdHandler
begin

text \<open>
  A model of the xsupplicant 802.1X client (\<open>src/xsupplicant/src\<close>).
\<close>

end
